(* ===== verification/Prelude.thy ===== *)
theory Prelude
  imports Main "HOL-Library.Word"
begin

section \<open>Shared vocabulary: machine integers, programs with C++ exceptions, proof rules\<close>

text \<open>
  The C++ sources mutate objects through pointers, call the operating system, call user
  code and may leave a function by an exception.  A function of the sources becomes a
  \<^emph>\<open>program\<close>: it takes the state and returns either an exception or a value, together with
  the state reached so far, because C++ keeps the writes made before the throw.
  This theory holds the program type, its combinators, the weakest precondition that the
  component proofs compute with, and Hoare triples for loops and invariants.
\<close>

subsection \<open>Machine integers\<close>

type_synonym u8 = "8 word"
type_synonym u16 = "16 word"
type_synonym u32 = "32 word"
type_synonym u64 = "64 word"

text \<open>
  The simplifier collections: \<open>wp_simps\<close> computes weakest preconditions, \<open>triples\<close>
  holds the proved triples of the components.
\<close>

named_theorems wp_simps
named_theorems triples

subsection \<open>Programs\<close>

text \<open>
  \<open>Lib_exception\<close> is the library's own class \<open>exception\<close> (a text and an error code), the
  only one its handlers catch.  The others are ways a C++ program goes wrong:
  calling an empty \<open>boost::function\<close>, dereferencing a null pointer or an object that has
  been destroyed, a failed \<open>assert\<close>, use of an iterator at or past the end of a vector or
  of one whose element was erased, a write outside of an array.  \<open>Std_exception\<close> is a bare
  \<open>std::exception\<close>, which the reactors of FreeBSD and of \<open>select\<close> throw.
  \<open>Out_of_fuel\<close> stands for a loop of the sources that did not end within the given bound.
\<close>

datatype exn =
    Lib_exception string int
  | Bad_function_call
  | Null_deref
  | Dangling
  | Assertion_failed
  | Bad_iterator
  | Out_of_bounds
  | Bad_semaphore
  | Std_exception
  | Out_of_fuel

fun is_lib_exception :: "exn \<Rightarrow> bool" where
  "is_lib_exception (Lib_exception _ _) = True"
| "is_lib_exception _ = False"

type_synonym ('s, 'a) prog = "'s \<Rightarrow> (exn + 'a) \<times> 's"

definition ret :: "'a \<Rightarrow> ('s, 'a) prog" where
  "ret x = (\<lambda>s. (Inr x, s))"

definition throw :: "exn \<Rightarrow> ('s, 'a) prog" where
  "throw e = (\<lambda>s. (Inl e, s))"

definition bnd :: "('s, 'a) prog \<Rightarrow> ('a \<Rightarrow> ('s, 'b) prog) \<Rightarrow> ('s, 'b) prog" where
  "bnd m f = (\<lambda>s. case m s of (Inl e, t) \<Rightarrow> (Inl e, t) | (Inr x, t) \<Rightarrow> f x t)"

definition andthen :: "('s, unit) prog \<Rightarrow> ('s, 'b) prog \<Rightarrow> ('s, 'b) prog" where
  "andthen m n = bnd m (\<lambda>_. n)"

definition gets :: "('s \<Rightarrow> 'a) \<Rightarrow> ('s, 'a) prog" where
  "gets f = (\<lambda>s. (Inr (f s), s))"

definition modify :: "('s \<Rightarrow> 's) \<Rightarrow> ('s, unit) prog" where
  "modify f = (\<lambda>s. (Inr (), f s))"

definition assertion :: "bool \<Rightarrow> ('s, unit) prog" where
  "assertion b = (if b then ret () else throw Assertion_failed)"

text \<open>\<open>try { m } catch( exception& ex ) { h }\<close>: only the library's exceptions are caught.\<close>

definition try_catch :: "('s, 'a) prog \<Rightarrow> (exn \<Rightarrow> ('s, 'a) prog) \<Rightarrow> ('s, 'a) prog" where
  "try_catch m h = (\<lambda>s. case m s of
       (Inl e, t) \<Rightarrow> if is_lib_exception e then h e t else (Inl e, t)
     | (Inr x, t) \<Rightarrow> (Inr x, t))"

text \<open>A statement sequence, and a loop whose body answers whether to leave it.\<close>

fun block :: "('s, unit) prog list \<Rightarrow> ('s, unit) prog" where
  "block [] = ret ()"
| "block (m # ms) = andthen m (block ms)"

fun for_until :: "('a \<Rightarrow> ('s, bool) prog) \<Rightarrow> 'a list \<Rightarrow> ('s, bool) prog" where
  "for_until body [] = ret False"
| "for_until body (x # xs) = bnd (body x) (\<lambda>stop. if stop then ret True else for_until body xs)"

fun for_each :: "('a \<Rightarrow> ('s, unit) prog) \<Rightarrow> 'a list \<Rightarrow> ('s, unit) prog" where
  "for_each body [] = ret ()"
| "for_each body (x # xs) = andthen (body x) (for_each body xs)"

definition whenever :: "bool \<Rightarrow> ('s, unit) prog \<Rightarrow> ('s, unit) prog" where
  "whenever b m = (if b then m else ret ())"

subsection \<open>Weakest preconditions\<close>

definition wp :: "('s, 'a) prog \<Rightarrow> ('a \<Rightarrow> 's \<Rightarrow> bool) \<Rightarrow> (exn \<Rightarrow> 's \<Rightarrow> bool) \<Rightarrow> 's \<Rightarrow> bool" where
  "wp m Q E s = (case m s of (Inr x, t) \<Rightarrow> Q x t | (Inl e, t) \<Rightarrow> E e t)"

lemma wp_ret [wp_simps]: "wp (ret x) Q E s = Q x s"
  by (simp add: wp_def ret_def)

lemma wp_throw [wp_simps]: "wp (throw e) Q E s = E e s"
  by (simp add: wp_def throw_def)

lemma wp_bnd [wp_simps]: "wp (bnd m f) Q E s = wp m (\<lambda>x. wp (f x) Q E) E s"
  by (auto simp: wp_def bnd_def split: prod.splits sum.splits)

lemma wp_andthen [wp_simps]: "wp (andthen m n) Q E s = wp m (\<lambda>_. wp n Q E) E s"
  by (simp add: andthen_def wp_bnd)

lemma wp_gets [wp_simps]: "wp (gets f) Q E s = Q (f s) s"
  by (simp add: wp_def gets_def)

lemma wp_modify [wp_simps]: "wp (modify f) Q E s = Q () (f s)"
  by (simp add: wp_def modify_def)

lemma wp_assertion [wp_simps]:
  "wp (assertion b) Q E s = (if b then Q () s else E Assertion_failed s)"
  by (simp add: assertion_def wp_simps)

lemma wp_if [wp_simps]: "wp (if b then m else n) Q E s = (if b then wp m Q E s else wp n Q E s)"
  by simp

lemma wp_whenever [wp_simps]: "wp (whenever b m) Q E s = (if b then wp m Q E s else Q () s)"
  by (simp add: whenever_def wp_simps)

lemma wp_case_option [wp_simps]:
  "wp (case x of None \<Rightarrow> m | Some y \<Rightarrow> f y) Q E s =
     (case x of None \<Rightarrow> wp m Q E s | Some y \<Rightarrow> wp (f y) Q E s)"
  by (cases x) simp_all

lemma wp_case_prod [wp_simps]:
  "wp (case p of (a, b) \<Rightarrow> f a b) Q E s = (case p of (a, b) \<Rightarrow> wp (f a b) Q E s)"
  by (cases p) simp

lemma wp_let [wp_simps]: "wp (Let x f) Q E s = wp (f x) Q E s"
  by simp

lemma wp_try_catch [wp_simps]:
  "wp (try_catch m h) Q E s = wp m Q (\<lambda>e t. if is_lib_exception e then wp (h e) Q E t else E e t) s"
  by (auto simp: wp_def try_catch_def split: prod.splits sum.splits)

lemma wp_block [wp_simps]:
  "wp (block []) Q E s = Q () s"
  "wp (block (m # ms)) Q E s = wp m (\<lambda>_. wp (block ms) Q E) E s"
  by (simp_all add: wp_simps)

text \<open>The rules before the state is applied, for postconditions under a binder.\<close>

lemma wp_ret_eta: "wp (ret x) Q E = Q x"
  by (rule ext) (simp add: wp_ret)

lemma wp_bnd_eta: "wp (bnd m f) Q E = wp m (\<lambda>x. wp (f x) Q E) E"
  by (rule ext) (simp add: wp_bnd)

lemma wp_gets_eta: "wp (gets f) Q E = (\<lambda>s. Q (f s) s)"
  by (rule ext) (simp add: wp_gets)

lemma wp_andthen_eta: "wp (andthen m n) Q E = wp m (\<lambda>_. wp n Q E) E"
  by (rule ext) (simp add: wp_andthen)

lemma wp_throw_eta: "wp (throw e) Q E = E e"
  by (rule ext) (simp add: wp_throw)

lemma wp_modify_eta: "wp (modify f) Q E = (\<lambda>s. Q () (f s))"
  by (rule ext) (simp add: wp_modify)

lemmas wp_eta = wp_ret_eta wp_bnd_eta wp_gets_eta wp_andthen_eta wp_throw_eta wp_modify_eta

lemma wp_mono:
  assumes "wp m Q E s" and "\<And>x t. Q x t \<Longrightarrow> Q' x t" and "\<And>e t. E e t \<Longrightarrow> E' e t"
  shows "wp m Q' E' s"
  using assms by (auto simp: wp_def split: prod.splits sum.splits)

text \<open>What a weakest precondition says of the run itself.\<close>

lemma wp_Inr: "wp m Q E s \<Longrightarrow> m s = (Inr x, t) \<Longrightarrow> Q x t"
  by (simp add: wp_def)

lemma wp_Inl: "wp m Q E s \<Longrightarrow> m s = (Inl e, t) \<Longrightarrow> E e t"
  by (simp add: wp_def)

lemma wp_eqI: "wp m (\<lambda>x t. r = (Inr x, t)) (\<lambda>e t. r = (Inl e, t)) s \<Longrightarrow> m s = r"
  by (auto simp: wp_def split: prod.splits sum.splits)

lemma wp_snd: "wp m (\<lambda>_. I) (\<lambda>_. I) s \<longleftrightarrow> I (snd (m s))"
  by (auto simp: wp_def split: prod.splits sum.splits)

subsection \<open>Hoare triples\<close>

definition triple :: "('s \<Rightarrow> bool) \<Rightarrow> ('s, 'a) prog \<Rightarrow> ('a \<Rightarrow> 's \<Rightarrow> bool) \<Rightarrow> ('s \<Rightarrow> bool) \<Rightarrow> bool" where
  "triple P m Q E \<longleftrightarrow> (\<forall>s. P s \<longrightarrow> wp m Q (\<lambda>_. E) s)"

lemma tripleI: "(\<And>s. P s \<Longrightarrow> wp m Q (\<lambda>_. E) s) \<Longrightarrow> triple P m Q E"
  by (simp add: triple_def)

lemma tripleD: "triple P m Q E \<Longrightarrow> P s \<Longrightarrow> wp m Q (\<lambda>_. E) s"
  by (simp add: triple_def)

lemma triple_wp:
  assumes "triple P m Q E" and "P s" and "\<And>x t. Q x t \<Longrightarrow> Q' x t" and "\<And>e t. E t \<Longrightarrow> E' e t"
  shows "wp m Q' E' s"
  using assms(2-4) tripleD [OF assms(1)] by (blast intro: wp_mono)

lemma triple_ret [triples]: "triple I (ret x) (\<lambda>_. I) E"
  by (simp add: triple_def wp_simps)

lemma triple_bnd:
  "triple P m R E \<Longrightarrow> (\<And>x. triple (R x) (f x) Q E) \<Longrightarrow> triple P (bnd m f) Q E"
proof (rule tripleI)
  fix s
  assume m: "triple P m R E" and f: "\<And>x. triple (R x) (f x) Q E" and "P s"
  then have "wp m R (\<lambda>_. E) s" by (simp add: tripleD)
  then show "wp (bnd m f) Q (\<lambda>_. E) s"
    unfolding wp_bnd by (rule wp_mono) (simp_all add: tripleD [OF f])
qed

lemma triple_andthen [triples]:
  "triple I m (\<lambda>_. I) E \<Longrightarrow> triple I n (\<lambda>_. I) E \<Longrightarrow> triple I (andthen m n) (\<lambda>_. I) E"
  unfolding andthen_def by (rule triple_bnd)

lemma triple_bnd_inv [triples]:
  "triple I m (\<lambda>_. I) E \<Longrightarrow> (\<And>x. triple I (f x) (\<lambda>_. I) E) \<Longrightarrow> triple I (bnd m f) (\<lambda>_. I) E"
  by (rule triple_bnd)

lemma triple_if [triples]:
  "(b \<Longrightarrow> triple I m Q E) \<Longrightarrow> (\<not> b \<Longrightarrow> triple I n Q E) \<Longrightarrow> triple I (if b then m else n) Q E"
  by simp

lemma triple_whenever [triples]:
  "(b \<Longrightarrow> triple I m (\<lambda>_. I) E) \<Longrightarrow> triple I (whenever b m) (\<lambda>_. I) E"
  by (simp add: whenever_def triple_def wp_simps)

lemma triple_option [triples]:
  "(x = None \<Longrightarrow> triple I m Q E) \<Longrightarrow> (\<And>y. x = Some y \<Longrightarrow> triple I (f y) Q E) \<Longrightarrow>
   triple I (case x of None \<Rightarrow> m | Some y \<Rightarrow> f y) Q E"
  by (cases x) simp_all

lemma triple_block [triples]:
  "(\<And>m. m \<in> set ms \<Longrightarrow> triple I m (\<lambda>_. I) E) \<Longrightarrow> triple I (block ms) (\<lambda>_. I) E"
proof (induction ms)
  case Nil
  show ?case by (simp add: triple_ret)
next
  case (Cons m ms)
  show ?case
    unfolding block.simps by (rule triple_andthen) (simp_all add: Cons)
qed

lemma triple_for_each [triples]:
  "(\<And>x. x \<in> set xs \<Longrightarrow> triple I (body x) (\<lambda>_. I) E) \<Longrightarrow> triple I (for_each body xs) (\<lambda>_. I) E"
proof (induction xs)
  case Nil
  show ?case by (simp add: triple_ret)
next
  case (Cons x xs)
  show ?case
    unfolding for_each.simps by (rule triple_andthen) (simp_all add: Cons)
qed

lemma triple_for_until [triples]:
  "(\<And>x. x \<in> set xs \<Longrightarrow> triple I (body x) (\<lambda>_. I) E) \<Longrightarrow> triple I (for_until body xs) (\<lambda>_. I) E"
proof (induction xs)
  case Nil
  then show ?case by (simp add: triple_ret)
next
  case (Cons x xs)
  show ?case
    unfolding for_until.simps
    by (rule triple_bnd_inv) (simp_all add: Cons triple_ret)
qed

lemma triple_conseq:
  "triple P m Q E \<Longrightarrow> (\<And>s. P' s \<Longrightarrow> P s) \<Longrightarrow> (\<And>x t. Q x t \<Longrightarrow> Q' x t) \<Longrightarrow> (\<And>t. E t \<Longrightarrow> E' t) \<Longrightarrow>
   triple P' m Q' E'"
  unfolding triple_def by (blast intro: wp_mono)

lemma triple_seq:
  "triple P m (\<lambda>_. R) E \<Longrightarrow> triple R n Q E \<Longrightarrow> triple P (andthen m n) Q E"
  unfolding andthen_def by (rule triple_bnd)

lemma triple_try_catch:
  assumes "triple P m Q I" and "\<And>e. triple I (h e) Q E" and "\<And>s. I s \<Longrightarrow> E s"
  shows "triple P (try_catch m h) Q E"
proof (rule tripleI)
  fix s assume "P s"
  with assms(1) have "wp m Q (\<lambda>_. I) s" by (rule tripleD)
  then show "wp (try_catch m h) Q (\<lambda>_. E) s"
    unfolding wp_try_catch by (rule wp_mono) (use assms(2,3) in \<open>auto simp: triple_def\<close>)
qed

lemma triple_prod: "(\<And>a b. triple P (f a b) Q E) \<Longrightarrow> triple P (case p of (a, b) \<Rightarrow> f a b) Q E"
  by (cases p) simp

lemma triple_entry:
  "triple P m Q E \<Longrightarrow> (\<And>k code xs. triple P (f k code xs) Q E) \<Longrightarrow>
   triple P (case xs of [] \<Rightarrow> m | (k, code) # ys \<Rightarrow> f k code ys) Q E"
  by (cases xs) (auto split: prod.split)

subsection \<open>Lists\<close>

text \<open>
  The scan-and-erase loop of the dispatchers: \<open>for( it ... ) if( *it==x ) { v.erase(it); break; }\<close>
  is \<^const>\<open>remove1\<close>.
\<close>

lemma count_list_remove1:
  "count_list (remove1 x xs) y = (if x = y then count_list xs y - 1 else count_list xs y)"
  by (induction xs) auto

lemma sum_list_le_mult:
  fixes k :: nat
  shows "(\<And>x. x \<in> set xs \<Longrightarrow> f x \<le> k) \<Longrightarrow> (\<Sum>x\<leftarrow>xs. f x) \<le> length xs * k"
proof (induction xs)
  case (Cons x xs)
  then have "(\<Sum>x\<leftarrow>xs. f x) \<le> length xs * k" and "f x \<le> k"
    by (simp_all only: list.set_intros)
  then show ?case by simp
qed simp

text \<open>A program that cannot fail gives a result.\<close>

lemma wp_returns: "wp m Q (\<lambda>_ _. False) s \<Longrightarrow> \<exists>x t. m s = (Inr x, t) \<and> Q x t"
  by (cases "m s"; cases "fst (m s)") (auto simp: wp_def)

end
