(* ===== verification/Externals.thy ===== *)
theory Externals
  imports Prelude
begin

section \<open>The code outside the repository\<close>

text \<open>
  The sources call the operating system, the user's callbacks and the class
  \<open>refcounted_obj\<close> of another project (\<open>..\common\refcounted_obj.cpp\<close>).  None of that
  code is in the repository, so it is a parameter of the model: a function \<open>ext\<close> that
  answers each call from a state of the outside world of any type, and goes to a next one.
  Every call is recorded with its answer in the trace of the run, in order.  A theorem
  that relies on what an external function does names that behaviour as a hypothesis on
  the answers.
\<close>

subsection \<open>Data that crosses the boundary\<close>

text \<open>
  Objects live at addresses; 0 is the null pointer.  A \<open>boost::function\<close> is the number of
  a user function, or \<^const>\<open>None\<close> when it is empty (\<open>callbacks_t\<close> of \<open>itcp_dispatcher.h\<close>).
\<close>

type_synonym addr = nat
type_synonym fd = int
type_synonym cbid = nat

record callbacks =
  cb_read :: "cbid option"
  cb_closed :: "cbid option"
  cb_connected :: "cbid option"

definition no_callbacks :: callbacks where
  "no_callbacks = \<lparr>cb_read = None, cb_closed = None, cb_connected = None\<rparr>"

record sockaddr =
  sin_addr :: u32
  sin_port :: u16

record timeb =
  tb_time :: int
  tb_millitm :: u16

text \<open>
  \<open>epoll_event\<close>: its \<open>data\<close> is a union of a pointer and a descriptor, so it is kept as
  the 64 bits of the union, the descriptor being the low 32 of them.
\<close>

record epoll_event =
  ee_events :: u32
  ee_data :: u64

definition data_of_fd :: "fd \<Rightarrow> u64" where
  "data_of_fd d = ucast (word_of_int d :: u32)"

definition data_of_ptr :: "addr \<Rightarrow> u64" where
  "data_of_ptr p = word_of_nat p"

definition data_fd :: "u64 \<Rightarrow> fd" where
  "data_fd d = sint (ucast d :: u32)"

definition data_ptr :: "u64 \<Rightarrow> addr" where
  "data_ptr d = unat d"

text \<open>The objects that derive from \<open>refcounted_obj\<close>.\<close>

datatype obj =
    ConnObj addr
  | RecvObj addr
  | SendObj addr
  | OverlapObj addr
  | AcceptObj addr

subsection \<open>Calls and answers\<close>

text \<open>
  One constructor per external function, with the arguments the sources pass, grouped by
  where the function lives: the POSIX calls both platforms share, epoll, the kqueue of
  FreeBSD, \<open>select\<close>, the Windows calls, \<open>refcounted_obj\<close> and the user's functions.  A callback
  call names the connection (or the send request) whose \<open>boost::function\<close> is invoked
  besides the function itself; for \<open>connected\<close> the flag says whether its argument is
  the connection or null.
\<close>

datatype os_call =
    Socket
  | Set_nonblock fd
  | Bind fd sockaddr
  | Listen fd
  | Connect fd sockaddr
  | Accept fd
  | Send fd "u8 list"
  | Recv fd nat
  | Close fd
  | Pipe
  | Read fd
  | Write fd int
  | Ftime
  | Thread_create
  | Thread_join

datatype epoll_call =
    Epoll_create
  | Epoll_add fd fd u32 u64
  | Epoll_del fd fd u32 u64
  | Epoll_wait fd nat

text \<open>A \<open>struct kevent\<close>: the descriptor, and what \<open>EV_SET\<close> stores besides it.\<close>

record kevent =
  ident :: fd
  kfilter :: int
  kflags :: u16
  kfflags :: u32

datatype bsd_call =
    Kqueue
  | Kevent_change fd kevent
  | Kevent_wait fd nat

datatype select_call =
    Getsockname fd
  | Select int "fd list" "fd list" "fd list"

datatype win_call =
    Get_extension_functions fd
  | Create_iocp
  | Iocp_associate fd
  | Iocp_get nat
  | Iocp_post
  | Accept_ex fd fd addr
  | Connect_ex fd sockaddr addr
  | Wsa_send fd "u8 list" addr
  | Wsa_recv fd nat addr
  | Wsa_accept fd
  | Wsa_connect fd sockaddr
  | Create_event
  | Close_event nat
  | Event_select fd nat u32
  | Wait_events "nat list" "nat option"
  | Reset_event nat
  | Set_event nat
  | Enum_events fd nat

datatype user_call =
    Cb_connected addr cbid bool
  | Cb_closed addr cbid
  | Cb_read addr cbid "u8 list"
  | Cb_accepted addr cbid
  | Cb_sent addr cbid bool

datatype ext_call =
    Os os_call
  | Epoll epoll_call
  | Bsd bsd_call
  | Sel select_call
  | Win win_call
  | Addref obj string
  | Release obj string
  | User user_call

text \<open>
  An answer carries everything a call of the sources can look at: the return value, the
  error number, bytes read, the pair of descriptors of a pipe, events, the callbacks that
  the accept callback filled in, the time, a peer address, the completed operation and how
  many bytes it moved, the network events of a socket with an error code for each, the
  events of a kqueue, and the descriptors that \<open>select\<close> left in the set for reading.  A
  release answers with a non-zero value when it destroyed the object, a callback when it
  threw the library's exception.
\<close>

record reply =
  rv :: int
  err :: int
  r_bytes :: "u8 list"
  r_fds :: "fd \<times> fd"
  r_events :: "epoll_event list"
  r_cbs :: callbacks
  r_time :: timeb
  r_addr :: sockaddr
  r_done :: "obj option"
  r_size :: u32
  r_net :: u32
  r_net_errors :: "int list"
  r_kevents :: "kevent list"
  r_readable :: "fd list"

definition plain_reply :: "int \<Rightarrow> reply" where
  "plain_reply n = \<lparr>rv = n, err = 0, r_bytes = [], r_fds = (0, 0), r_events = [],
     r_cbs = no_callbacks, r_time = \<lparr>tb_time = 0, tb_millitm = 0\<rparr>,
     r_addr = \<lparr>sin_addr = 0, sin_port = 0\<rparr>, r_done = None, r_size = 0,
     r_net = 0, r_net_errors = [], r_kevents = [], r_readable = []\<rparr>"

type_synonym event = "ext_call \<times> reply"
type_synonym 'w ext = "ext_call \<Rightarrow> 'w \<Rightarrow> reply \<times> 'w"

record 'w outside =
  world :: 'w
  trace :: "event list"

definition call :: "'w ext \<Rightarrow> ext_call \<Rightarrow> (('w, 'z) outside_scheme, reply) prog" where
  "call ext c = (\<lambda>s. case ext c (world s) of (r, w) \<Rightarrow>
     (Inr r, s\<lparr>world := w, trace := trace s @ [(c, r)]\<rparr>))"

text \<open>A call whose answer the sources ignore, and the call of a user callback.\<close>

definition invoke :: "'w ext \<Rightarrow> ext_call \<Rightarrow> (('w, 'z) outside_scheme, unit) prog" where
  "invoke ext c = bnd (call ext c) (\<lambda>_. ret ())"

definition callback :: "'w ext \<Rightarrow> user_call \<Rightarrow> (('w, 'z) outside_scheme, reply) prog" where
  "callback ext c = bnd (call ext (User c)) (\<lambda>r.
     if rv r = 0 then ret r else throw (Lib_exception ''callback'' (rv r)))"

text \<open>
  A call that reports failure by \<open>-1\<close> and an error number, which the sources turn into
  the library's exception: \<open>if( -1==f(..) ) throw exception(text,errno)\<close>.
\<close>

definition checked :: "'w ext \<Rightarrow> ext_call \<Rightarrow> string \<Rightarrow> (('w, 'z) outside_scheme, int) prog" where
  "checked ext c text = bnd (call ext c) (\<lambda>r.
     if rv r = -1 then throw (Lib_exception text (err r)) else ret (rv r))"

subsection \<open>Constants of the platform\<close>

definition EINTR :: int where "EINTR = 4"
definition EAGAIN :: int where "EAGAIN = 11"
definition EWOULDBLOCK :: int where "EWOULDBLOCK = 11"
definition EINPROGRESS :: int where "EINPROGRESS = 115"

definition EPOLLIN :: u32 where "EPOLLIN = 0x001"
definition EPOLLOUT :: u32 where "EPOLLOUT = 0x004"
definition EPOLLERR :: u32 where "EPOLLERR = 0x008"
definition EPOLLHUP :: u32 where "EPOLLHUP = 0x010"
definition EPOLLET :: u32 where "EPOLLET = 0x80000000"

lemmas errno_defs = EINTR_def EAGAIN_def EWOULDBLOCK_def EINPROGRESS_def
lemmas epoll_defs = EPOLLIN_def EPOLLOUT_def EPOLLERR_def EPOLLHUP_def EPOLLET_def

text \<open>\<open>htons\<close> on a little-endian host: the two bytes change places.\<close>

definition htons :: "u16 \<Rightarrow> u16" where
  "htons p = or (push_bit 8 p) (drop_bit 8 p)"

lemma htons_htons [simp]: "htons (htons p) = p"
proof (rule bit_word_eqI)
  fix n assume "n < LENGTH(16)"
  then show "bit (htons (htons p)) n = bit p n"
    by (auto simp: htons_def bit_simps)
qed

subsection \<open>Weakest preconditions of the calls\<close>

lemma wp_call [wp_simps]:
  "wp (call ext c) Q E s = Q (fst (ext c (world s)))
     (s\<lparr>world := snd (ext c (world s)), trace := trace s @ [(c, fst (ext c (world s)))]\<rparr>)"
  by (simp add: wp_def call_def split: prod.splits)

lemma wp_invoke [wp_simps]:
  "wp (invoke ext c) Q E s = Q ()
     (s\<lparr>world := snd (ext c (world s)), trace := trace s @ [(c, fst (ext c (world s)))]\<rparr>)"
  by (simp add: invoke_def wp_simps)

lemma wp_callback [wp_simps]:
  "wp (callback ext c) Q E s = wp (call ext (User c))
     (\<lambda>r t. if rv r = 0 then Q r t else E (Lib_exception ''callback'' (rv r)) t) E s"
  by (simp add: callback_def wp_simps)

lemma wp_checked [wp_simps]:
  "wp (checked ext c text) Q E s = wp (call ext c)
     (\<lambda>r t. if rv r = -1 then E (Lib_exception text (err r)) t else Q (rv r) t) E s"
  by (simp add: checked_def wp_simps)

text \<open>The calls made so far, without their answers.\<close>

definition calls :: "('w, 'z) outside_scheme \<Rightarrow> ext_call list" where
  "calls s = map fst (trace s)"

lemma calls_update [simp]: "calls (s\<lparr>trace := es\<rparr>) = map fst es"
  by (simp add: calls_def)

end
