(* ===== verification/Std_Map.thy ===== *)
theory Std_Map
  imports Prelude
begin

section \<open>std::map as a sorted association list\<close>

text \<open>
  The sources iterate over their \<open>std::map\<close>s in key order and rely on \<open>insert\<close> not
  replacing an entry, so a map is its list of entries in key order.  The interface the
  components use is the locale \<open>ordered_map\<close>.
\<close>

type_synonym ('k, 'v) std_map = "('k \<times> 'v) list"

fun map_find :: "'k::linorder \<Rightarrow> ('k, 'v) std_map \<Rightarrow> 'v option" where
  "map_find k [] = None"
| "map_find k ((k', v) # m) = (if k = k' then Some v else map_find k m)"

text \<open>\<open>m.insert(std::make_pair(k,v))\<close> keeps the entry of a key that is there already.\<close>

fun map_insert :: "'k::linorder \<Rightarrow> 'v \<Rightarrow> ('k, 'v) std_map \<Rightarrow> ('k, 'v) std_map" where
  "map_insert k v [] = [(k, v)]"
| "map_insert k v ((k', v') # m) =
     (if k < k' then (k, v) # (k', v') # m
      else if k = k' then (k', v') # m
      else (k', v') # map_insert k v m)"

text \<open>\<open>it = m.find(k); if( it!=m.end() ) m.erase(it)\<close>, and an update through the iterator.\<close>

fun map_erase :: "'k::linorder \<Rightarrow> ('k, 'v) std_map \<Rightarrow> ('k, 'v) std_map" where
  "map_erase k [] = []"
| "map_erase k ((k', v) # m) = (if k = k' then m else (k', v) # map_erase k m)"

fun map_modify :: "'k::linorder \<Rightarrow> ('v \<Rightarrow> 'v) \<Rightarrow> ('k, 'v) std_map \<Rightarrow> ('k, 'v) std_map" where
  "map_modify k f [] = []"
| "map_modify k f ((k', v) # m) = (if k = k' then (k', f v) # m else (k', v) # map_modify k f m)"

definition map_keys :: "('k, 'v) std_map \<Rightarrow> 'k list" where
  "map_keys m = map fst m"

definition map_ok :: "('k::linorder, 'v) std_map \<Rightarrow> bool" where
  "map_ok m \<longleftrightarrow> sorted_wrt (<) (map_keys m)"

lemma map_keys_simps [simp]: "map_keys [] = []" "map_keys (e # m) = fst e # map_keys m"
  by (simp_all add: map_keys_def)

lemma map_ok_Nil [simp]: "map_ok []"
  by (simp add: map_ok_def)

lemma map_ok_Cons: "map_ok ((k, v) # m) \<longleftrightarrow> (\<forall>k' \<in> set (map_keys m). k < k') \<and> map_ok m"
  by (simp add: map_ok_def)

lemma map_find_None_iff: "map_find k m = None \<longleftrightarrow> k \<notin> set (map_keys m)"
  by (induction k m rule: map_find.induct) auto

lemma map_find_Some: "map_find k m = Some v \<Longrightarrow> (k, v) \<in> set m"
  by (induction k m rule: map_find.induct) (auto split: if_splits)

lemma map_find_key: "map_find k m = Some v \<Longrightarrow> k \<in> set (map_keys m)"
  using map_find_None_iff [of k m] by auto

lemma map_find_in: "map_ok m \<Longrightarrow> (k, v) \<in> set m \<Longrightarrow> map_find k m = Some v"
proof (induction m)
  case (Cons e m)
  then show ?case by (cases e) (force simp: map_ok_Cons map_keys_def)
qed simp

lemma set_keys_insert [simp]: "set (map_keys (map_insert k v m)) = insert k (set (map_keys m))"
  by (induction k v m rule: map_insert.induct) auto

lemma map_ok_insert [simp]: "map_ok m \<Longrightarrow> map_ok (map_insert k v m)"
  by (induction k v m rule: map_insert.induct) (auto simp: map_ok_Cons)

lemma map_find_insert:
  "map_ok m \<Longrightarrow> map_find k' (map_insert k v m) =
     (if k' = k \<and> map_find k m = None then Some v else map_find k' m)"
  by (induction k v m rule: map_insert.induct)
    (auto simp: map_ok_Cons map_find_None_iff dest!: map_find_key)

lemma set_keys_erase_subset: "set (map_keys (map_erase k m)) \<subseteq> set (map_keys m)"
  by (induction k m rule: map_erase.induct) auto

lemma map_ok_erase [simp]: "map_ok m \<Longrightarrow> map_ok (map_erase k m)"
  by (induction k m rule: map_erase.induct)
    (use set_keys_erase_subset in \<open>fastforce simp: map_ok_Cons\<close>)+

lemma map_find_erase:
  "map_ok m \<Longrightarrow> map_find k' (map_erase k m) = (if k' = k then None else map_find k' m)"
  by (induction k m rule: map_erase.induct) (auto simp: map_ok_Cons map_find_None_iff)

lemma map_keys_modify [simp]: "map_keys (map_modify k f m) = map_keys m"
  by (induction k f m rule: map_modify.induct) auto

lemma map_ok_modify [simp]: "map_ok (map_modify k f m) = map_ok m"
  by (simp add: map_ok_def)

lemma map_find_modify:
  "map_find k' (map_modify k f m) =
     (if k' = k then map_option f (map_find k m) else map_find k' m)"
  by (induction k f m rule: map_modify.induct) auto

lemma map_erase_absent: "map_find k m = None \<Longrightarrow> map_erase k m = m"
  by (induction k m rule: map_erase.induct) (auto split: if_splits)

text \<open>A property of every value of a map.\<close>

definition map_all :: "('v \<Rightarrow> bool) \<Rightarrow> ('k, 'v) std_map \<Rightarrow> bool" where
  "map_all P m \<longleftrightarrow> (\<forall>e \<in> set m. P (snd e))"

lemma map_all_simps [simp]: "map_all P []" "map_all P (e # m) \<longleftrightarrow> P (snd e) \<and> map_all P m"
  by (simp_all add: map_all_def)

lemma map_all_insert: "map_all P m \<Longrightarrow> P v \<Longrightarrow> map_all P (map_insert k v m)"
  by (induction k v m rule: map_insert.induct) auto

lemma map_all_modify: "map_all P m \<Longrightarrow> (\<And>v. P v \<Longrightarrow> P (f v)) \<Longrightarrow> map_all P (map_modify k f m)"
  by (induction k f m rule: map_modify.induct) auto

lemma map_all_erase: "map_all P m \<Longrightarrow> map_all P (map_erase k m)"
  by (induction k m rule: map_erase.induct) auto

lemma map_all_find: "map_all P m \<Longrightarrow> map_find k m = Some v \<Longrightarrow> P v"
  by (auto simp: map_all_def dest!: map_find_Some)

lemma map_find_map_prod: "map_find k (map (map_prod id f) m) = map_option f (map_find k m)"
  by (induction k m rule: map_find.induct) auto

text \<open>A \<open>std::set\<close> is a map whose values say nothing.\<close>

type_synonym 'k std_set = "('k, unit) std_map"

definition set_insert :: "'k::linorder \<Rightarrow> 'k std_set \<Rightarrow> 'k std_set" where
  "set_insert k m = map_insert k () m"

definition set_erase :: "'k::linorder \<Rightarrow> 'k std_set \<Rightarrow> 'k std_set" where
  "set_erase k m = map_erase k m"

lemma set_keys_set_insert [simp]: "set (map_keys (set_insert k m)) = insert k (set (map_keys m))"
  by (simp add: set_insert_def)

lemma map_ok_set_insert [simp]: "map_ok m \<Longrightarrow> map_ok (set_insert k m)"
  by (simp add: set_insert_def)

subsection \<open>The interface\<close>

locale ordered_map =
  fixes find :: "'k::linorder \<Rightarrow> 'm \<Rightarrow> 'v option"
    and ins :: "'k \<Rightarrow> 'v \<Rightarrow> 'm \<Rightarrow> 'm"
    and erase :: "'k \<Rightarrow> 'm \<Rightarrow> 'm"
    and upd :: "'k \<Rightarrow> ('v \<Rightarrow> 'v) \<Rightarrow> 'm \<Rightarrow> 'm"
    and ok :: "'m \<Rightarrow> bool"
  assumes ok_ins: "ok m \<Longrightarrow> ok (ins k v m)"
    and ok_erase: "ok m \<Longrightarrow> ok (erase k m)"
    and ok_upd: "ok m \<Longrightarrow> ok (upd k f m)"
    and find_ins: "ok m \<Longrightarrow> find k' (ins k v m) =
      (if k' = k \<and> find k m = None then Some v else find k' m)"
    and find_erase: "ok m \<Longrightarrow> find k' (erase k m) = (if k' = k then None else find k' m)"
    and find_upd: "ok m \<Longrightarrow> find k' (upd k f m) =
      (if k' = k then map_option f (find k m) else find k' m)"
begin

lemma find_ins_self: "ok m \<Longrightarrow> find k m = None \<Longrightarrow> find k (ins k v m) = Some v"
  by (simp add: find_ins)

lemma first_insert_wins: "ok m \<Longrightarrow> find k (ins k w (ins k v m)) = find k (ins k v m)"
  by (simp add: find_ins ok_ins)

lemma erase_then_fresh: "ok m \<Longrightarrow> find k (ins k v (erase k m)) = Some v"
  by (simp add: find_ins find_erase ok_erase)

lemma find_or_create:
  "ok m \<Longrightarrow> find k' (upd k f (if find k m = None then ins k v m else m)) =
     (if k' = k then Some (f (case find k m of None \<Rightarrow> v | Some u \<Rightarrow> u)) else find k' m)"
  by (auto simp: find_upd find_ins ok_ins split: option.splits)

lemma ok_insert_all: "ok m \<Longrightarrow> ok (fold (\<lambda>x. ins (key x) (val x)) xs m)"
  by (induction xs arbitrary: m) (simp_all add: ok_ins)

lemma find_insert_other:
  "ok m \<Longrightarrow> k \<notin> key ` set xs \<Longrightarrow> find k (fold (\<lambda>x. ins (key x) (val x)) xs m) = find k m"
  by (induction xs arbitrary: m) (auto simp: ok_ins find_ins)

lemma find_insert_present:
  "ok m \<Longrightarrow> find k m = Some v \<Longrightarrow> find k (fold (\<lambda>x. ins (key x) (val x)) xs m) = Some v"
proof (induction xs arbitrary: m)
  case (Cons a xs)
  have "find k (ins (key a) (val a) m) = Some v" using Cons.prems by (auto simp: find_ins)
  from Cons.IH [OF ok_ins [OF Cons.prems(1)] this] show ?case by simp
qed simp

lemma find_insert_all:
  "ok m \<Longrightarrow> distinct (map key xs) \<Longrightarrow> x \<in> set xs \<Longrightarrow> find (key x) m = None \<Longrightarrow>
   find (key x) (fold (\<lambda>x. ins (key x) (val x)) xs m) = Some (val x)"
proof (induction xs arbitrary: m)
  case (Cons y ys)
  show ?case
  proof (cases "x = y")
    case True
    with Cons.prems show ?thesis by (simp add: find_insert_present ok_ins find_ins_self)
  next
    case False
    with Cons.prems have "x \<in> set ys" by simp
    with Cons.prems have "key x \<noteq> key y" by (metis distinct.simps(2) imageI list.set_map list.simps(9))
    with \<open>x \<in> set ys\<close> Cons show ?thesis by (simp add: ok_ins find_ins)
  qed
qed simp

end

interpretation assoc: ordered_map map_find map_insert map_erase map_modify map_ok
  by unfold_locales (simp_all add: map_find_insert map_find_erase map_find_modify)

end
