(* ===== verification/Doubles.thy ===== *)
theory Doubles
  imports Complex_Main Prelude
begin

section \<open>The double arithmetic of the bandwidth limiter\<close>

text \<open>
  \<open>bwstop::recalc\<close> computes budgets in \<open>double\<close>: two divisions and products of converted
  \<open>uint32_t\<close> values.  Its operands are never negative and far from the overflow and
  underflow thresholds, so a \<open>double\<close> here is not-a-number, an infinity or a
  non-negative rational, and every operation rounds its exact result to 53 significant
  bits, to nearest and ties to even (IEEE 754, each operation rounded once as with
  \<open>FLT_EVAL_METHOD = 0\<close>).
\<close>

datatype double = NaN | Inf | Fin rat

text \<open>
  The exponent of the rounding: \<open>up_shift p q\<close> is the least \<open>s\<close> with \<open>q \<le> p * 2^s\<close>,
  \<open>down_shift p q\<close> the least \<open>t\<close> with \<open>p < q * 2^t\<close>.
\<close>

function up_shift :: "nat \<Rightarrow> nat \<Rightarrow> nat" where
  "up_shift p q = (if p = 0 \<or> q \<le> p then 0 else Suc (up_shift (2 * p) q))"
  by pat_completeness auto
termination
  by (relation "measure (\<lambda>(p, q). q - p)") auto

function down_shift :: "nat \<Rightarrow> nat \<Rightarrow> nat" where
  "down_shift p q = (if q = 0 \<or> p < q then 0 else Suc (down_shift p (2 * q)))"
  by pat_completeness auto
termination
  by (relation "measure (\<lambda>(p, q). Suc p - q)") auto

declare up_shift.simps [simp del] down_shift.simps [simp del]

definition nearest_even :: "nat \<Rightarrow> nat \<Rightarrow> nat" where
  "nearest_even n d = (let q = n div d; r = n mod d in
     if 2 * r < d \<or> (2 * r = d \<and> even q) then q else q + 1)"

definition round53 :: "nat \<Rightarrow> nat \<Rightarrow> rat" where
  "round53 p q = (let s = up_shift p (q * 2 ^ 52); t = down_shift p (q * 2 ^ 53) in
     of_nat (nearest_even (p * 2 ^ s) (q * 2 ^ t)) * 2 ^ t / 2 ^ s)"

definition rnd :: "rat \<Rightarrow> rat" where
  "rnd x = (case quotient_of x of (p, q) \<Rightarrow> round53 (nat p) (nat q))"

definition of_u32 :: "u32 \<Rightarrow> double" where
  "of_u32 w = Fin (of_nat (unat w))"

fun double_add :: "double \<Rightarrow> double \<Rightarrow> double" where
  "double_add (Fin a) (Fin b) = Fin (rnd (a + b))"
| "double_add NaN _ = NaN"
| "double_add _ NaN = NaN"
| "double_add _ _ = Inf"

fun double_mul :: "double \<Rightarrow> double \<Rightarrow> double" where
  "double_mul (Fin a) (Fin b) = Fin (rnd (a * b))"
| "double_mul NaN _ = NaN"
| "double_mul _ NaN = NaN"
| "double_mul Inf (Fin b) = (if b = 0 then NaN else Inf)"
| "double_mul (Fin a) Inf = (if a = 0 then NaN else Inf)"
| "double_mul Inf Inf = Inf"

fun double_div :: "double \<Rightarrow> double \<Rightarrow> double" where
  "double_div (Fin a) (Fin b) = (if b \<noteq> 0 then Fin (rnd (a / b)) else if a = 0 then NaN else Inf)"
| "double_div NaN _ = NaN"
| "double_div _ NaN = NaN"
| "double_div Inf (Fin b) = Inf"
| "double_div (Fin a) Inf = Fin 0"
| "double_div Inf Inf = NaN"

text \<open>
  The conversion to \<open>uint32_t\<close> truncates.  C++ leaves it undefined when the truncated
  value does not fit and for NaN and infinities, so there the result is what the platform
  gives, the parameter \<open>ub\<close>.
\<close>

fun to_u32 :: "(double \<Rightarrow> u32) \<Rightarrow> double \<Rightarrow> u32" where
  "to_u32 ub (Fin x) = (if 0 \<le> x \<and> x < 2 ^ 32 then word_of_int \<lfloor>x\<rfloor> else ub (Fin x))"
| "to_u32 ub d = ub d"

text \<open>The literals \<open>0.1\<close> (as a double) and \<open>0.5\<close>.\<close>

definition tenth :: rat where "tenth = 3602879701896397 / 2 ^ 55"
definition half :: rat where "half = 1 / 2"

subsection \<open>The rounding error\<close>

lemma up_shift_le: "0 < p \<Longrightarrow> q \<le> p * 2 ^ up_shift p q"
proof (induction p q rule: up_shift.induct)
  case (1 p q)
  then show ?case
    by (subst up_shift.simps) (auto simp: mult.assoc mult.left_commute)
qed

lemma down_shift_less: "0 < q \<Longrightarrow> p < q * 2 ^ down_shift p q"
proof (induction p q rule: down_shift.induct)
  case (1 p q)
  then show ?case
    by (subst down_shift.simps) (auto simp: mult.assoc mult.left_commute)
qed

lemma up_shift_zero: "q \<le> p \<Longrightarrow> up_shift p q = 0"
  by (subst up_shift.simps) simp

lemma down_shift_zero: "p < q \<Longrightarrow> down_shift p q = 0"
  by (subst down_shift.simps) simp

lemma nearest_even_le:
  assumes "0 < d" and "n \<le> k * d" shows "nearest_even n d \<le> k"
proof (cases "n div d < k")
  case True
  then show ?thesis by (simp add: nearest_even_def Let_def)
next
  case False
  have "n div d \<le> k" using assms div_le_mono [of n "k * d" d] by simp
  with False have q: "n div d = k" by simp
  then have "n mod d = 0"
    using assms div_mult_mod_eq [of n d] by simp
  with q \<open>0 < d\<close> show ?thesis by (simp add: nearest_even_def Let_def)
qed

lemma nearest_even_error:
  assumes "0 < d"
  shows "\<bar>rat_of_nat (nearest_even n d) - rat_of_nat n / rat_of_nat d\<bar> \<le> 1 / 2"
proof -
  define q r where "q = n div d" and "r = n mod d"
  have n: "rat_of_nat n = rat_of_nat q * rat_of_nat d + rat_of_nat r"
    unfolding q_def r_def by (simp only: of_nat_mult [symmetric] of_nat_add [symmetric] div_mult_mod_eq)
  have "rat_of_nat r < rat_of_nat d"
    using assms by (simp add: r_def)
  have eq: "rat_of_nat n / rat_of_nat d = rat_of_nat q + rat_of_nat r / rat_of_nat d"
    using assms by (simp add: n add_divide_distrib)
  consider "2 * r < d" | "2 * r = d" | "d < 2 * r" by linarith
  then show ?thesis
  proof cases
    case 1
    then have "2 * rat_of_nat r < rat_of_nat d" by (metis of_nat_less_iff of_nat_mult of_nat_numeral)
    with 1 assms show ?thesis
      by (simp add: nearest_even_def Let_def eq flip: q_def r_def)
  next
    case 2
    then have "2 * rat_of_nat r = rat_of_nat d" by (metis of_nat_mult of_nat_numeral)
    then have "rat_of_nat r / rat_of_nat d = 1 / 2" using assms by (simp add: field_simps)
    with 2 show ?thesis
      by (cases "even q") (simp_all add: nearest_even_def Let_def eq flip: q_def r_def)
  next
    case 3
    then have "rat_of_nat d < 2 * rat_of_nat r" by (metis of_nat_less_iff of_nat_mult of_nat_numeral)
    with 3 assms \<open>rat_of_nat r < rat_of_nat d\<close> have "1 / 2 < rat_of_nat r / rat_of_nat d"
      and "rat_of_nat r / rat_of_nat d < 1"
      by (simp_all add: field_simps)
    with 3 show ?thesis
      by (simp add: nearest_even_def Let_def eq flip: q_def r_def)
  qed
qed

lemma down_shift_least: "down_shift p q = Suc t \<Longrightarrow> q * 2 ^ t \<le> p"
proof (induction p q arbitrary: t rule: down_shift.induct)
  case (1 p q)
  then have *: "q \<noteq> 0" "q \<le> p" "t = down_shift p (2 * q)"
    by (auto simp: down_shift.simps [of p q] split: if_splits)
  show ?case
  proof (cases t)
    case 0
    with * show ?thesis by simp
  next
    case (Suc u)
    with * have "2 * q * 2 ^ u \<le> p" by (intro "1.IH") auto
    with Suc show ?thesis by (simp add: mult.assoc mult.left_commute)
  qed
qed

lemma round53_scale:
  assumes "0 < p" and "0 < q"
  shows "q * 2 ^ down_shift p (q * 2 ^ 53) * 2 ^ 52 \<le> p * 2 ^ up_shift p (q * 2 ^ 52)"
proof (cases "down_shift p (q * 2 ^ 53)")
  case 0
  with up_shift_le [OF assms(1), of "q * 2 ^ 52"] show ?thesis by simp
next
  case (Suc t)
  then have "q * 2 ^ 53 * 2 ^ t \<le> p" by (rule down_shift_least)
  also have "p \<le> p * 2 ^ up_shift p (q * 2 ^ 52)" by simp
  finally show ?thesis using Suc by (simp add: mult.assoc mult.left_commute)
qed

lemma round53_error:
  assumes "0 < q"
  shows "\<bar>round53 p q - of_nat p / of_nat q\<bar> \<le> of_nat p / of_nat q / 2 ^ 53"
proof (cases "p = 0")
  case True
  then show ?thesis
    using assms by (simp add: round53_def Let_def nearest_even_def)
next
  case False
  define s t where "s = up_shift p (q * 2 ^ 52)" and "t = down_shift p (q * 2 ^ 53)"
  define m where "m = nearest_even (p * 2 ^ s) (q * 2 ^ t)"
  define x where "x = rat_of_nat p / rat_of_nat q"
  define u :: rat where "u = 2 ^ t / 2 ^ s"
  have u: "0 < u" by (simp add: u_def)
  have r: "round53 p q = rat_of_nat m * u"
    unfolding round53_def Let_def u_def m_def s_def t_def by simp
  have xu: "rat_of_nat (p * 2 ^ s) / rat_of_nat (q * 2 ^ t) = x / u"
    by (simp add: x_def u_def field_simps)
  have "\<bar>rat_of_nat m - x / u\<bar> \<le> 1 / 2"
    using nearest_even_error [of "q * 2 ^ t" "p * 2 ^ s"] assms by (simp only: m_def xu) simp
  then have "\<bar>rat_of_nat m - x / u\<bar> * u \<le> 1 / 2 * u"
    using u by (intro mult_right_mono) auto
  moreover have "\<bar>rat_of_nat m - x / u\<bar> * u = \<bar>round53 p q - x\<bar>"
  proof -
    have "(rat_of_nat m - x / u) * u = round53 p q - x"
      using u by (simp add: r left_diff_distrib)
    then show ?thesis using u by (metis abs_mult abs_of_pos)
  qed
  moreover have "u * 2 ^ 52 \<le> x"
  proof -
    have "rat_of_nat (q * 2 ^ t * 2 ^ 52) \<le> rat_of_nat (p * 2 ^ s)"
      using round53_scale [of p q] False assms unfolding s_def t_def of_nat_le_iff by blast
    then show ?thesis using assms by (simp add: u_def x_def field_simps)
  qed
  ultimately show ?thesis by (simp add: x_def field_simps)
qed

lemma round53_le:
  assumes "0 < q" and "n < 2 ^ 53" and "p \<le> n * q"
  shows "round53 p q \<le> of_nat n"
proof -
  define s where "s = up_shift p (q * 2 ^ 52)"
  have "n * q < q * 2 ^ 53" using assms(1,2) by simp
  with assms(3) have "p < q * 2 ^ 53" by (rule le_less_trans)
  then have r: "round53 p q = of_nat (nearest_even (p * 2 ^ s) q) / 2 ^ s"
    by (simp add: round53_def Let_def down_shift_zero s_def)
  have "nearest_even (p * 2 ^ s) q \<le> n * 2 ^ s"
    by (rule nearest_even_le) (use assms in \<open>simp_all add: mult.assoc mult.left_commute\<close>)
  then have "rat_of_nat (nearest_even (p * 2 ^ s) q) \<le> rat_of_nat (n * 2 ^ s)"
    by (rule of_nat_mono)
  then show ?thesis by (simp add: r field_simps)
qed

lemma rnd_cases:
  assumes "0 \<le> x"
  obtains p q where "rnd x = round53 p q" and "0 < q" and "x = of_nat p / of_nat q"
proof -
  obtain a b where ab: "quotient_of x = (a, b)" by (cases "quotient_of x")
  have b: "0 < b" using quotient_of_denom_pos [OF ab] .
  have x: "x = of_int a / of_int b" using quotient_of_div [OF ab] .
  with assms b have a: "0 \<le> a" by (simp add: zero_le_divide_iff)
  show thesis
    by (rule that [of "nat a" "nat b"]) (use a b ab x in \<open>simp_all add: rnd_def\<close>)
qed

lemma rnd_error: "0 \<le> x \<Longrightarrow> \<bar>rnd x - x\<bar> \<le> x / 2 ^ 53"
  by (erule rnd_cases) (simp only: round53_error)

lemma rnd_le_of_nat:
  assumes "0 \<le> x" and "x \<le> of_nat n" and "n < 2 ^ 53"
  shows "rnd x \<le> of_nat n"
proof -
  obtain p q where *: "rnd x = round53 p q" "0 < q" "x = of_nat p / of_nat q"
    using assms(1) by (rule rnd_cases)
  with assms(2) have "rat_of_nat p \<le> rat_of_nat (n * q)" by (simp add: field_simps)
  then have "p \<le> n * q" by (simp only: of_nat_le_iff)
  with * assms(3) show ?thesis by (simp add: round53_le)
qed

lemma rnd_nonneg: "0 \<le> x \<Longrightarrow> 0 \<le> rnd x"
  by (erule rnd_cases) (simp add: round53_def Let_def)

lemma rnd_upper: "0 \<le> x \<Longrightarrow> rnd x \<le> x * (1 + 1 / 2 ^ 53)"
proof -
  assume "0 \<le> x"
  then have "rnd x \<le> x + x / 2 ^ 53" using rnd_error [of x] by linarith
  then show ?thesis by (simp only: distrib_left mult_1_right times_divide_eq_right)
qed

lemma rnd_0 [simp]: "rnd 0 = 0"
  using rnd_error [of 0] by simp

end
