(* ===== verification/Bwstop.thy ===== *)
theory Bwstop
  imports Externals Std_Map Doubles
begin

section \<open>The bandwidth limiter (bwstop.h, bwstop.cpp)\<close>

text \<open>
  \<open>bwstop\<close> keeps, for every connection, the sizes it sent and when, adds up what was sent
  in the last \<open>valid_period\<close> second, and divides what is left of the limit into budgets,
  one per connection.  The dispatchers ask it what a connection may send next.
\<close>

subsection \<open>State\<close>

definition valid_period :: int where "valid_period = 1"

record bw_struct_t =
  bw_t :: timeb
  bw_size :: u32

text \<open>
  \<open>records\<close> is a pointer to a vector that the entry alone owns.  A new entry's \<open>guess\<close> is
  left uninitialised by \<open>find\<close>: it holds whatever was in memory, the field \<open>junk\<close>.
\<close>

record bw_state =
  records :: "bw_struct_t list"
  active :: bool
  cur_bw :: u32
  guess :: u32

record bwstop =
  states :: "(addr, bw_state) std_map"
  max_bw :: u32
  total_bw :: u32
  emulator :: bool
  vtime :: timeb
  junk :: u32

subsection \<open>Operations\<close>

definition new_bwstop :: "u32 \<Rightarrow> timeb \<Rightarrow> u32 \<Rightarrow> bwstop" where
  "new_bwstop j t limit = \<lparr>states = [], max_bw = limit, total_bw = j, emulator = False,
     vtime = t, junk = j\<rparr>"

definition set_limit :: "u32 \<Rightarrow> bwstop \<Rightarrow> bwstop" where
  "set_limit nbytes b = b\<lparr>max_bw := nbytes\<rparr>"

definition is_enable :: "bwstop \<Rightarrow> bool" where
  "is_enable b \<longleftrightarrow> max_bw b \<noteq> 0"

definition excess :: "bwstop \<Rightarrow> bool" where
  "excess b = (if max_bw b \<noteq> 0 then max_bw b < total_bw b else False)"

definition bw_find :: "addr \<Rightarrow> bwstop \<Rightarrow> bwstop" where
  "bw_find conn b = (if map_find conn (states b) = None
     then b\<lparr>states := map_insert conn
       \<lparr>records = [], active = True, cur_bw = 0, guess = junk b\<rparr> (states b)\<rparr>
     else b)"

definition bw_on :: "addr \<Rightarrow> bwstop \<Rightarrow> bwstop" where
  "bw_on conn b = (if max_bw b = 0 then b
     else b\<lparr>states := map_modify conn (active_update (\<lambda>_. True)) (states b)\<rparr>)"

definition bw_off :: "addr \<Rightarrow> bwstop \<Rightarrow> bwstop" where
  "bw_off conn b = (if max_bw b = 0 then b
     else b\<lparr>states := map_modify conn (active_update (\<lambda>_. False)) (states b)\<rparr>)"

definition bw_insert :: "addr \<Rightarrow> u32 \<Rightarrow> timeb \<Rightarrow> bwstop \<Rightarrow> bwstop" where
  "bw_insert conn nbytes now b = (if max_bw b = 0 then b else
     let b' = bw_find conn b
     in b'\<lparr>states := map_modify conn
          (records_update (\<lambda>rs. rs @ [\<lparr>bw_t = now, bw_size = nbytes\<rparr>])) (states b')\<rparr>)"

definition bw_erase :: "addr \<Rightarrow> bwstop \<Rightarrow> bwstop" where
  "bw_erase conn b = b\<lparr>states := map_erase conn (states b)\<rparr>"

definition bw_guess :: "addr \<Rightarrow> bwstop \<Rightarrow> u32" where
  "bw_guess conn b = (case map_find conn (states b) of Some st \<Rightarrow> guess st | None \<Rightarrow> 0)"

text \<open>\<open>can\<close> answers whether the connection is active and, if so, writes its budget.\<close>

definition bw_can :: "addr \<Rightarrow> bwstop \<Rightarrow> u32 option" where
  "bw_can conn b = (case map_find conn (states b) of
     Some st \<Rightarrow> if active st then Some (guess st) else None | None \<Rightarrow> None)"

subsection \<open>recalc\<close>

text \<open>A record is fresh unless it is older than \<open>since\<close>.\<close>

definition fresh :: "timeb \<Rightarrow> bw_struct_t \<Rightarrow> bool" where
  "fresh since r \<longleftrightarrow> \<not> (tb_time (bw_t r) < tb_time since
     \<or> (tb_time (bw_t r) = tb_time since \<and> tb_millitm (bw_t r) < tb_millitm since))"

text \<open>
  The loop over one connection's records: \<open>(tot, cur, zed)\<close> are the sum over all
  connections so far, the sum of this one, and the position of the last stale record.
\<close>

fun scan_records :: "timeb \<Rightarrow> nat \<Rightarrow> bw_struct_t list \<Rightarrow> u32 \<times> u32 \<times> nat option \<Rightarrow> u32 \<times> u32 \<times> nat option"
  where
  "scan_records since i [] acc = acc"
| "scan_records since i (r # rs) (tot, cur, zed) =
     (if fresh since r then scan_records since (Suc i) rs (tot + bw_size r, cur + bw_size r, zed)
      else scan_records since (Suc i) rs (tot, cur, Some i))"

text \<open>
  The loop over the connections: sums, pruning (\<open>erase(begin,zed)\<close> keeps the record at
  \<open>zed\<close>), and the search for the least bandwidth among the active connections, with how
  many have it.
\<close>

fun scan_states :: "timeb \<Rightarrow> (addr, bw_state) std_map \<Rightarrow> u32 \<times> u32 \<times> u32 \<Rightarrow>
    (addr, bw_state) std_map \<times> u32 \<times> u32 \<times> u32" where
  "scan_states since [] acc = ([], acc)"
| "scan_states since ((k, st) # m) (tot, min_bw, min_count) =
     (let (tot', cur, zed) = scan_records since 0 (records st) (tot, 0, None);
          st' = st\<lparr>guess := 0, cur_bw := cur,
                   records := (case zed of Some z \<Rightarrow> drop z (records st) | None \<Rightarrow> records st)\<rparr>;
          mb = (if active st \<and> cur < min_bw then cur else min_bw);
          mc = (if \<not> active st then min_count
                else if cur < min_bw then 1
                else if min_bw = cur then min_count + 1
                else min_count);
          (m', acc) = scan_states since m (tot', mb, mc)
      in ((k, st') # m', acc))"

text \<open>\<open>(int)(0.1 * (max_bw-cur_bw) + 0.5)\<close>\<close>

definition make_bw :: "(double \<Rightarrow> u32) \<Rightarrow> u32 \<Rightarrow> u32" where
  "make_bw ub left = to_u32 ub (double_add (double_mul (Fin tenth) (of_u32 left)) (Fin half))"

text \<open>\<open>uint32_t (((double)sit->second.cur_bw/(double)cur_bw)*to_excess)\<close>\<close>

definition share :: "(double \<Rightarrow> u32) \<Rightarrow> u32 \<Rightarrow> u32 \<Rightarrow> u32 \<Rightarrow> u32" where
  "share ub cur tot to_excess =
     to_u32 ub (double_mul (double_div (of_u32 cur) (of_u32 tot)) (of_u32 to_excess))"

definition set_guess :: "(double \<Rightarrow> u32) \<Rightarrow> u32 \<Rightarrow> u32 \<Rightarrow> u32 \<Rightarrow> u32 \<Rightarrow> u32 \<Rightarrow> bw_state \<Rightarrow> bw_state" where
  "set_guess ub tot to_excess min_bw makebw min_count st =
     (if active st then
        let g = share ub (cur_bw st) tot to_excess
        in st\<lparr>guess := (if min_bw = cur_bw st then g + makebw div min_count else g)\<rparr>
      else st)"

definition recalc :: "(double \<Rightarrow> u32) \<Rightarrow> timeb \<Rightarrow> bwstop \<Rightarrow> bool \<times> bwstop" where
  "recalc ub now b = (if max_bw b = 0 then (False, b) else
     let since = now\<lparr>tb_time := tb_time now - valid_period\<rparr>;
         (m, tot, min_bw, min_count) = scan_states since (states b) (0, max_bw b, 0);
         makebw = make_bw ub (max_bw b - tot);
         to_excess = (if 0 < min_count then max_bw b - tot - makebw else max_bw b - tot);
         m' = map (map_prod id (set_guess ub tot to_excess min_bw makebw min_count)) m
     in (max_bw b < tot, b\<lparr>states := m', total_bw := tot\<rparr>))"

subsection \<open>The virtual clock of the emulator\<close>

definition get_time :: "timeb \<Rightarrow> bwstop \<Rightarrow> timeb" where
  "get_time now b = (if emulator b then vtime b else now)"

text \<open>\<open>inline uint32_t mod(uint32_t value,uint32_t factor) { return value - (value%factor)*factor; }\<close>\<close>

definition mod_u32 :: "u32 \<Rightarrow> u32 \<Rightarrow> u32" where
  "mod_u32 value factor = value - (value mod factor) * factor"

definition turn :: "u32 \<Rightarrow> bwstop \<Rightarrow> bwstop" where
  "turn msecs b = (let
     t0 = tb_time (vtime b) + uint (msecs mod 1000);
     ms = mod_u32 msecs 1000;
     sum = ucast (tb_millitm (vtime b)) + ms;
     t1 = (if 1000 < sum then t0 + 1 else t0)
   in b\<lparr>vtime := \<lparr>tb_time = t1, tb_millitm = ucast (mod_u32 sum 1000)\<rparr>\<rparr>)"

end
