(* ===== verification/Bwstop_Props.thy ===== *)
theory Bwstop_Props
  imports Bwstop "HOL-Library.Product_Lexorder"
begin

section \<open>Correctness of the bandwidth limiter\<close>

text \<open>
  The loops of \<open>recalc\<close> are first given closed forms (\<open>scan_records_eq\<close>,
  \<open>scan_states_eq\<close>); then the budgets are shown never to exceed what is left of the limit,
  rounding errors of the double arithmetic included.
\<close>

subsection \<open>The records of one connection\<close>

definition time_key :: "timeb \<Rightarrow> int \<times> u16" where
  "time_key t = (tb_time t, tb_millitm t)"

lemma fresh_iff: "fresh since r \<longleftrightarrow> time_key since \<le> time_key (bw_t r)"
  by (auto simp: fresh_def time_key_def less_eq_prod_def not_less)

text \<open>The bytes of the fresh records, as the 32-bit sum of the code and as a number.\<close>

definition window :: "timeb \<Rightarrow> bw_struct_t list \<Rightarrow> u32" where
  "window since rs = (\<Sum>r\<leftarrow>filter (fresh since) rs. bw_size r)"

definition window_bytes :: "timeb \<Rightarrow> bw_struct_t list \<Rightarrow> nat" where
  "window_bytes since rs = (\<Sum>r\<leftarrow>filter (fresh since) rs. unat (bw_size r))"

definition total_bytes_in :: "timeb \<Rightarrow> bwstop \<Rightarrow> nat" where
  "total_bytes_in since b = (\<Sum>st\<leftarrow>map snd (states b). window_bytes since (records st))"

fun last_stale :: "timeb \<Rightarrow> bw_struct_t list \<Rightarrow> nat option" where
  "last_stale since [] = None"
| "last_stale since (r # rs) = (case last_stale since rs of
     Some i \<Rightarrow> Some (Suc i) | None \<Rightarrow> if fresh since r then None else Some 0)"

lemma sum_list_of_nat: "(\<Sum>x\<leftarrow>xs. of_nat (f x)) = (of_nat (\<Sum>x\<leftarrow>xs. f x) :: 'a::semiring_1)"
  by (induction xs) simp_all

lemma window_of_nat: "window since rs = of_nat (window_bytes since rs)"
  unfolding window_def window_bytes_def sum_list_of_nat [symmetric] by simp

lemma scan_records_eq:
  "scan_records since i rs (tot, cur, zed) = (tot + window since rs, cur + window since rs,
     case last_stale since rs of Some z \<Rightarrow> Some (i + z) | None \<Rightarrow> zed)"
  by (induction rs arbitrary: i tot cur zed)
    (auto simp: window_def add.assoc split: option.splits)

lemma last_stale_Some:
  "last_stale since rs = Some z \<Longrightarrow> z < length rs \<and> \<not> fresh since (rs ! z) \<and>
     filter (fresh since) (drop (Suc z) rs) = drop (Suc z) rs"
proof (induction rs arbitrary: z)
  case (Cons r rs)
  show ?case
  proof (cases "last_stale since rs")
    case None
    then have "filter (fresh since) rs = rs"
      by (induction rs) (auto split: option.splits if_splits)
    with None Cons.prems show ?thesis by (auto split: if_splits)
  next
    case (Some i)
    with Cons show ?thesis by auto
  qed
qed simp

lemma last_stale_None: "last_stale since rs = None \<longleftrightarrow> (\<forall>r \<in> set rs. fresh since r)"
  by (induction rs) (auto split: option.splits)

definition in_time_order :: "bw_struct_t list \<Rightarrow> bool" where
  "in_time_order rs \<longleftrightarrow> sorted (map (time_key \<circ> bw_t) rs)"

definition prune :: "timeb \<Rightarrow> bw_struct_t list \<Rightarrow> bw_struct_t list" where
  "prune since rs = (case last_stale since rs of Some z \<Rightarrow> drop z rs | None \<Rightarrow> rs)"

lemma stale_before:
  assumes "in_time_order rs" and "z < length rs" and "\<not> fresh since (rs ! z)"
  shows "filter (fresh since) (take z rs) = []"
proof -
  have "\<not> fresh since (rs ! i)" if "i < z" for i
  proof -
    have "time_key (bw_t (rs ! i)) \<le> time_key (bw_t (rs ! z))"
      using assms(1,2) that sorted_nth_mono [of "map (time_key \<circ> bw_t) rs" i z]
      by (simp add: in_time_order_def)
    with assms(3) show ?thesis by (auto simp: fresh_iff)
  qed
  then show ?thesis by (auto simp: filter_empty_conv in_set_conv_nth)
qed

lemma prune_fresh:
  assumes "in_time_order rs"
  shows "filter (fresh since) (prune since rs) = filter (fresh since) rs"
proof (cases "last_stale since rs")
  case (Some z)
  with last_stale_Some [OF Some] assms have "filter (fresh since) (take z rs) = []"
    by (intro stale_before) auto
  then have "filter (fresh since) rs = filter (fresh since) (drop z rs)"
    by (metis append_Nil append_take_drop_id filter_append)
  with Some show ?thesis by (simp add: prune_def)
qed (simp add: prune_def)

lemma prune_length: "length (prune since rs) \<le> Suc (length (filter (fresh since) (prune since rs)))"
proof (cases "last_stale since rs")
  case (Some z)
  note z = last_stale_Some [OF Some]
  then have "drop z rs = rs ! z # drop (Suc z) rs" by (simp add: Cons_nth_drop_Suc)
  with z Some show ?thesis by (simp add: prune_def)
next
  case None
  then have "filter (fresh since) rs = rs"
    by (simp add: last_stale_None filter_id_conv)
  with None show ?thesis by (simp add: prune_def)
qed

lemma prune_in_time_order: "in_time_order rs \<Longrightarrow> in_time_order (prune since rs)"
  by (auto simp: prune_def in_time_order_def drop_map [symmetric] split: option.splits)

subsection \<open>The scan over the connections\<close>

definition refresh :: "timeb \<Rightarrow> bw_state \<Rightarrow> bw_state" where
  "refresh since st = st\<lparr>guess := 0, cur_bw := window since (records st),
     records := prune since (records st)\<rparr>"

lemma refresh_simps [simp]:
  "guess (refresh since st) = 0" "active (refresh since st) = active st"
  "cur_bw (refresh since st) = window since (records st)"
  "records (refresh since st) = prune since (records st)"
  by (simp_all add: refresh_def)

text \<open>How many active connections have the bandwidth \<open>w\<close>.\<close>

definition count_with :: "u32 \<Rightarrow> bw_state list \<Rightarrow> nat" where
  "count_with w sts = length (filter (\<lambda>st. active st \<and> cur_bw st = w) sts)"

text \<open>The effect of one active or inactive connection on the running minimum and its count.\<close>

definition min_step :: "bw_state \<Rightarrow> u32 \<times> u32 \<Rightarrow> u32 \<times> u32" where
  "min_step st = (\<lambda>(mb, mc).
     (if active st \<and> cur_bw st < mb then cur_bw st else mb,
      if \<not> active st then mc else if cur_bw st < mb then 1
      else if mb = cur_bw st then mc + 1 else mc))"

lemma scan_states_eq:
  "scan_states since m (tot, mb, mc) =
     (map (map_prod id (refresh since)) m,
      tot + (\<Sum>st\<leftarrow>map snd m. window since (records st)),
      fold (min_step \<circ> refresh since) (map snd m) (mb, mc))"
proof (induction m arbitrary: tot mb mc)
  case (Cons e m)
  obtain k st where e: "e = (k, st)" by (cases e)
  have st: "st\<lparr>guess := 0, cur_bw := window since (records st),
      records := (case last_stale since (records st) of None \<Rightarrow> records st
        | Some z \<Rightarrow> drop z (records st))\<rparr> = refresh since st"
    by (simp add: refresh_def prune_def)
  have zed: "(case case last_stale since rs of None \<Rightarrow> None | Some z \<Rightarrow> Some (0 + z) of
      None \<Rightarrow> rs | Some z \<Rightarrow> drop z rs) =
      (case last_stale since rs of None \<Rightarrow> rs | Some z \<Rightarrow> drop z rs)" for rs
    by (simp split: option.splits)
  show ?case
    by (simp add: e scan_records_eq Cons.IH min_step_def zed st add.assoc)
qed simp

lemma min_step_fold:
  assumes "fold min_step sts (mb, mc) = (mb', mc')"
  shows "mb' \<le> mb \<and> mc' = (if mb' = mb then mc else 0) + of_nat (count_with mb' sts)"
  using assms
proof (induction sts arbitrary: mb mc)
  case Nil
  then show ?case by (simp add: count_with_def)
next
  case (Cons st sts)
  obtain mb1 mc1 where s: "min_step st (mb, mc) = (mb1, mc1)" by (cases "min_step st (mb, mc)")
  with Cons.prems have "fold min_step sts (mb1, mc1) = (mb', mc')" by simp
  note IH = Cons.IH [OF this]
  from s have "mb1 \<le> mb" by (auto simp: min_step_def split: if_splits)
  moreover have "(if mb' = mb1 then mc1 else 0) =
      (if mb' = mb then mc else 0) + (if active st \<and> cur_bw st = mb' then 1 else 0)"
    using s IH by (auto simp: min_step_def split: if_splits)
  ultimately show ?case
    using IH by (auto simp: count_with_def add.assoc)
qed

lemma min_step_fold_le:
  "fold min_step sts (mb, mc) = (mb', mc') \<Longrightarrow> st \<in> set sts \<Longrightarrow> active st \<Longrightarrow> mb' \<le> cur_bw st"
proof (induction sts arbitrary: mb mc)
  case (Cons s sts)
  obtain mb1 mc1 where s: "min_step s (mb, mc) = (mb1, mc1)" by (cases "min_step s (mb, mc)")
  with Cons.prems have f: "fold min_step sts (mb1, mc1) = (mb', mc')" by simp
  show ?case
  proof (cases "st \<in> set sts")
    case True
    with Cons.IH [OF f] Cons.prems(3) show ?thesis by simp
  next
    case False
    with Cons.prems have "mb1 \<le> cur_bw st"
      using s by (auto simp: min_step_def split: if_splits)
    with min_step_fold [OF f] show ?thesis by auto
  qed
qed simp

subsection \<open>recalc in closed form\<close>

definition since_of :: "timeb \<Rightarrow> timeb" where
  "since_of now = now\<lparr>tb_time := tb_time now - valid_period\<rparr>"

definition refreshed :: "timeb \<Rightarrow> bwstop \<Rightarrow> bw_state list" where
  "refreshed since b = map (refresh since) (map snd (states b))"

definition window_total :: "timeb \<Rightarrow> bwstop \<Rightarrow> u32" where
  "window_total since b = (\<Sum>st\<leftarrow>map snd (states b). window since (records st))"

lemma recalc_eq:
  assumes "max_bw b \<noteq> 0" and "since = since_of now" and "tot = window_total since b"
    and "fold min_step (refreshed since b) (max_bw b, 0) = (mb, mc)"
    and "mk = make_bw ub (max_bw b - tot)"
    and "te = (if 0 < mc then max_bw b - tot - mk else max_bw b - tot)"
  shows "recalc ub now b = (max_bw b < tot,
    b\<lparr>states := map (map_prod id (set_guess ub tot te mb mk mc \<circ> refresh since)) (states b),
      total_bw := tot\<rparr>)"
proof -
  have "fold (min_step \<circ> refresh since) (map snd (states b)) (max_bw b, 0) = (mb, mc)"
    using assms(4) by (simp only: refreshed_def fold_map)
  then have scan: "scan_states since (states b) (0, max_bw b, 0) =
      (map (map_prod id (refresh since)) (states b), tot, mb, mc)"
    by (simp only: scan_states_eq add_0 window_total_def [symmetric] assms(3))
  show ?thesis
    unfolding recalc_def
    using assms(1,5,6) by (simp add: scan Let_def prod.map_comp o_def id_def flip: since_of_def assms(2))
qed

text \<open>Recalculation keeps every connection, its activity and its key.\<close>

lemma recalc_states_shape:
  assumes "recalc ub now b = (r, b')"
  shows "map_keys (states b') = map_keys (states b)"
    and "map active (map snd (states b')) = map active (map snd (states b))"
    and "max_bw b' = max_bw b"
proof -
  obtain mb mc where f: "fold min_step (refreshed (since_of now) b) (max_bw b, 0) = (mb, mc)"
    by (cases "fold min_step (refreshed (since_of now) b) (max_bw b, 0)")
  have "\<exists>f. (\<forall>st. active (f st) = active st) \<and>
      states b' = map (map_prod id f) (states b) \<and> max_bw b' = max_bw b"
  proof (cases "max_bw b = 0")
    case True
    with assms have "b' = b" by (simp add: recalc_def)
    then show ?thesis by (intro exI [of _ id]) (simp add: prod.map_id0)
  next
    case False
    note eq = recalc_eq [OF False refl refl f refl refl, of ub]
    from eq assms obtain tot te mk where b':
      "b' = b\<lparr>states := map (map_prod id (set_guess ub tot te mb mk mc \<circ> refresh (since_of now)))
        (states b), total_bw := tot\<rparr>"
      by (metis prod.inject)
    have "active ((set_guess ub tot te mb mk mc \<circ> refresh (since_of now)) st) = active st" for st
      by (simp add: set_guess_def Let_def)
    with b' show ?thesis
      by (intro exI [of _ "set_guess ub tot te mb mk mc \<circ> refresh (since_of now)"]) simp
  qed
  then show "map_keys (states b') = map_keys (states b)"
    and "map active (map snd (states b')) = map active (map snd (states b))"
    and "max_bw b' = max_bw b"
    by (auto simp: map_keys_def)
qed

subsection \<open>Bounds on the parts of a budget\<close>

lemma unat_floor:
  assumes "0 \<le> x" and "x < 2 ^ 32"
  shows "rat_of_nat (unat (to_u32 ub (Fin x))) \<le> x"
proof -
  have f: "0 \<le> \<lfloor>x\<rfloor>" "\<lfloor>x\<rfloor> < 2 ^ 32"
    using assms by (simp_all add: floor_less_iff)
  then have "unat (word_of_int \<lfloor>x\<rfloor> :: u32) = nat \<lfloor>x\<rfloor>"
    by (simp add: unat_eq_nat_uint uint_word_of_int_eq take_bit_int_eq_self)
  then have "rat_of_nat (unat (to_u32 ub (Fin x))) = of_int \<lfloor>x\<rfloor>"
    using f assms by simp
  then show ?thesis by simp
qed

lemma unat_u32: "unat (w :: u32) < 2 ^ 32"
  using unsigned_less [of w, where 'a = nat] by simp

lemma rat_u32: "rat_of_nat (unat (w :: u32)) < 2 ^ 32"
proof -
  have "rat_of_nat (unat w) < rat_of_nat (2 ^ 32)" by (simp only: of_nat_less_iff unat_u32)
  then show ?thesis by simp
qed

lemma tenth_bounds: "0 < tenth" "tenth \<le> 2 / 10"
  by (simp_all add: tenth_def)

lemma make_bw_le: "unat (make_bw ub w) \<le> unat w"
  supply of_nat_unat [simp del]
proof -
  define n where "n = rat_of_nat (unat w)"
  have n: "0 \<le> n" "n < 2 ^ 32" using rat_u32 [of w] by (simp_all add: n_def)
  define a where "a = rnd (tenth * n)"
  have "0 \<le> tenth * n" using n tenth_bounds by simp
  then have a: "0 \<le> a" "a \<le> tenth * n * (1 + 1 / 2 ^ 53)"
    unfolding a_def by (rule rnd_nonneg, rule rnd_upper)
  have "tenth * n * (1 + 1 / 2 ^ 53) \<le> 2 / 10 * n * (1 + 1 / 2 ^ 53)"
    using tenth_bounds n by (intro mult_right_mono) auto
  with a have an: "a \<le> 4 / 10 * n" using n by simp
  define z where "z = rnd (a + half)"
  have m: "make_bw ub w = to_u32 ub (Fin z)"
    by (simp add: make_bw_def of_u32_def z_def a_def n_def)
  have z0: "0 \<le> z" unfolding z_def using a by (intro rnd_nonneg) (simp add: half_def)
  show ?thesis
  proof (cases "unat w = 0")
    case True
    then have "a = 0" using a an by (simp add: n_def)
    then have "z \<le> half * (1 + 1 / 2 ^ 53)"
      unfolding z_def using rnd_upper [of half] by (simp add: half_def)
    then have "z < 1" by (simp add: half_def)
    with z0 have "\<lfloor>z\<rfloor> = 0" by (simp add: floor_eq_iff)
    with z0 \<open>z < 1\<close> show ?thesis by (simp add: m)
  next
    case False
    then have "1 \<le> n" by (simp add: n_def)
    then have "a + half \<le> of_nat (unat w)"
      using an by (simp add: half_def n_def)
    then have "z \<le> of_nat (unat w)"
      unfolding z_def using a unat_u32 [of w]
      by (intro rnd_le_of_nat) (simp_all add: half_def)
    moreover have "rat_of_nat (unat (make_bw ub w)) \<le> z"
      unfolding m using z0 \<open>z \<le> of_nat (unat w)\<close> n by (intro unat_floor) (auto simp: n_def)
    ultimately show ?thesis by (meson of_nat_le_iff order_trans)
  qed
qed

lemma share_le:
  assumes "unat cur \<le> unat tot" and "tot \<noteq> 0"
  shows "rat_of_nat (unat (share ub cur tot te))
      \<le> of_nat (unat cur) * of_nat (unat te) / of_nat (unat tot) + 1 / 2 ^ 19"
    and "unat (share ub cur tot te) \<le> unat te"
  supply of_nat_unat [simp del]
proof -
  define c C T where "c = rat_of_nat (unat cur)" and "C = rat_of_nat (unat tot)"
    and "T = rat_of_nat (unat te)"
  define e :: rat where "e = 1 / 2 ^ 53"
  have pos: "0 \<le> c" "0 < C" "c \<le> C" "0 \<le> T" "T < 2 ^ 32"
    using assms rat_u32 [of te] by (simp_all add: c_def C_def T_def unat_gt_0)
  define x where "x = c / C"
  have x: "0 \<le> x" "x \<le> 1" using pos by (simp_all add: x_def)
  define y where "y = rnd x"
  have y: "0 \<le> y" "y \<le> x * (1 + e)" "y \<le> 1"
    unfolding y_def e_def
    using x rnd_nonneg [OF x(1)] rnd_upper [OF x(1)] rnd_le_of_nat [of x 1] by simp_all
  define z where "z = rnd (y * T)"
  have yT: "0 \<le> y * T" "y * T \<le> T"
    using y pos by (simp_all add: mult_left_le_one_le)
  have z: "0 \<le> z" "z \<le> y * T * (1 + e)" "z \<le> T"
  proof -
    show "0 \<le> z" "z \<le> y * T * (1 + e)"
      unfolding z_def e_def by (rule rnd_nonneg [OF yT(1)], rule rnd_upper [OF yT(1)])
    show "z \<le> T"
      unfolding z_def T_def using yT unat_u32 [of te]
      by (intro rnd_le_of_nat) (simp_all add: T_def)
  qed
  have sh: "share ub cur tot te = to_u32 ub (Fin z)"
    using pos by (simp add: share_def of_u32_def z_def y_def x_def c_def C_def T_def)
  have fl: "rat_of_nat (unat (share ub cur tot te)) \<le> z"
    unfolding sh using z pos by (intro unat_floor) auto
  then show "unat (share ub cur tot te) \<le> unat te"
    using z(3) unfolding T_def by (meson of_nat_le_iff order_trans)
  have "z \<le> x * (1 + e) * T * (1 + e)"
  proof (rule order_trans [OF z(2)])
    show "y * T * (1 + e) \<le> x * (1 + e) * T * (1 + e)"
      by (intro mult_right_mono) (use y pos in \<open>auto simp: e_def\<close>)
  qed
  also have "\<dots> = x * T + x * T * (2 * e + e * e)"
    by (simp add: algebra_simps)
  also have "x * T * (2 * e + e * e) \<le> 2 ^ 32 * (2 * e + e * e)"
    using x pos mult_left_le_one_le [of T x] by (intro mult_right_mono) (auto simp: e_def)
  also have "2 ^ 32 * (2 * e + e * e) \<le> 1 / 2 ^ 19" by (simp add: e_def)
  finally have "z \<le> x * T + 1 / 2 ^ 19" by simp
  with fl show "rat_of_nat (unat (share ub cur tot te))
      \<le> of_nat (unat cur) * of_nat (unat te) / of_nat (unat tot) + 1 / 2 ^ 19"
    by (simp add: x_def c_def C_def T_def)
qed

subsection \<open>The sum of the budgets\<close>

lemma sum_share_le:
  assumes "tot \<noteq> 0" and "\<And>st. st \<in> set sts \<Longrightarrow> unat (cur_bw st) \<le> unat tot"
  shows "rat_of_nat (\<Sum>st\<leftarrow>sts. if active st then unat (share ub (cur_bw st) tot te) else 0)
    \<le> of_nat (\<Sum>st\<leftarrow>sts. unat (cur_bw st)) * of_nat (unat te) / of_nat (unat tot)
      + of_nat (length sts) / 2 ^ 19"
  using assms(2)
proof (induction sts)
  case (Cons st sts)
  define C T where "C = rat_of_nat (unat tot)" and "T = rat_of_nat (unat te)"
  define S where "S = rat_of_nat (\<Sum>st\<leftarrow>sts. unat (cur_bw st))"
  have C: "0 < C" using assms(1) by (simp add: C_def unat_gt_0 del: of_nat_unat)
  have IH: "rat_of_nat (\<Sum>st\<leftarrow>sts. if active st then unat (share ub (cur_bw st) tot te) else 0)
    \<le> S * T / C + of_nat (length sts) / 2 ^ 19"
    unfolding S_def T_def C_def using Cons by simp
  have one: "rat_of_nat (if active st then unat (share ub (cur_bw st) tot te) else 0)
      \<le> of_nat (unat (cur_bw st)) * T / C + 1 / 2 ^ 19"
    using share_le(1) [of "cur_bw st" tot ub te] Cons.prems [of st] assms(1) C
    by (auto simp: T_def C_def simp del: of_nat_unat)
  have "rat_of_nat (\<Sum>st\<leftarrow>st # sts. if active st then unat (share ub (cur_bw st) tot te) else 0)
      \<le> (of_nat (unat (cur_bw st)) * T / C + 1 / 2 ^ 19) + (S * T / C + of_nat (length sts) / 2 ^ 19)"
    using one IH by (simp only: sum_list.Cons list.map of_nat_add)
  also have "\<dots> = (of_nat (unat (cur_bw st)) + S) * T / C + of_nat (length (st # sts)) / 2 ^ 19"
    by (simp add: distrib_right add_divide_distrib)
  finally show ?case
    by (simp only: C_def T_def S_def sum_list.Cons list.map of_nat_add)
qed simp

lemma sum_share_budget:
  assumes "tot \<noteq> 0" and "(\<Sum>st\<leftarrow>sts. unat (cur_bw st)) = unat tot" and "length sts < 2 ^ 19"
  shows "(\<Sum>st\<leftarrow>sts. if active st then unat (share ub (cur_bw st) tot te) else 0) \<le> unat te"
proof -
  define A where "A = (\<Sum>st\<leftarrow>sts. if active st then unat (share ub (cur_bw st) tot te) else 0)"
  have "unat (cur_bw st) \<le> unat tot" if "st \<in> set sts" for st
    using member_le_sum_list [of "unat (cur_bw st)" "map (\<lambda>st. unat (cur_bw st)) sts"] that assms(2) by auto
  from sum_share_le [OF assms(1) this, of sts] assms(1,2)
  have "rat_of_nat A \<le> of_nat (unat te) + of_nat (length sts) / 2 ^ 19"
    by (simp add: A_def unat_gt_0 del: of_nat_unat)
  also have "rat_of_nat (length sts) / 2 ^ 19 < 1"
  proof -
    have "rat_of_nat (length sts) < rat_of_nat (2 ^ 19)" using assms(3) by (simp only: of_nat_less_iff)
    then show ?thesis by simp
  qed
  finally have "rat_of_nat A < of_nat (unat te + 1)" by (simp del: of_nat_unat)
  then have "A < unat te + 1" by (simp only: of_nat_less_iff)
  then show ?thesis by (simp add: A_def)
qed

lemma unat_add_le: "unat (a + b :: 'a::len word) \<le> unat a + unat b"
  by (simp add: unat_word_ariths)

lemma sum_extra:
  "(\<Sum>st\<leftarrow>sts. if active st \<and> mb = cur_bw st then k else 0) = count_with mb sts * k"
  by (induction sts) (auto simp: count_with_def)

lemma sum_guess_le:
  "(\<Sum>st\<leftarrow>sts. unat (guess (set_guess ub tot te mb mk mc st)))
   \<le> (\<Sum>st\<leftarrow>sts. if active st then unat (share ub (cur_bw st) tot te) else 0)
     + count_with mb sts * unat (mk div mc)"
  if "\<And>st. st \<in> set sts \<Longrightarrow> guess st = 0" for sts
  using that
proof (induction sts)
  case (Cons st sts)
  have "unat (guess (set_guess ub tot te mb mk mc st))
    \<le> (if active st then unat (share ub (cur_bw st) tot te) else 0)
      + (if active st \<and> mb = cur_bw st then unat (mk div mc) else 0)"
    using Cons.prems [of st] by (auto simp: set_guess_def Let_def unat_add_le)
  moreover have "count_with mb (st # sts) * unat (mk div mc) =
      (if active st \<and> mb = cur_bw st then unat (mk div mc) else 0)
      + count_with mb sts * unat (mk div mc)"
    by (simp flip: sum_extra)
  ultimately show ?case using Cons by simp
qed simp

lemma window_total_nat: "window_total since b = of_nat (total_bytes_in since b)"
  unfolding window_total_def total_bytes_in_def sum_list_of_nat [symmetric] window_of_nat ..

lemma refreshed_sum:
  assumes "total_bytes_in since b < 2 ^ 32"
  shows "(\<Sum>st\<leftarrow>refreshed since b. unat (cur_bw st)) = total_bytes_in since b"
proof -
  have le: "window_bytes since (records st) \<le> total_bytes_in since b" if "st \<in> set (map snd (states b))" for st
    using member_le_sum_list [of "window_bytes since (records st)"
        "map (\<lambda>st. window_bytes since (records st)) (map snd (states b))"] that
    by (auto simp: total_bytes_in_def)
  have "unat (window since (records st)) = window_bytes since (records st)"
    if "st \<in> set (map snd (states b))" for st
    using le [OF that] assms by (simp add: window_of_nat unat_of_nat take_bit_nat_eq_self)
  then have "map (\<lambda>st. unat (cur_bw st)) (refreshed since b) =
      map (\<lambda>st. window_bytes since (records st)) (map snd (states b))"
    by (auto simp: refreshed_def)
  then show ?thesis by (simp only: total_bytes_in_def)
qed

lemma recalc_within_limit:
  assumes "since = since_of now"
    and "0 < total_bytes_in since b" and "total_bytes_in since b \<le> unat (max_bw b)"
    and "length (states b) < 2 ^ 19"
  shows "\<not> fst (recalc ub now b)"
    and "total_bytes_in since b + (\<Sum>st\<leftarrow>map snd (states (snd (recalc ub now b))). unat (guess st))
      \<le> unat (max_bw b)"
proof -
  define T where "T = total_bytes_in since b"
  define tot where "tot = window_total since b"
  define sts where "sts = refreshed since b"
  obtain mb mc where f: "fold min_step sts (max_bw b, 0) = (mb, mc)"
    by (cases "fold min_step sts (max_bw b, 0)")
  define mk where "mk = make_bw ub (max_bw b - tot)"
  define te where "te = (if 0 < mc then max_bw b - tot - mk else max_bw b - tot)"
  have T: "T \<le> unat (max_bw b)" "T < 2 ^ 32" "0 < T"
    using assms unat_u32 [of "max_bw b"] by (auto simp: T_def)
  have utot: "unat tot = T"
    using T by (simp add: tot_def window_total_nat unat_of_nat take_bit_nat_eq_self flip: T_def)
  have left: "unat (max_bw b - tot) = unat (max_bw b) - T"
    using T utot by (simp add: unat_sub word_le_nat_alt)
  have mk: "unat mk \<le> unat (max_bw b) - T"
    using make_bw_le [of ub "max_bw b - tot"] left by (simp add: mk_def)
  have max0: "max_bw b \<noteq> 0" using T by auto
  note eq = recalc_eq [OF max0 assms(1) tot_def f [unfolded sts_def] mk_def te_def]
  have fst: "fst (recalc ub now b) = (unat (max_bw b) < T)"
    using eq utot by (simp add: word_less_nat_alt)
  then show "\<not> fst (recalc ub now b)" using T by simp
  have len: "length sts < 2 ^ 19" using assms(4) by (simp add: sts_def refreshed_def)
  have cw: "count_with mb sts \<le> length sts" by (simp add: count_with_def)
  have mc: "unat mc = count_with mb sts"
    using min_step_fold [OF f] cw len by (simp add: unat_of_nat take_bit_nat_eq_self)
  have sum: "(\<Sum>st\<leftarrow>sts. unat (cur_bw st)) = unat tot"
    using refreshed_sum [of since b] T utot by (simp add: sts_def flip: T_def)
  have shares: "(\<Sum>st\<leftarrow>sts. if active st then unat (share ub (cur_bw st) tot te) else 0) \<le> unat te"
  proof -
    have "tot \<noteq> 0" using T utot by auto
    then show ?thesis using sum len by (rule sum_share_budget)
  qed
  have "map snd (states (snd (recalc ub now b))) = map (set_guess ub tot te mb mk mc) sts"
    using eq by (simp add: sts_def refreshed_def)
  moreover have "\<And>st. st \<in> set sts \<Longrightarrow> guess st = 0" by (auto simp: sts_def refreshed_def)
  from sum_guess_le [OF this] shares
  have "(\<Sum>st\<leftarrow>sts. unat (guess (set_guess ub tot te mb mk mc st))) \<le>
      unat te + count_with mb sts * unat (mk div mc)"
    by (rule order_trans [OF _ add_right_mono])
  moreover have "unat te + count_with mb sts * unat (mk div mc) \<le> unat (max_bw b) - T"
  proof (cases "mc = 0")
    case True
    with mc left show ?thesis by (simp add: te_def)
  next
    case False
    then have "0 < mc" by (simp add: word_gt_0)
    moreover have "unat (max_bw b - tot - mk) = unat (max_bw b) - T - unat mk"
      using mk left by (simp add: unat_sub word_le_nat_alt)
    moreover have "count_with mb sts * unat (mk div mc) \<le> unat mk"
      by (simp add: unat_div mc)
    ultimately show ?thesis using mk by (simp add: te_def)
  qed
  ultimately show "total_bytes_in since b +
      (\<Sum>st\<leftarrow>map snd (states (snd (recalc ub now b))). unat (guess st)) \<le> unat (max_bw b)"
    using T by (simp add: o_def flip: T_def)
qed

text \<open>
  C6: When the traffic of the last second is positive and within the limit, \<open>recalc\<close>
  reports no excess and the budgets it hands out, added to that traffic, stay within the
  limit, whatever the rounding of the double arithmetic does (for fewer than \<open>2^19\<close>
  connections).
\<close>

theorem recalc_budget:
  assumes "0 < total_bytes_in (since_of now) b"
    and "total_bytes_in (since_of now) b \<le> unat (max_bw b)"
    and "length (states b) < 2 ^ 19"
  shows "\<not> fst (recalc ub now b) \<and>
    total_bytes_in (since_of now) b + (\<Sum>st\<leftarrow>map snd (states (snd (recalc ub now b))). unat (guess st))
      \<le> unat (max_bw b)"
  using recalc_within_limit [OF refl assms] by simp

definition sample_bwstop :: bwstop where
  "sample_bwstop = \<lparr>states = [(7, \<lparr>records = [\<lparr>bw_t = \<lparr>tb_time = 10, tb_millitm = 0\<rparr>, bw_size = 40\<rparr>],
     active = True, cur_bw = 0, guess = 5\<rparr>)], max_bw = 100, total_bw = 0, emulator = False,
     vtime = \<lparr>tb_time = 0, tb_millitm = 0\<rparr>, junk = 5\<rparr>"

lemma sample_bytes:
  "total_bytes_in (since_of \<lparr>tb_time = 10, tb_millitm = 5\<rparr>) sample_bwstop = 40"
  by (simp add: total_bytes_in_def since_of_def sample_bwstop_def window_bytes_def fresh_def
      valid_period_def)

theorem recalc_budget_witness:
  "40 + (\<Sum>st\<leftarrow>map snd (states (snd (recalc (\<lambda>_. 0) \<lparr>tb_time = 10, tb_millitm = 5\<rparr> sample_bwstop))).
     unat (guess st)) \<le> (100 :: nat)"
  using recalc_budget [of "\<lparr>tb_time = 10, tb_millitm = 5\<rparr>" sample_bwstop "\<lambda>_. 0"]
  unfolding sample_bytes by (simp add: sample_bwstop_def)

subsection \<open>The slowest connections are served\<close>

lemma rnd_lower: "0 \<le> x \<Longrightarrow> x - x / 2 ^ 53 \<le> rnd x"
  using rnd_error [of x] by linarith

lemma make_bw_ge: "unat w div 10 \<le> unat (make_bw ub w)"
  supply of_nat_unat [simp del]
proof -
  define n where "n = rat_of_nat (unat w)"
  have n: "0 \<le> n" "n < 2 ^ 32" using rat_u32 [of w] by (simp_all add: n_def)
  define a where "a = rnd (tenth * n)"
  define z where "z = rnd (a + half)"
  have m: "make_bw ub w = to_u32 ub (Fin z)"
    by (simp add: make_bw_def of_u32_def z_def a_def n_def)
  have t: "0 \<le> tenth * n" "n / 10 \<le> tenth * n" "tenth * n \<le> 2 / 10 * n"
    using n tenth_bounds by (auto simp: tenth_def intro: mult_right_mono)
  have a: "tenth * n - tenth * n / 2 ^ 53 \<le> a" "0 \<le> a" "a \<le> tenth * n * (1 + 1 / 2 ^ 53)"
    unfolding a_def by (rule rnd_lower [OF t(1)], rule rnd_nonneg [OF t(1)], rule rnd_upper [OF t(1)])
  have a': "n / 10 - 1 / 2 ^ 20 \<le> a" "a \<le> 2 ^ 31"
    using a t n by (simp_all add: field_simps)
  have h: "0 \<le> a + half" using a by (simp add: half_def)
  have z: "a + half - (a + half) / 2 ^ 53 \<le> z" "z \<le> (a + half) * (1 + 1 / 2 ^ 53)"
    unfolding z_def by (rule rnd_lower [OF h], rule rnd_upper [OF h])
  have z1: "n / 10 \<le> z" "z < 2 ^ 32"
    using z a' by (simp_all add: half_def field_simps)
  have z0: "0 \<le> z" using z1 n by simp
  have "rat_of_nat (unat w div 10) \<le> n / 10"
  proof -
    have "rat_of_nat (unat w div 10 * 10) \<le> rat_of_nat (unat w)" by (simp only: of_nat_le_iff div_times_less_eq_dividend)
    then show ?thesis by (simp add: n_def)
  qed
  with z1 have "of_int (int (unat w div 10)) \<le> z" by simp
  then have "int (unat w div 10) \<le> \<lfloor>z\<rfloor>" by (simp only: le_floor_iff)
  moreover have "unat (make_bw ub w) = nat \<lfloor>z\<rfloor>"
    using z0 z1 by (simp add: m unat_eq_nat_uint uint_word_of_int_eq take_bit_int_eq_self floor_less_iff)
  ultimately show ?thesis by linarith
qed

lemma min_attained:
  "fold min_step sts (mb, mc) = (mb', mc') \<Longrightarrow>
     mb' = mb \<or> (\<exists>st \<in> set sts. active st \<and> cur_bw st = mb')"
proof (induction sts arbitrary: mb mc)
  case (Cons st sts)
  obtain mb1 mc1 where s: "min_step st (mb, mc) = (mb1, mc1)" by (cases "min_step st (mb, mc)")
  with Cons.prems have "fold min_step sts (mb1, mc1) = (mb', mc')" by simp
  from Cons.IH [OF this] s show ?case by (auto simp: min_step_def split: if_splits)
qed simp

end
