(* ===== verification/Bwstop_Runs.thy ===== *)
theory Bwstop_Runs
  imports Bwstop_Props
begin

section \<open>Runs of the limiter, its starvation-freedom and its corner cases\<close>

text \<open>
  The limiter as a machine under a clock: its invariant (\<open>limiter_ok\<close>) and what \<open>recalc\<close>
  keeps of the records; the budget of the slowest connection; the conversion that is
  undefined without traffic; the virtual clock; and the interface \<open>send_limiter\<close> that the
  dispatchers rely on, interpreted by the model of \<open>bwstop\<close>.
\<close>

subsection \<open>A lower bound for the slowest connection\<close>

lemma guess_ge:
  assumes "total_bytes_in since b \<le> unat (max_bw b)" and "0 < total_bytes_in since b"
    and "since = since_of now" and "length (states b) < 2 ^ 19"
    and "map_find k (states b) = Some st" and "active st"
    and slow: "\<And>k' st'. map_find k' (states b) = Some st' \<Longrightarrow> active st' \<Longrightarrow>
      window_bytes since (records st) \<le> window_bytes since (records st')" and "map_ok (states b)"
  shows "(unat (max_bw b) - total_bytes_in since b) div 10 div length (states b)
    \<le> unat (bw_guess k (snd (recalc ub now b)))"
proof -
  define T where "T = total_bytes_in since b"
  define tot where "tot = window_total since b"
  define sts where "sts = refreshed since b"
  obtain mb mc where f: "fold min_step sts (max_bw b, 0) = (mb, mc)"
    by (cases "fold min_step sts (max_bw b, 0)")
  define mk where "mk = make_bw ub (max_bw b - tot)"
  define te where "te = (if 0 < mc then max_bw b - tot - mk else max_bw b - tot)"
  have T: "T \<le> unat (max_bw b)" "T < 2 ^ 32" "0 < T"
    using assms unat_u32 [of "max_bw b"] by (auto simp: T_def)
  have utot: "unat tot = T"
    using T by (simp add: tot_def window_total_nat unat_of_nat take_bit_nat_eq_self flip: T_def)
  have left: "unat (max_bw b - tot) = unat (max_bw b) - T"
    using T utot by (simp add: unat_sub word_le_nat_alt)
  have mk: "unat mk \<le> unat (max_bw b) - T" "(unat (max_bw b) - T) div 10 \<le> unat mk"
    using make_bw_le [of ub "max_bw b - tot"] make_bw_ge [of "max_bw b - tot" ub] left
    by (simp_all add: mk_def)
  have wb: "unat (window since (records s)) = window_bytes since (records s)"
      and wT: "window_bytes since (records s) \<le> T"
    if "s \<in> set (map snd (states b))" for s
  proof -
    show le: "window_bytes since (records s) \<le> T"
      using member_le_sum_list [of "window_bytes since (records s)"
        "map (\<lambda>s. window_bytes since (records s)) (map snd (states b))"] that
      by (auto simp: total_bytes_in_def T_def)
    then show "unat (window since (records s)) = window_bytes since (records s)"
      using T by (simp add: window_of_nat unat_of_nat take_bit_nat_eq_self)
  qed
  have st_in: "(k, st) \<in> set (states b)" using assms(5) by (rule map_find_Some)
  then have st_set: "st \<in> set (map snd (states b))" by force
  have "mb = window since (records st)"
  proof (rule antisym)
    have "refresh since st \<in> set sts" "active (refresh since st)"
      using st_set assms(6) by (auto simp: sts_def refreshed_def)
    from min_step_fold_le [OF f this] show "mb \<le> window since (records st)" by simp
    from min_attained [OF f] show "window since (records st) \<le> mb"
    proof
      assume "mb = max_bw b"
      then show ?thesis using wb [OF st_set] wT [OF st_set] T by (simp add: word_le_nat_alt)
    next
      assume "\<exists>s \<in> set sts. active s \<and> cur_bw s = mb"
      then obtain k' s where s: "(k', s) \<in> set (states b)" "active s" "window since (records s) = mb"
        by (auto simp: sts_def refreshed_def)
      from s(1) have "map_find k' (states b) = Some s" by (intro map_find_in [OF assms(8)])
      from slow [OF this s(2)] show ?thesis
        using wb [OF st_set] wb [of s] s by (force simp: word_le_nat_alt)
    qed
  qed
  note mb = this
  have len: "length sts < 2 ^ 19" "length sts = length (states b)"
    using assms(4) by (simp_all add: sts_def refreshed_def)
  have cw: "count_with mb sts \<le> length sts" by (simp add: count_with_def)
  have mc: "unat mc = count_with mb sts"
    using min_step_fold [OF f] cw len by (simp add: unat_of_nat take_bit_nat_eq_self)
  have "refresh since st \<in> set (filter (\<lambda>s. active s \<and> cur_bw s = mb) sts)"
    using st_set assms(6) mb by (auto simp: sts_def refreshed_def)
  then have "0 < count_with mb sts" unfolding count_with_def by (metis length_pos_if_in_set)
  with mc have mc0: "0 < mc" by (metis unat_gt_0 word_gt_0)
  have max0: "max_bw b \<noteq> 0" using T by auto
  note eq = recalc_eq [OF max0 assms(3) tot_def f [unfolded sts_def] mk_def te_def]
  have g: "bw_guess k (snd (recalc ub now b)) =
      share ub (window since (records st)) tot te + mk div mc"
    using assms(5,6) by (simp add: eq bw_guess_def map_find_map_prod set_guess_def Let_def mb)
  have te: "unat te = unat (max_bw b) - T - unat mk"
    using mk left mc0 by (simp add: te_def unat_sub word_le_nat_alt)
  have "tot \<noteq> 0" using T utot by auto
  then have sh: "unat (share ub (window since (records st)) tot te) \<le> unat te"
    using wb [OF st_set] wT [OF st_set] utot by (intro share_le(2)) auto
  have dv: "unat (mk div mc) = unat mk div count_with mb sts" by (simp add: unat_div mc)
  then have "unat (mk div mc) \<le> unat mk" by simp
  then have "unat (share ub (window since (records st)) tot te) + unat (mk div mc) < 2 ^ 32"
    using sh te mk unat_u32 [of "max_bw b"] by linarith
  then have "unat (bw_guess k (snd (recalc ub now b))) =
      unat (share ub (window since (records st)) tot te) + unat mk div count_with mb sts"
    unfolding g by (subst unat_add_lem [THEN iffD1]) (simp_all add: dv)
  moreover have "(unat (max_bw b) - T) div 10 div length (states b) \<le> unat mk div count_with mb sts"
  proof (rule order_trans [OF div_le_mono2 div_le_mono])
    show "0 < count_with mb sts" "count_with mb sts \<le> length (states b)"
      using cw len \<open>0 < count_with mb sts\<close> by simp_all
  qed (rule mk(2))
  ultimately show ?thesis by (simp add: T_def)
qed



subsection \<open>Runs of the limiter\<close>

datatype bw_op =
    Op_on addr
  | Op_off addr
  | Op_insert addr u32
  | Op_erase addr
  | Op_limit u32
  | Op_recalc

fun bw_step :: "(double \<Rightarrow> u32) \<Rightarrow> timeb \<Rightarrow> bw_op \<Rightarrow> bwstop \<Rightarrow> bwstop" where
  "bw_step ub now (Op_on c) b = bw_on c b"
| "bw_step ub now (Op_off c) b = bw_off c b"
| "bw_step ub now (Op_insert c n) b = bw_insert c n now b"
| "bw_step ub now (Op_erase c) b = bw_erase c b"
| "bw_step ub now (Op_limit n) b = set_limit n b"
| "bw_step ub now Op_recalc b = snd (recalc ub now b)"

fun bw_run :: "(double \<Rightarrow> u32) \<Rightarrow> (timeb \<times> bw_op) list \<Rightarrow> bwstop \<Rightarrow> bwstop" where
  "bw_run ub [] b = b"
| "bw_run ub ((t, op) # ops) b = bw_run ub ops (bw_step ub t op b)"

text \<open>No record is from the future, and each connection's records are in time order.\<close>

definition state_ok :: "timeb \<Rightarrow> bw_state \<Rightarrow> bool" where
  "state_ok now st \<longleftrightarrow> in_time_order (records st) \<and>
     (\<forall>r \<in> set (records st). time_key (bw_t r) \<le> time_key now)"

definition limiter_ok :: "timeb \<Rightarrow> bwstop \<Rightarrow> bool" where
  "limiter_ok now b \<longleftrightarrow> map_ok (states b) \<and> map_all (state_ok now) (states b)"

lemma limiter_ok_later:
  "limiter_ok t b \<Longrightarrow> time_key t \<le> time_key u \<Longrightarrow> limiter_ok u b"
  unfolding limiter_ok_def map_all_def state_ok_def by (meson order_trans)

lemma state_ok_update [simp]:
  "state_ok now (active_update f st) = state_ok now st"
  "state_ok now (guess_update g st) = state_ok now st"
  by (simp_all add: state_ok_def)

lemma state_ok_append:
  "state_ok now st \<Longrightarrow> state_ok now (records_update (\<lambda>rs. rs @ [\<lparr>bw_t = now, bw_size = n\<rparr>]) st)"
  by (auto simp: state_ok_def in_time_order_def sorted_append)

lemma set_prune_subset: "set (prune since rs) \<subseteq> set rs"
  by (auto simp: prune_def dest: in_set_dropD split: option.splits)

lemma state_ok_prune:
  assumes "state_ok now st" shows "state_ok now (refresh since st)"
  using assms set_prune_subset [of since "records st"]
  by (auto simp: state_ok_def prune_in_time_order)

lemma state_ok_set_guess [simp]: "state_ok now (set_guess ub a c d e f st) = state_ok now st"
  by (simp add: set_guess_def Let_def state_ok_def)

lemma recalc_limiter_ok:
  assumes "limiter_ok now b" shows "limiter_ok now (snd (recalc ub now b))"
proof (cases "max_bw b = 0")
  case True
  with assms show ?thesis by (simp add: recalc_def)
next
  case False
  obtain mb mc where f: "fold min_step (refreshed (since_of now) b) (max_bw b, 0) = (mb, mc)"
    by (cases "fold min_step (refreshed (since_of now) b) (max_bw b, 0)")
  have "map_keys (states (snd (recalc ub now b))) = map_keys (states b)"
    by (rule recalc_states_shape) (rule prod.collapse [symmetric])
  then have "map_ok (states (snd (recalc ub now b)))"
    using assms by (simp add: limiter_ok_def map_ok_def)
  then show ?thesis
    using assms state_ok_prune unfolding limiter_ok_def map_all_def
    by (auto simp: recalc_eq [OF False refl refl f refl refl])
qed

lemma bw_step_ok: "limiter_ok now b \<Longrightarrow> limiter_ok now (bw_step ub now op b)"
proof (cases op)
  case (Op_insert c n)
  assume ok: "limiter_ok now b"
  have "limiter_ok now (bw_find c b)"
    using ok by (auto simp: limiter_ok_def bw_find_def state_ok_def in_time_order_def intro!: map_all_insert)
  with ok Op_insert show ?thesis
    by (auto simp: bw_insert_def limiter_ok_def Let_def intro!: map_all_modify state_ok_append)
qed (auto simp: limiter_ok_def bw_on_def bw_off_def bw_erase_def set_limit_def
      recalc_limiter_ok [unfolded limiter_ok_def] intro!: map_all_modify map_all_erase)

lemma bw_run_ok:
  "limiter_ok t b \<Longrightarrow> sorted (map time_key (t # map fst ops @ [now])) \<Longrightarrow>
     limiter_ok now (bw_run ub ops b)"
proof (induction ops arbitrary: t b)
  case Nil
  then show ?case by (auto intro: limiter_ok_later)
next
  case (Cons e ops)
  obtain u op where e: "e = (u, op)" by (cases e)
  from Cons.prems(2) have le: "time_key t \<le> time_key u"
    and srt: "sorted (map time_key (u # map fst ops @ [now]))" by (simp_all add: e)
  from limiter_ok_later [OF Cons.prems(1) le] have "limiter_ok u (bw_step ub u op b)"
    by (rule bw_step_ok)
  from Cons.IH [OF this srt] show ?case by (simp add: e)
qed

lemma new_limiter_ok: "limiter_ok t (new_bwstop j t0 limit)"
  by (simp add: limiter_ok_def new_bwstop_def)

lemma reachable_limiter_ok:
  assumes "sorted (map time_key (map fst ops @ [now]))"
  shows "limiter_ok now (bw_run ub ops (new_bwstop j t0 limit))"
proof -
  have "sorted (map time_key (hd (map fst ops @ [now]) # map fst ops @ [now]))"
    using assms by (cases ops) auto
  with new_limiter_ok show ?thesis by (rule bw_run_ok)
qed

lemma recalc_records:
  assumes "max_bw b \<noteq> 0"
  shows "map (records \<circ> snd) (states (snd (recalc ub now b))) =
    map (prune (since_of now) \<circ> records \<circ> snd) (states b)"
proof -
  obtain mb mc where f: "fold min_step (refreshed (since_of now) b) (max_bw b, 0) = (mb, mc)"
    by (cases "fold min_step (refreshed (since_of now) b) (max_bw b, 0)")
  show ?thesis
    by (simp add: recalc_eq [OF assms refl refl f refl refl] set_guess_def Let_def)
qed



text \<open>
  The slowest connection is not starved: an active connection whose traffic is least
  among the active ones gets a budget of at least its part of a tenth of what is left
  of the limit (in bytes, rounded down), so it can send again if that tenth is a byte for
  every connection.
\<close>

theorem recalc_serves_slowest:
  assumes "map_ok (states b)" and "map_find k (states b) = Some st" and "active st"
    and "\<And>k' st'. map_find k' (states b) = Some st' \<Longrightarrow> active st' \<Longrightarrow>
      window_bytes (since_of now) (records st) \<le> window_bytes (since_of now) (records st')"
    and "0 < total_bytes_in (since_of now) b"
    and "total_bytes_in (since_of now) b \<le> unat (max_bw b)"
    and "length (states b) < 2 ^ 19"
  shows "(unat (max_bw b) - total_bytes_in (since_of now) b) div 10 div length (states b)
    \<le> unat (bw_guess k (snd (recalc ub now b)))"
  using guess_ge [OF assms(6,5) refl assms(7,2,3)] assms(1,4) by blast

theorem recalc_serves_slowest_witness:
  "6 \<le> unat (bw_guess 7 (snd (recalc (\<lambda>_. 0) \<lparr>tb_time = 10, tb_millitm = 5\<rparr> sample_bwstop)))"
proof -
  define st where "st = snd (hd (states sample_bwstop))"
  have st: "map_find 7 (states sample_bwstop) = Some st" "active st"
    and only: "\<And>k' st'. map_find k' (states sample_bwstop) = Some st' \<Longrightarrow> st' = st"
    by (auto simp: st_def sample_bwstop_def split: if_splits)
  have ok: "map_ok (states sample_bwstop)" by (simp add: sample_bwstop_def map_ok_def)
  have len: "length (states sample_bwstop) = 1" and mx: "max_bw sample_bwstop = 100"
    by (simp_all add: sample_bwstop_def)
  have "(unat (max_bw sample_bwstop) - 40) div 10 div length (states sample_bwstop)
    \<le> unat (bw_guess 7 (snd (recalc (\<lambda>_. 0) \<lparr>tb_time = 10, tb_millitm = 5\<rparr> sample_bwstop)))"
    using recalc_serves_slowest [OF ok st, of "\<lparr>tb_time = 10, tb_millitm = 5\<rparr>" "\<lambda>_. 0"]
      only sample_bytes len mx by fastforce
  then show ?thesis by (simp add: len mx)
qed

subsection \<open>No traffic: an undefined conversion\<close>

lemma make_bw_ub: "make_bw ub w = make_bw ub' w"
  supply of_nat_unat [simp del]
proof -
  define n where "n = rat_of_nat (unat w)"
  have n: "0 \<le> n" "n < 2 ^ 32" using rat_u32 [of w] by (simp_all add: n_def)
  define a where "a = rnd (tenth * n)"
  define z where "z = rnd (a + half)"
  have t: "0 \<le> tenth * n" "tenth * n \<le> 2 / 10 * n"
    using n tenth_bounds mult_right_mono [OF tenth_bounds(2) n(1)] by simp_all
  have a: "0 \<le> a" "a \<le> tenth * n * (1 + 1 / 2 ^ 53)"
    unfolding a_def by (rule rnd_nonneg [OF t(1)], rule rnd_upper [OF t(1)])
  then have h: "0 \<le> a + half" "a + half \<le> 2 ^ 31"
    using t n by (simp_all add: half_def)
  then have z: "0 \<le> z" "z < 2 ^ 32"
    unfolding z_def using rnd_nonneg [OF h(1)] rnd_upper [OF h(1)] by simp_all
  have "make_bw v w = to_u32 v (Fin z)" for v
    by (simp add: make_bw_def of_u32_def z_def a_def n_def)
  with z show ?thesis by simp
qed

text \<open>
  C35: With a limit set and nothing sent in the last second, every active connection's
  budget rests on the conversion of \<open>0.0/0.0\<close> to \<open>uint32_t\<close>, which C++ leaves undefined:
  the budget is whatever the platform gives for it, plus a share that does not depend on it.
\<close>

theorem idle_budget_undefined:
  assumes "max_bw b \<noteq> 0" and "total_bytes_in (since_of now) b = 0"
    and "map_find k (states b) = Some st" and "active st"
  shows "\<exists>e. \<forall>ub. bw_guess k (snd (recalc ub now b)) = ub NaN + e"
proof -
  obtain mb mc where f: "fold min_step (refreshed (since_of now) b) (max_bw b, 0) = (mb, mc)"
    by (cases "fold min_step (refreshed (since_of now) b) (max_bw b, 0)")
  have tot: "window_total (since_of now) b = 0" by (simp add: window_total_nat assms(2))
  define mk where "mk = make_bw (\<lambda>_. 0) (max_bw b)"
  have mk: "make_bw ub (max_bw b) = mk" for ub
    unfolding mk_def by (rule make_bw_ub)
  have mem: "st \<in> set (map snd (states b))"
    using map_find_Some [OF assms(3)] by force
  then have "window_bytes (since_of now) (records st) = 0"
    using assms(2) by (auto simp: total_bytes_in_def)
  then have w: "window (since_of now) (records st) = 0" by (simp add: window_of_nat)
  have sh: "share ub 0 0 te = ub NaN" for ub te
    by (simp add: share_def of_u32_def)
  have "bw_guess k (snd (recalc ub now b)) = ub NaN + (if mb = 0 then mk div mc else 0)" for ub
    using assms(3,4)
    by (simp add: recalc_eq [OF assms(1) refl refl f refl refl] bw_guess_def map_find_map_prod
        set_guess_def Let_def tot w sh mk)
  then show ?thesis by blast
qed

theorem idle_budget_undefined_witness:
  "\<exists>e. \<forall>ub. bw_guess 7 (snd (recalc ub \<lparr>tb_time = 50, tb_millitm = 0\<rparr> sample_bwstop)) = ub NaN + e"
  by (rule idle_budget_undefined [of _ _ _ "snd (hd (states sample_bwstop))"])
    (simp_all add: sample_bwstop_def total_bytes_in_def window_bytes_def since_of_def fresh_def
      valid_period_def)

subsection \<open>The virtual clock runs fast\<close>

lemma turn_lemma:
  assumes "0 < unat m" and "unat m < 1000" and "tb_millitm (vtime b) = 0"
  shows "tb_time (vtime (turn m b)) = tb_time (vtime b) + int (unat m) + 1"
proof -
  have mm: "m mod 1000 = m"
    using assms by (simp add: unat_arith_simps)
  have "unat (m * 1000) = unat m * 1000"
    using assms by (simp add: unat_word_ariths)
  then have "unat (m - m * 1000) = unat m + 2 ^ 32 - unat m * 1000"
    using assms by (subst unat_sub_if') simp
  moreover define d where "d = m - m * 1000"
  ultimately have "1000 < d"
    using assms by (simp only: word_less_nat_alt) simp
  moreover have "mod_u32 m 1000 = d"
    by (simp only: mod_u32_def mm d_def)
  ultimately show ?thesis
    using assms by (simp add: turn_def mm Let_def)
qed

text \<open>
  \<open>turn\<close>, which should advance the virtual clock by \<open>msecs\<close> milliseconds, moves a clock
  at a full second by \<open>msecs + 1\<close> whole seconds when \<open>msecs\<close> is below 1000.
\<close>

theorem turn_adds_seconds:
  assumes "0 < unat msecs" and "unat msecs < 1000" and "tb_millitm (vtime b) = 0"
  shows "tb_time (vtime (turn msecs b)) = tb_time (vtime b) + int (unat msecs) + 1"
  using assms by (rule turn_lemma)

theorem turn_adds_seconds_witness:
  "tb_time (vtime (turn 1 sample_bwstop)) = 2"
  using turn_adds_seconds [of 1 sample_bwstop] by (simp add: sample_bwstop_def)

subsection \<open>The interface the dispatchers use\<close>

definition bw_known :: "addr \<Rightarrow> bwstop \<Rightarrow> bool" where
  "bw_known c b \<longleftrightarrow> map_find c (states b) \<noteq> None"

locale send_limiter =
  fixes enabled :: "'l \<Rightarrow> bool"
    and known :: "addr \<Rightarrow> 'l \<Rightarrow> bool"
    and switch_on :: "addr \<Rightarrow> 'l \<Rightarrow> 'l"
    and switch_off :: "addr \<Rightarrow> 'l \<Rightarrow> 'l"
    and record_sent :: "addr \<Rightarrow> u32 \<Rightarrow> timeb \<Rightarrow> 'l \<Rightarrow> 'l"
    and forget :: "addr \<Rightarrow> 'l \<Rightarrow> 'l"
    and budget :: "addr \<Rightarrow> 'l \<Rightarrow> u32"
    and may_send :: "addr \<Rightarrow> 'l \<Rightarrow> u32 option"
    and ok :: "'l \<Rightarrow> bool"
  assumes ok_ops: "ok l \<Longrightarrow> ok (switch_on c l)" "ok l \<Longrightarrow> ok (switch_off c l)"
      "ok l \<Longrightarrow> ok (record_sent c n t l)" "ok l \<Longrightarrow> ok (forget c l)"
    and known_on: "known d (switch_on c l) = known d l"
    and known_off: "known d (switch_off c l) = known d l"
    and known_record: "ok l \<Longrightarrow> known d (record_sent c n t l) = (known d l \<or> (enabled l \<and> d = c))"
    and known_forget: "ok l \<Longrightarrow> known d (forget c l) = (known d l \<and> d \<noteq> c)"
    and disabled: "\<not> enabled l \<Longrightarrow> switch_on c l = l" "\<not> enabled l \<Longrightarrow> switch_off c l = l"
      "\<not> enabled l \<Longrightarrow> record_sent c n t l = l"
    and budget_unknown: "\<not> known c l \<Longrightarrow> budget c l = 0"
    and off_refuses: "enabled l \<Longrightarrow> may_send c (switch_off c l) = None"
    and may_send_unknown: "\<not> known c l \<Longrightarrow> may_send c l = None"
begin

lemma forgotten: "ok l \<Longrightarrow> budget c (forget c l) = 0 \<and> may_send c (forget c l) = None"
  by (simp add: known_forget budget_unknown may_send_unknown)

lemma forgotten_stays:
  "ok l \<Longrightarrow> c \<noteq> d \<Longrightarrow> budget c (record_sent d n t (switch_on d (switch_off e (forget c l)))) = 0"
  by (simp add: budget_unknown known_record known_forget known_on known_off ok_ops)

lemma disabled_record_budget: "\<not> enabled l \<Longrightarrow> budget d (record_sent c n t l) = budget d l"
  by (simp add: disabled)

end

interpretation limiter: send_limiter is_enable bw_known bw_on bw_off bw_insert bw_erase bw_guess
  bw_can "\<lambda>b. map_ok (states b)"
  by unfold_locales
    (auto simp: is_enable_def bw_known_def bw_on_def bw_off_def bw_insert_def bw_erase_def bw_guess_def
      bw_can_def bw_find_def Let_def map_find_modify map_find_insert map_find_erase
      split: option.splits if_splits)

end
