(* ===== verification/Messages.thy ===== *)
theory Messages
  imports Externals
begin

section \<open>The queue of internal messages (internal_messages.h, internal_messages.cpp)\<close>

text \<open>
  API calls, made in any thread, are handed to the dispatcher thread as messages.  Every
  operation holds the queue's mutex from its first to its last access, so each is one
  atomic step on the list of messages.  The interface is the locale \<open>message_queue\<close>.
\<close>

definition P_CLOSE_CONNECTION :: u8 where "P_CLOSE_CONNECTION = 1"
definition P_CREATE_CONNECTION :: u8 where "P_CREATE_CONNECTION = 2"
definition P_SEND_REQUEST :: u8 where "P_SEND_REQUEST = 3"
definition P_STOP_ACCEPTING :: u8 where "P_STOP_ACCEPTING = 6"
definition P_CLOSE_CONNECTION_WAIT :: u8 where "P_CLOSE_CONNECTION_WAIT = 7"
definition P_BREAK_SEND :: u8 where "P_BREAK_SEND = 8"
definition P_DO_NOTHING :: u8 where "P_DO_NOTHING = 9"
definition P_EXIT :: u8 where "P_EXIT = 10"
definition P_EXTERNAL :: u8 where "P_EXTERNAL = 11"

lemmas message_codes = P_CLOSE_CONNECTION_def P_CREATE_CONNECTION_def P_SEND_REQUEST_def
  P_STOP_ACCEPTING_def P_CLOSE_CONNECTION_WAIT_def P_BREAK_SEND_def P_DO_NOTHING_def P_EXIT_def
  P_EXTERNAL_def

text \<open>
  A message pushed without an argument leaves its pointer uninitialised (\<open>new char*\<close>):
  that is \<^const>\<open>None\<close>.
\<close>

record internal_message =
  im_code :: u8
  im_ptr :: "addr option"

type_synonym internal_messages = "internal_message list"

definition push_code :: "u8 \<Rightarrow> internal_messages \<Rightarrow> internal_messages" where
  "push_code code q = q @ [\<lparr>im_code = code, im_ptr = None\<rparr>]"

definition push_ptr :: "u8 \<Rightarrow> addr \<Rightarrow> internal_messages \<Rightarrow> internal_messages" where
  "push_ptr code data q = q @ [\<lparr>im_code = code, im_ptr = Some data\<rparr>]"

text \<open>\<open>front\<close> and \<open>pop\<close> of an empty queue are undefined: there is no result.\<close>

fun pop_message :: "internal_messages \<Rightarrow> (internal_message \<times> internal_messages) option" where
  "pop_message [] = None"
| "pop_message (im # q) = Some (im, q)"

definition messages_size :: "internal_messages \<Rightarrow> nat" where
  "messages_size q = length q"

definition messages_empty :: "internal_messages \<Rightarrow> bool" where
  "messages_empty q \<longleftrightarrow> q = []"

subsection \<open>The interface\<close>

locale message_queue =
  fixes put :: "'m \<Rightarrow> 'q \<Rightarrow> 'q"
    and take_first :: "'q \<Rightarrow> ('m \<times> 'q) option"
    and contents :: "'q \<Rightarrow> 'm list"
  assumes contents_put: "contents (put m q) = contents q @ [m]"
    and take_None: "take_first q = None \<longleftrightarrow> contents q = []"
    and take_Some: "take_first q = Some (m, q') \<Longrightarrow> contents q = m # contents q'"
begin

text \<open>A run of puts (\<open>Inl\<close>) and takes (\<open>Inr\<close>), with what the takes got.\<close>

fun run :: "('m + unit) list \<Rightarrow> 'q \<Rightarrow> 'm list \<times> 'q" where
  "run [] q = ([], q)"
| "run (Inl m # ops) q = run ops (put m q)"
| "run (Inr _ # ops) q = (case take_first q of None \<Rightarrow> run ops q
     | Some (m, q') \<Rightarrow> (case run ops q' of (ms, q'') \<Rightarrow> (m # ms, q'')))"

fun puts :: "('m + unit) list \<Rightarrow> 'm list" where
  "puts [] = []"
| "puts (Inl m # ops) = m # puts ops"
| "puts (Inr _ # ops) = puts ops"

lemma first_in_first_out:
  "run ops q = (got, q') \<Longrightarrow> contents q @ puts ops = got @ contents q'"
proof (induction ops arbitrary: q got q')
  case (Cons op ops)
  show ?case
  proof (cases op)
    case (Inl m)
    with Cons.prems have "run ops (put m q) = (got, q')" by simp
    from Cons.IH [OF this] Inl show ?thesis by (simp add: contents_put)
  next
    case (Inr u)
    show ?thesis
    proof (cases "take_first q")
      case None
      with Inr Cons.prems have "run ops q = (got, q')" by simp
      from Cons.IH [OF this] Inr show ?thesis by simp
    next
      case (Some p)
      obtain m q1 where p: "p = (m, q1)" by (cases p)
      obtain ms q2 where r: "run ops q1 = (ms, q2)" by (cases "run ops q1")
      have "contents q = m # contents q1" using Some p by (simp add: take_Some)
      with Cons.IH [OF r] Inr Some p r Cons.prems show ?thesis by auto
    qed
  qed
qed simp

lemma put_take_empty: "contents q = [] \<Longrightarrow> \<exists>q'. take_first (put m q) = Some (m, q') \<and> contents q' = []"
proof -
  assume q: "contents q = []"
  then have "take_first (put m q) \<noteq> None" by (simp add: take_None contents_put)
  then obtain m' q' where t: "take_first (put m q) = Some (m', q')" by auto
  with take_Some [OF t] q show ?thesis by (simp add: contents_put)
qed

end

interpretation imq: message_queue "\<lambda>m q. q @ [m]" pop_message id
proof unfold_locales
  fix q :: internal_messages and m q'
  show "pop_message q = None \<longleftrightarrow> id q = []" by (cases q) simp_all
  show "pop_message q = Some (m, q') \<Longrightarrow> id q = m # id q'" by (cases q) simp_all
qed simp

text \<open>The queue under any interleaving of pushes, with or without an argument, and pops.\<close>

datatype im_op =
    Push_code u8
  | Push_ptr u8 addr
  | Pop_op

fun im_run :: "im_op list \<Rightarrow> internal_messages \<Rightarrow> internal_message list \<times> internal_messages" where
  "im_run [] q = ([], q)"
| "im_run (Push_code c # ops) q = im_run ops (push_code c q)"
| "im_run (Push_ptr c p # ops) q = im_run ops (push_ptr c p q)"
| "im_run (Pop_op # ops) q = (case pop_message q of None \<Rightarrow> im_run ops q
     | Some (m, q') \<Rightarrow> (case im_run ops q' of (ms, q'') \<Rightarrow> (m # ms, q'')))"

fun im_op_sum :: "im_op \<Rightarrow> internal_message + unit" where
  "im_op_sum (Push_code c) = Inl \<lparr>im_code = c, im_ptr = None\<rparr>"
| "im_op_sum (Push_ptr c p) = Inl \<lparr>im_code = c, im_ptr = Some p\<rparr>"
| "im_op_sum Pop_op = Inr ()"

fun im_pushed :: "im_op list \<Rightarrow> internal_message list" where
  "im_pushed [] = []"
| "im_pushed (Push_code c # ops) = \<lparr>im_code = c, im_ptr = None\<rparr> # im_pushed ops"
| "im_pushed (Push_ptr c p # ops) = \<lparr>im_code = c, im_ptr = Some p\<rparr> # im_pushed ops"
| "im_pushed (Pop_op # ops) = im_pushed ops"

lemma im_run_eq: "im_run ops q = imq.run (map im_op_sum ops) q"
  by (induction ops q rule: im_run.induct) (auto simp: push_code_def push_ptr_def split: option.splits)

lemma im_pushed_eq: "im_pushed ops = imq.puts (map im_op_sum ops)"
  by (induction ops rule: im_pushed.induct) simp_all



end
