(* ===== verification/Connection.thy ===== *)
theory Connection
  imports Externals
begin

section \<open>Connections, requests and their life (connection.h, overlappedplus.h, overlappedplus.cpp)\<close>

text \<open>
  The objects of the library and the heap they live in.  An object is created at an
  address that was never used before; it disappears when \<open>refcounted_obj\<close> answers that a
  release destroyed it, after the code of its destructor ran.  Dereferencing the null
  pointer or an object that is gone is an error of the program.  Writing to the log and
  the trace output of the constructors are not modelled.
\<close>

subsection \<open>Objects\<close>

definition FD_READ :: u32 where "FD_READ = 1"
definition FD_WRITE :: u32 where "FD_WRITE = 2"
definition FD_ACCEPT :: u32 where "FD_ACCEPT = 8"
definition FD_CONNECT :: u32 where "FD_CONNECT = 16"
definition FD_CLOSE :: u32 where "FD_CLOSE = 32"

lemmas fd_codes = FD_READ_def FD_WRITE_def FD_ACCEPT_def FD_CONNECT_def FD_CLOSE_def

datatype conn_state = Cs_wait4connect | Cs_connected | Cs_closed

text \<open>
  \<open>tcp_conn_struct\<close>.  The address is \<^const>\<open>None\<close> while it is uninitialised; \<open>guess\<close> points
  to a \<open>uint32_t\<close> that the connection alone owns; the semaphore is its count.
\<close>

record conn =
  sock :: fd
  conn_addr :: "sockaddr option"
  cbs :: callbacks
  conn_recv :: addr
  conn_guess :: u32
  close_sem :: nat
  checkbyte :: u8
  conn_st :: conn_state

definition new_conn_struct :: "fd \<Rightarrow> callbacks \<Rightarrow> conn" where
  "new_conn_struct socket cb = \<lparr>sock = socket, conn_addr = None, cbs = cb, conn_recv = 0,
     conn_guess = 0, close_sem = 0, checkbyte = 255, conn_st = Cs_wait4connect\<rparr>"

record iov =
  iov_sock :: fd
  iov_code :: u32
  iov_conn :: addr

record recv_req =
  recv_iov :: iov
  recv_size :: u32
  recv_data :: "u8 list"

record send_req =
  send_iov :: iov
  break_sem :: "nat option"
  total_bytes :: u32
  sent_bytes :: u32
  sent_cb :: "cbid option"
  send_data :: "u8 list"

definition MAX_WBUF_SIZE :: nat where "MAX_WBUF_SIZE = 65536"

text \<open>The state every dispatcher has: the outside world, and the heap.\<close>

record 'w base = "'w outside" +
  conn_heap :: "addr \<Rightarrow> conn option"
  recv_heap :: "addr \<Rightarrow> recv_req option"
  send_heap :: "addr \<Rightarrow> send_req option"
  overlap_heap :: "addr \<Rightarrow> iov option"
  accept_heap :: "addr \<Rightarrow> iov option"
  last_addr :: addr

subsection \<open>Dereferencing\<close>

definition deref :: "('s \<Rightarrow> addr \<Rightarrow> 'o option) \<Rightarrow> addr \<Rightarrow> ('s, 'o) prog" where
  "deref heap p = (\<lambda>s. if p = 0 then (Inl Null_deref, s)
     else case heap s p of None \<Rightarrow> (Inl Dangling, s) | Some x \<Rightarrow> (Inr x, s))"

lemma wp_deref [wp_simps]:
  "wp (deref heap p) Q E s = (if p = 0 then E Null_deref s
     else case heap s p of None \<Rightarrow> E Dangling s | Some x \<Rightarrow> Q x s)"
  by (simp add: wp_def deref_def split: option.splits)

definition set_conn :: "addr \<Rightarrow> (conn \<Rightarrow> conn) \<Rightarrow> (('w, 'z) base_scheme, unit) prog" where
  "set_conn p f = bnd (deref conn_heap p) (\<lambda>c. modify (\<lambda>s. s\<lparr>conn_heap := (conn_heap s)(p \<mapsto> f c)\<rparr>))"

definition set_recv :: "addr \<Rightarrow> (recv_req \<Rightarrow> recv_req) \<Rightarrow> (('w, 'z) base_scheme, unit) prog" where
  "set_recv p f = bnd (deref recv_heap p) (\<lambda>c. modify (\<lambda>s. s\<lparr>recv_heap := (recv_heap s)(p \<mapsto> f c)\<rparr>))"

definition set_send :: "addr \<Rightarrow> (send_req \<Rightarrow> send_req) \<Rightarrow> (('w, 'z) base_scheme, unit) prog" where
  "set_send p f = bnd (deref send_heap p) (\<lambda>c. modify (\<lambda>s. s\<lparr>send_heap := (send_heap s)(p \<mapsto> f c)\<rparr>))"

subsection \<open>Reference counting and destructors\<close>

definition conn_addref :: "'w ext \<Rightarrow> addr \<Rightarrow> string \<Rightarrow> (('w, 'z) base_scheme, unit) prog" where
  "conn_addref ext p mark = bnd (deref conn_heap p) (\<lambda>_. invoke ext (Addref (ConnObj p) mark))"

definition destroy_conn :: "addr \<Rightarrow> (('w, 'z) base_scheme, unit) prog" where
  "destroy_conn p = modify (\<lambda>s. s\<lparr>conn_heap := (conn_heap s)(p := None)\<rparr>)"

definition conn_release :: "'w ext \<Rightarrow> addr \<Rightarrow> string \<Rightarrow> (('w, 'z) base_scheme, unit) prog" where
  "conn_release ext p mark = bnd (deref conn_heap p) (\<lambda>_.
     bnd (call ext (Release (ConnObj p) mark)) (\<lambda>r. whenever (rv r \<noteq> 0) (destroy_conn p)))"

definition recv_addref :: "'w ext \<Rightarrow> addr \<Rightarrow> string \<Rightarrow> (('w, 'z) base_scheme, unit) prog" where
  "recv_addref ext p mark = bnd (deref recv_heap p) (\<lambda>_. invoke ext (Addref (RecvObj p) mark))"

definition destroy_recv :: "'w ext \<Rightarrow> addr \<Rightarrow> recv_req \<Rightarrow> (('w, 'z) base_scheme, unit) prog" where
  "destroy_recv ext p rr = andthen (conn_release ext (iov_conn (recv_iov rr)) ''~recv_req_struct'')
     (modify (\<lambda>s. s\<lparr>recv_heap := (recv_heap s)(p := None)\<rparr>))"

definition recv_release :: "'w ext \<Rightarrow> addr \<Rightarrow> string \<Rightarrow> (('w, 'z) base_scheme, unit) prog" where
  "recv_release ext p mark = bnd (deref recv_heap p) (\<lambda>rr.
     bnd (call ext (Release (RecvObj p) mark)) (\<lambda>r. whenever (rv r \<noteq> 0) (destroy_recv ext p rr)))"

definition send_addref :: "'w ext \<Rightarrow> addr \<Rightarrow> string \<Rightarrow> (('w, 'z) base_scheme, unit) prog" where
  "send_addref ext p mark = bnd (deref send_heap p) (\<lambda>_. invoke ext (Addref (SendObj p) mark))"

definition destroy_send :: "'w ext \<Rightarrow> addr \<Rightarrow> send_req \<Rightarrow> (('w, 'z) base_scheme, unit) prog" where
  "destroy_send ext p sr = andthen (conn_release ext (iov_conn (send_iov sr)) ''~send_req_struct'')
     (modify (\<lambda>s. s\<lparr>send_heap := (send_heap s)(p := None)\<rparr>))"

definition send_release :: "'w ext \<Rightarrow> addr \<Rightarrow> string \<Rightarrow> (('w, 'z) base_scheme, unit) prog" where
  "send_release ext p mark = bnd (deref send_heap p) (\<lambda>sr.
     bnd (call ext (Release (SendObj p) mark)) (\<lambda>r. whenever (rv r \<noteq> 0) (destroy_send ext p sr)))"

definition overlap_addref :: "'w ext \<Rightarrow> addr \<Rightarrow> string \<Rightarrow> (('w, 'z) base_scheme, unit) prog" where
  "overlap_addref ext p mark = bnd (deref overlap_heap p) (\<lambda>_. invoke ext (Addref (OverlapObj p) mark))"

definition overlap_release :: "'w ext \<Rightarrow> addr \<Rightarrow> string \<Rightarrow> (('w, 'z) base_scheme, unit) prog" where
  "overlap_release ext p mark = bnd (deref overlap_heap p) (\<lambda>_.
     bnd (call ext (Release (OverlapObj p) mark)) (\<lambda>r.
       whenever (rv r \<noteq> 0) (modify (\<lambda>s. s\<lparr>overlap_heap := (overlap_heap s)(p := None)\<rparr>))))"

definition accept_addref :: "'w ext \<Rightarrow> addr \<Rightarrow> string \<Rightarrow> (('w, 'z) base_scheme, unit) prog" where
  "accept_addref ext p mark = bnd (deref accept_heap p) (\<lambda>_. invoke ext (Addref (AcceptObj p) mark))"

definition accept_release :: "'w ext \<Rightarrow> addr \<Rightarrow> string \<Rightarrow> (('w, 'z) base_scheme, unit) prog" where
  "accept_release ext p mark = bnd (deref accept_heap p) (\<lambda>_.
     bnd (call ext (Release (AcceptObj p) mark)) (\<lambda>r.
       whenever (rv r \<noteq> 0) (modify (\<lambda>s. s\<lparr>accept_heap := (accept_heap s)(p := None)\<rparr>))))"

subsection \<open>Constructors\<close>

text \<open>\<open>new\<close> takes the address after the last one used.\<close>

definition new_conn :: "fd \<Rightarrow> callbacks \<Rightarrow> (('w, 'z) base_scheme, addr) prog" where
  "new_conn socket cb = (\<lambda>s. let p = Suc (last_addr s) in
     (Inr p, s\<lparr>conn_heap := (conn_heap s)(p \<mapsto> new_conn_struct socket cb), last_addr := p\<rparr>))"

definition new_recv_req :: "'w ext \<Rightarrow> addr \<Rightarrow> (('w, 'z) base_scheme, addr) prog" where
  "new_recv_req ext cp = bnd (deref conn_heap cp) (\<lambda>c. bnd (gets (\<lambda>s. Suc (last_addr s))) (\<lambda>p.
     andthen (modify (\<lambda>s. s\<lparr>recv_heap := (recv_heap s)(p \<mapsto>
         \<lparr>recv_iov = \<lparr>iov_sock = sock c, iov_code = FD_READ, iov_conn = cp\<rparr>,
          recv_size = 0, recv_data = []\<rparr>), last_addr := p\<rparr>))
     (andthen (conn_addref ext cp ''recv_req_struct'') (ret p))))"

text \<open>
  A request for sending.  On Linux the constructor initialises the semaphore, on Windows it
  leaves it as it is.
\<close>

definition alloc_send_req :: "nat option \<Rightarrow> 'w ext \<Rightarrow> addr \<Rightarrow> (('w, 'z) base_scheme, addr) prog" where
  "alloc_send_req sem ext cp = bnd (deref conn_heap cp) (\<lambda>c. bnd (gets (\<lambda>s. Suc (last_addr s))) (\<lambda>p.
     andthen (modify (\<lambda>s. s\<lparr>send_heap := (send_heap s)(p \<mapsto>
         \<lparr>send_iov = \<lparr>iov_sock = sock c, iov_code = FD_WRITE, iov_conn = cp\<rparr>,
          break_sem = sem, total_bytes = 0, sent_bytes = 0, sent_cb = None, send_data = []\<rparr>),
         last_addr := p\<rparr>))
     (andthen (conn_addref ext cp ''send_req_struct'') (ret p))))"

definition new_send_req :: "'w ext \<Rightarrow> addr \<Rightarrow> (('w, 'z) base_scheme, addr) prog" where
  "new_send_req = alloc_send_req (Some 0)"

definition win_new_send_req :: "'w ext \<Rightarrow> addr \<Rightarrow> (('w, 'z) base_scheme, addr) prog" where
  "win_new_send_req = alloc_send_req None"

text \<open>
  The semaphore of a connection: \<open>sem_post\<close>, and what a thread in \<open>sem_wait\<close> sees, which goes on
  when the count is positive.
\<close>

definition close_post :: "addr \<Rightarrow> (('w, 'z) base_scheme, unit) prog" where
  "close_post p = set_conn p (close_sem_update Suc)"

definition close_wait :: "addr \<Rightarrow> (('w, 'z) base_scheme, bool) prog" where
  "close_wait p = bnd (deref conn_heap p) (\<lambda>c.
     if close_sem c = 0 then ret False
     else andthen (set_conn p (close_sem_update (\<lambda>n. n - 1))) (ret True))"

text \<open>
  The semaphore of a request, \<^const>\<open>None\<close> when it is not initialised or was destroyed:
  \<open>sem_post\<close>, and what a thread in \<open>sem_wait\<close> sees, which goes on when the count is positive
  and leaves \<open>after\<close> of it.
\<close>

definition break_post :: "addr \<Rightarrow> (('w, 'z) base_scheme, unit) prog" where
  "break_post sr = bnd (deref send_heap sr) (\<lambda>q. case break_sem q of None \<Rightarrow> throw Bad_semaphore
     | Some n \<Rightarrow> set_send sr (break_sem_update (\<lambda>_. Some (Suc n))))"

definition break_wait :: "(nat \<Rightarrow> nat option) \<Rightarrow> addr \<Rightarrow> (('w, 'z) base_scheme, bool) prog" where
  "break_wait after sr = bnd (deref send_heap sr) (\<lambda>q. case break_sem q of None \<Rightarrow> throw Bad_semaphore
     | Some n \<Rightarrow> if n = 0 then ret False
         else andthen (set_send sr (break_sem_update (\<lambda>_. after (n - 1)))) (ret True))"

definition new_overlap :: "fd \<Rightarrow> u32 \<Rightarrow> (('w, 'z) base_scheme, addr) prog" where
  "new_overlap socket code = (\<lambda>s. let p = Suc (last_addr s) in
     (Inr p, s\<lparr>overlap_heap := (overlap_heap s)(p \<mapsto>
        \<lparr>iov_sock = socket, iov_code = code, iov_conn = 0\<rparr>), last_addr := p\<rparr>))"

definition new_accept :: "fd \<Rightarrow> u32 \<Rightarrow> (('w, 'z) base_scheme, addr) prog" where
  "new_accept socket code = (\<lambda>s. let p = Suc (last_addr s) in
     (Inr p, s\<lparr>accept_heap := (accept_heap s)(p \<mapsto>
        \<lparr>iov_sock = socket, iov_code = code, iov_conn = 0\<rparr>), last_addr := p\<rparr>))"

text \<open>\<open>send_req_struct::callback\<close>: the callback is called at most once, then forgotten.\<close>

definition send_callback :: "'w ext \<Rightarrow> addr \<Rightarrow> bool \<Rightarrow> (('w, 'z) base_scheme, unit) prog" where
  "send_callback ext p value = bnd (deref send_heap p) (\<lambda>sr. case sent_cb sr of
       None \<Rightarrow> ret ()
     | Some cb \<Rightarrow> bnd (callback ext (Cb_sent p cb value)) (\<lambda>_.
         set_send p (sent_cb_update (\<lambda>_. None))))"

text \<open>
  Calls through a connection's \<open>boost::function\<close> fields; an empty one throws
  \<open>bad_function_call\<close>.
\<close>

definition call_connected :: "'w ext \<Rightarrow> addr \<Rightarrow> bool \<Rightarrow> (('w, 'z) base_scheme, unit) prog" where
  "call_connected ext p ok = bnd (deref conn_heap p) (\<lambda>c. case cb_connected (cbs c) of
       None \<Rightarrow> throw Bad_function_call
     | Some cb \<Rightarrow> bnd (callback ext (Cb_connected p cb ok)) (\<lambda>_. ret ()))"

definition call_closed :: "'w ext \<Rightarrow> addr \<Rightarrow> (('w, 'z) base_scheme, unit) prog" where
  "call_closed ext p = bnd (deref conn_heap p) (\<lambda>c. case cb_closed (cbs c) of
       None \<Rightarrow> throw Bad_function_call
     | Some cb \<Rightarrow> bnd (callback ext (Cb_closed p cb)) (\<lambda>_. ret ()))"

definition call_read :: "'w ext \<Rightarrow> addr \<Rightarrow> u8 list \<Rightarrow> (('w, 'z) base_scheme, unit) prog" where
  "call_read ext p data = bnd (deref conn_heap p) (\<lambda>c. case cb_read (cbs c) of
       None \<Rightarrow> throw Bad_function_call
     | Some cb \<Rightarrow> bnd (callback ext (Cb_read p cb data)) (\<lambda>_. ret ()))"

end
