(* ===== verification/Pipes.thy ===== *)
theory Pipes
  imports Externals
begin

section \<open>The pipes that wake the reactors up\<close>

text \<open>
  Every reactor of the Unix systems owns a pipe: a thread wakes the reactor up by writing
  an \<open>int\<close> to it, and the reactor reads the \<open>int\<close> back when its wait reports the pipe as
  readable.  This theory holds the bytes of an \<open>int\<close>, what POSIX promises of a pipe, and
  the contract of a reactor whose wake-ups arrive in the order they were made.
\<close>

subsection \<open>The bytes of an int\<close>

text \<open>
  An \<open>int\<close> in memory, least byte first: its four bytes, and what \<open>read(fd,&n,sizeof(n))\<close>
  leaves in an \<open>int\<close> that holds 0 when it reads the bytes \<open>bs\<close>.
\<close>

definition int_bytes :: "int \<Rightarrow> u8 list" where
  "int_bytes n = map (\<lambda>k. word_of_int (drop_bit (8 * k) n)) [0, 1, 2, 3]"

definition int_of_bytes :: "u8 list \<Rightarrow> int" where
  "int_of_bytes bs = sint (word_rcat (rev (take 4 bs)) :: u32)"

definition is_int32 :: "int \<Rightarrow> bool" where
  "is_int32 n \<longleftrightarrow> - (2 ^ 31) \<le> n \<and> n < 2 ^ 31"

lemma length_int_bytes [simp]: "length (int_bytes n) = 4"
  by (simp add: int_bytes_def)

lemma mod_split: "0 \<le> c \<Longrightarrow> (n::int) mod (256 * c) = n mod 256 + 256 * (n div 256 mod c)"
  using zmod_zmult2_eq [of c n 256] by simp

lemma div_bytes: "(n::int) div 256 div 256 = n div 65536" "(n::int) div 65536 div 256 = n div 16777216"
  using zdiv_zmult2_eq [of 256 n 256] zdiv_zmult2_eq [of 256 n 65536] by simp_all

lemma mod_bytes:
  "(n::int) mod 4294967296 = n mod 256 + 256 * (n div 256 mod 256 + 256 * (n div 65536 mod 256
      + 256 * (n div 16777216 mod 256)))"
proof -
  note d = div_bytes [of n]
  have "n mod 4294967296 = n mod 256 + 256 * (n div 256 mod 16777216)"
    using mod_split [of 16777216 n] by simp
  moreover have "n div 256 mod 16777216 = n div 256 mod 256 + 256 * (n div 65536 mod 65536)"
    using mod_split [of 65536 "n div 256"] d by simp
  moreover have "n div 65536 mod 65536 = n div 65536 mod 256 + 256 * (n div 16777216 mod 256)"
    using mod_split [of 256 "n div 65536"] d by simp
  ultimately show ?thesis by (simp only:)
qed

lemma word_rcat_int_bytes: "word_rcat (rev (int_bytes n)) = (word_of_int n :: u32)"
proof -
  have "horner_sum uint 256 (int_bytes n) = n mod 4294967296"
    by (simp only: mod_bytes) (simp add: int_bytes_def horner_sum_foldr uint_word_of_int drop_bit_eq_div)
  then show ?thesis by (simp add: word_rcat_def word_of_int_eq_iff take_bit_eq_mod)
qed

lemma sint_of_int32: "is_int32 n \<Longrightarrow> sint (word_of_int n :: u32) = n"
  by (simp add: is_int32_def sint_sbintrunc' signed_take_bit_int_eq_self)

lemma int_of_int_bytes [simp]: "is_int32 n \<Longrightarrow> int_of_bytes (int_bytes n) = n"
  by (simp add: int_of_bytes_def word_rcat_int_bytes sint_of_int32)

subsection \<open>What POSIX promises of a pipe\<close>

text \<open>
  \<open>buf\<close> tells the bytes that are in the pipe in a state of the outside world.  A write adds
  the bytes of the \<open>int\<close> at the end, a read of four bytes takes them from the front as long
  as there are any, and nothing is lost while the pipe has room.
\<close>

definition is_pipe :: "'w ext \<Rightarrow> fd \<Rightarrow> fd \<Rightarrow> ('w \<Rightarrow> u8 list) \<Rightarrow> bool" where
  "is_pipe ext pin pout buf \<longleftrightarrow>
     (\<forall>w n. buf (snd (ext (Os (Write pout n)) w)) = buf w @ int_bytes n) \<and>
     (\<forall>w. buf w \<noteq> [] \<longrightarrow>
        rv (fst (ext (Os (Read pin)) w)) = int (length (take 4 (buf w))) \<and>
        r_bytes (fst (ext (Os (Read pin)) w)) = take 4 (buf w) \<and>
        buf (snd (ext (Os (Read pin)) w)) = drop 4 (buf w))"

lemma pipe_write: "is_pipe ext pin pout buf \<Longrightarrow>
    buf (snd (ext (Os (Write pout n)) w)) = buf w @ int_bytes n"
  by (simp add: is_pipe_def)

text \<open>The pipe holds the wake-ups \<open>ns\<close>.\<close>

definition pipe_holds :: "('w \<Rightarrow> u8 list) \<Rightarrow> int list \<Rightarrow> 'w \<Rightarrow> bool" where
  "pipe_holds buf ns w \<longleftrightarrow> buf w = concat (map int_bytes ns) \<and> (\<forall>n \<in> set ns. is_int32 n)"

lemma pipe_holds_Nil [simp]: "pipe_holds buf [] w \<longleftrightarrow> buf w = []"
  by (simp add: pipe_holds_def)

lemma pipe_holds_write: "is_pipe ext pin pout buf \<Longrightarrow> pipe_holds buf ns w \<Longrightarrow> is_int32 n \<Longrightarrow>
    pipe_holds buf (ns @ [n]) (snd (ext (Os (Write pout n)) w))"
  by (auto simp: pipe_holds_def pipe_write)

lemma pipe_holds_nonempty: "pipe_holds buf (n # ns) w \<Longrightarrow> buf w \<noteq> []"
  by (auto simp: pipe_holds_def simp flip: length_0_conv)

lemma pipe_holds_read:
  assumes "is_pipe ext pin pout buf" and "pipe_holds buf (n # ns) w"
  shows "rv (fst (ext (Os (Read pin)) w)) = 4 \<and>
     r_bytes (fst (ext (Os (Read pin)) w)) = int_bytes n \<and> is_int32 n \<and>
     pipe_holds buf ns (snd (ext (Os (Read pin)) w))"
proof -
  have b: "buf w = int_bytes n @ concat (map int_bytes ns)" "is_int32 n" "\<forall>n \<in> set ns. is_int32 n"
    using assms(2) by (auto simp: pipe_holds_def)
  have "rv (fst (ext (Os (Read pin)) w)) = int (length (take 4 (buf w)))"
    "r_bytes (fst (ext (Os (Read pin)) w)) = take 4 (buf w)"
    "buf (snd (ext (Os (Read pin)) w)) = drop 4 (buf w)"
    using assms(1) pipe_holds_nonempty [OF assms(2)] by (simp_all add: is_pipe_def)
  then show ?thesis using b by (simp add: pipe_holds_def)
qed

subsection \<open>Wake-ups in order\<close>

text \<open>
  The contract of a reactor: \<open>wake\<close> makes a wake-up pending, \<open>wait\<close> reports the oldest one.
  A thread that waits as often as the reactor was woken up is told every wake-up, in order.
\<close>

fun repeatedly :: "('s, 'a) prog \<Rightarrow> nat \<Rightarrow> ('s, 'a list) prog" where
  "repeatedly m 0 = ret []"
| "repeatedly m (Suc n) = bnd m (\<lambda>x. bnd (repeatedly m n) (\<lambda>xs. ret (x # xs)))"

locale wakeups =
  fixes wake :: "int \<Rightarrow> ('s, unit) prog"
    and wait :: "('s, 'r) prog"
    and report :: "int \<Rightarrow> 'r"
    and holds :: "int list \<Rightarrow> 's \<Rightarrow> bool"
  assumes wake_adds: "holds ns s \<Longrightarrow> is_int32 n \<Longrightarrow>
      wp (wake n) (\<lambda>_. holds (ns @ [n])) (\<lambda>_ _. False) s"
    and wait_takes: "holds (n # ns) s \<Longrightarrow>
      wp wait (\<lambda>r t. r = report n \<and> holds ns t) (\<lambda>_ _. False) s"
begin

lemma wake_all: "holds ms s \<Longrightarrow> \<forall>n \<in> set ns. is_int32 n \<Longrightarrow>
    wp (for_each wake ns) (\<lambda>_. holds (ms @ ns)) (\<lambda>_ _. False) s"
proof (induction ns arbitrary: ms s)
  case (Cons n ns)
  have "wp (wake n) (\<lambda>_ t. wp (for_each wake ns) (\<lambda>_. holds (ms @ n # ns)) (\<lambda>_ _. False) t)
      (\<lambda>_ _. False) s"
    by (rule wp_mono [OF wake_adds [OF Cons.prems(1)]]) (use Cons.prems(2) Cons.IH in fastforce)+
  then show ?case by (simp add: wp_simps)
qed (simp add: wp_simps)

lemma wait_all: "holds (ns @ ms) s \<Longrightarrow>
    wp (repeatedly wait (length ns)) (\<lambda>rs t. rs = map report ns \<and> holds ms t) (\<lambda>_ _. False) s"
proof (induction ns arbitrary: s)
  case (Cons n ns)
  have "wp wait (\<lambda>r t. wp (repeatedly wait (length ns))
      (\<lambda>rs u. r # rs = map report (n # ns) \<and> holds ms u) (\<lambda>_ _. False) t) (\<lambda>_ _. False) s"
    by (rule wp_mono [OF wait_takes [OF Cons.prems [simplified]]])
      (auto intro: wp_mono [OF Cons.IH])
  then show ?case by (simp add: wp_bnd_eta wp_ret_eta)
qed (simp add: wp_simps)

theorem wakeups_in_order:
  assumes "holds [] s" and "\<forall>n \<in> set ns. is_int32 n"
  shows "wp (andthen (for_each wake ns) (repeatedly wait (length ns)))
     (\<lambda>rs t. rs = map report ns \<and> holds [] t) (\<lambda>_ _. False) s"
proof -
  have "wp (for_each wake ns) (\<lambda>_. wp (repeatedly wait (length ns))
      (\<lambda>rs t. rs = map report ns \<and> holds [] t) (\<lambda>_ _. False)) (\<lambda>_ _. False) s"
    by (rule wp_mono [OF wake_all [OF assms]]) (simp_all add: wait_all)
  then show ?thesis by (simp add: wp_simps)
qed

end

end
