(* ===== verification/Linux_Reactor.thy ===== *)
theory Linux_Reactor
  imports Connection Std_Map Pipes
begin

section \<open>The epoll reactor (linux_reactor.cpp, imulti_reactor.h)\<close>

text \<open>
  The reactor waits for readiness of sockets and for wake-ups, which are integers written
  to a pipe.  It answers with a map from sockets to what happened; the key 0 stands for a
  wake-up.  The log file is not modelled.
\<close>

subsection \<open>State\<close>

text \<open>A thread is a number (\<open>pthread_t\<close>); the calling thread is an argument.\<close>

record linux_reactor =
  pipe_in :: fd
  pipe_out :: fd
  epfd :: fd
  threads :: "nat list"

record interrupt_info =
  ii_code :: u32
  ii_conn :: addr
  sreq :: addr

definition new_interrupt_info :: interrupt_info where
  "new_interrupt_info = \<lparr>ii_code = 0, ii_conn = 0, sreq = 0\<rparr>"

type_synonym interrupt = "(fd, interrupt_info) std_map"

subsection \<open>Construction and registration\<close>

text \<open>If \<open>pipe\<close> fails the two descriptors hold what was in memory: the answer's pair, too.\<close>

definition new_linux_reactor :: "'w ext \<Rightarrow> (('w, 'z) base_scheme, linux_reactor) prog" where
  "new_linux_reactor ext =
     bnd (call ext (Os Pipe)) (\<lambda>p.
     andthen (whenever (rv p = 0)
       (andthen (invoke ext (Os (Set_nonblock (fst (r_fds p)))))
                (invoke ext (Os (Set_nonblock (snd (r_fds p)))))))
     (bnd (checked ext (Epoll Epoll_create) ''epoll_create'') (\<lambda>ep.
      bnd (checked ext (Epoll (Epoll_add ep (fst (r_fds p)) (or (or EPOLLIN EPOLLERR) EPOLLHUP)
             (data_of_fd (fst (r_fds p))))) ''epoll_ctl'') (\<lambda>_.
      ret \<lparr>pipe_in = fst (r_fds p), pipe_out = snd (r_fds p), epfd = ep, threads = []\<rparr>))))"

definition delete_linux_reactor :: "'w ext \<Rightarrow> linux_reactor \<Rightarrow> (('w, 'z) base_scheme, unit) prog" where
  "delete_linux_reactor ext R =
     andthen (whenever (pipe_in R \<noteq> -1) (invoke ext (Os (Close (pipe_in R)))))
     (andthen (whenever (pipe_out R \<noteq> -1) (invoke ext (Os (Close (pipe_out R)))))
     (invoke ext (Os (Close (epfd R)))))"

definition add_thread :: "nat \<Rightarrow> linux_reactor \<Rightarrow> linux_reactor" where
  "add_thread bthread R = R\<lparr>threads := threads R @ [bthread]\<rparr>"

definition add_conn :: "'w ext \<Rightarrow> linux_reactor \<Rightarrow> addr \<Rightarrow> (('w, 'z) base_scheme, unit) prog" where
  "add_conn ext R p = bnd (deref conn_heap p) (\<lambda>c.
     bnd (checked ext (Epoll (Epoll_add (epfd R) (sock c)
            (or (or EPOLLIN EPOLLOUT) EPOLLET) (data_of_ptr p))) ''epoll_ctl'') (\<lambda>_. ret ()))"

definition add_event :: "'w ext \<Rightarrow> linux_reactor \<Rightarrow> fd \<Rightarrow> (('w, 'z) base_scheme, unit) prog" where
  "add_event ext R socket = bnd (checked ext (Epoll (Epoll_add (epfd R) socket
     (or EPOLLIN EPOLLOUT) (data_of_fd socket))) ''epoll_ctl'') (\<lambda>_. ret ())"

definition del_event :: "'w ext \<Rightarrow> linux_reactor \<Rightarrow> fd \<Rightarrow> (('w, 'z) base_scheme, unit) prog" where
  "del_event ext R socket = bnd (checked ext (Epoll (Epoll_del (epfd R) socket
     (or EPOLLIN EPOLLOUT) (data_of_fd socket))) ''epoll_ctl'') (\<lambda>_. ret ())"

text \<open>A thread of the list never wakes the reactor up; any other one writes to the pipe.\<close>

definition reactor_stop :: "'w ext \<Rightarrow> linux_reactor \<Rightarrow> nat \<Rightarrow> fd \<Rightarrow> (('w, 'z) base_scheme, unit) prog" where
  "reactor_stop ext R self socket =
     (if self \<in> set (threads R) then ret () else invoke ext (Os (Write (pipe_out R) socket)))"

subsection \<open>Waiting\<close>

text \<open>
  \<open>lb_ag\<close>: the wait is repeated while a signal interrupts it, at most \<open>fuel\<close> times here;
  the array has room for 128 events.
\<close>

fun wait_events :: "'w ext \<Rightarrow> fd \<Rightarrow> nat \<Rightarrow> (('w, 'z) base_scheme, epoll_event list) prog" where
  "wait_events ext ep 0 = throw Out_of_fuel"
| "wait_events ext ep (Suc fuel) = bnd (call ext (Epoll (Epoll_wait ep 128))) (\<lambda>r.
     if rv r = -1 then
       (if err r = EINTR then wait_events ext ep fuel
        else throw (Lib_exception ''epoll_wait'' (err r)))
     else ret (take (nat (rv r)) (r_events r)))"

definition ready_codes :: "u32 \<Rightarrow> u32" where
  "ready_codes events =
     or (or (if and events EPOLLIN \<noteq> 0 then FD_READ else 0)
            (if and events EPOLLOUT \<noteq> 0 then FD_WRITE else 0))
        (if and events EPOLLERR \<noteq> 0 then FD_CLOSE else 0)"

definition decode_event :: "'w ext \<Rightarrow> linux_reactor \<Rightarrow> epoll_event \<Rightarrow>
    (('w, 'z) base_scheme, fd \<times> interrupt_info) prog" where
  "decode_event ext R ev =
     (if data_fd (ee_data ev) = pipe_in R then
        bnd (call ext (Os (Read (data_fd (ee_data ev))))) (\<lambda>r.
          ret (if rv r \<le> 0 then 0 else int_of_bytes (take (nat (rv r)) (r_bytes r)),
               new_interrupt_info\<lparr>ii_code := 0\<rparr>))
      else
        bnd (deref conn_heap (data_ptr (ee_data ev))) (\<lambda>c.
          ret (sock c, new_interrupt_info\<lparr>ii_conn := data_ptr (ee_data ev),
                         ii_code := ready_codes (ee_events ev)\<rparr>)))"

fun decode_events :: "'w ext \<Rightarrow> linux_reactor \<Rightarrow> epoll_event list \<Rightarrow> interrupt \<Rightarrow>
    (('w, 'z) base_scheme, interrupt) prog" where
  "decode_events ext R [] result = ret result"
| "decode_events ext R (ev # evs) result = bnd (decode_event ext R ev) (\<lambda>(k, info).
     decode_events ext R evs (map_insert k info result))"

definition get_interrupt :: "'w ext \<Rightarrow> linux_reactor \<Rightarrow> nat \<Rightarrow> interrupt \<Rightarrow>
    (('w, 'z) base_scheme, bool \<times> interrupt) prog" where
  "get_interrupt ext R fuel result = bnd (wait_events ext (epfd R) fuel) (\<lambda>evs.
     bnd (decode_events ext R evs result) (\<lambda>result'. ret (evs \<noteq> [], result')))"

end
