(* ===== verification/Tcp_Dispatcher.thy ===== *)
theory Tcp_Dispatcher
  imports Bwstop Messages Linux_Reactor
begin

section \<open>The Linux dispatcher (tcp_dispatcher.h, tcp_dispatcher.cpp)\<close>

text \<open>
  One thread (\<open>thread_proc\<close>) waits on the reactor and does all the work; the functions of
  the interface, called in any thread, create objects, queue a message and wake it up.
  Each function below is the whole function of the same name in the source; a function
  that blocks on a semaphore is its part before and its part after the wait.
  \<open>TRACE\<close> and \<open>printf\<close> are not modelled.
\<close>

subsection \<open>State\<close>

text \<open>
  The members of \<open>class tcp_dispatcher\<close> and the global \<open>sockets_counter\<close>.  A
  \<open>scoped_ptr\<close> that is null is \<^const>\<open>None\<close>, or 0 for \<open>ec\<close>.  \<open>outgoings\<close> maps a connection
  to its vector of send requests, which only the map points to.
\<close>

record 'w tcp = "'w base" +
  listening_socket :: fd
  ec :: addr
  mr :: "linux_reactor option"
  accepted :: "cbid option"
  i_messages :: "internal_messages option"
  outgoings :: "(addr, addr list) std_map"
  bws :: bwstop
  sockets_counter :: u32

subsection \<open>Access to the members\<close>

definition with_mr :: "(linux_reactor \<Rightarrow> (('w, 'z) tcp_scheme, 'a) prog) \<Rightarrow> (('w, 'z) tcp_scheme, 'a) prog" where
  "with_mr f = bnd (gets mr) (\<lambda>m. case m of None \<Rightarrow> throw Null_deref | Some R \<Rightarrow> f R)"

definition with_messages :: "(internal_messages \<Rightarrow> internal_messages) \<Rightarrow> (('w, 'z) tcp_scheme, unit) prog" where
  "with_messages f = bnd (gets i_messages) (\<lambda>m. case m of None \<Rightarrow> throw Null_deref
     | Some q \<Rightarrow> modify (\<lambda>s. s\<lparr>i_messages := Some (f q)\<rparr>))"

text \<open>\<open>i_messages->push(code,ptr); mr->stop();\<close> in the thread \<open>self\<close>.\<close>

definition wake :: "'w ext \<Rightarrow> nat \<Rightarrow> (('w, 'z) tcp_scheme, unit) prog" where
  "wake ext self = with_mr (\<lambda>R. reactor_stop ext R self 0)"

definition post :: "'w ext \<Rightarrow> nat \<Rightarrow> u8 \<Rightarrow> (('w, 'z) tcp_scheme, unit) prog" where
  "post ext self code = andthen (with_messages (push_code code)) (wake ext self)"

definition post_ptr :: "'w ext \<Rightarrow> nat \<Rightarrow> u8 \<Rightarrow> addr \<Rightarrow> (('w, 'z) tcp_scheme, unit) prog" where
  "post_ptr ext self code p = andthen (with_messages (push_ptr code p)) (wake ext self)"

text \<open>
  The limiter's functions read the clock when a limit is set; \<open>ub\<close> is what the platform
  makes of a conversion that C++ leaves undefined.
\<close>

definition limiter_update :: "(bwstop \<Rightarrow> bwstop) \<Rightarrow> (('w, 'z) tcp_scheme, unit) prog" where
  "limiter_update f = modify (\<lambda>s. s\<lparr>bws := f (bws s)\<rparr>)"

definition limiter_insert :: "'w ext \<Rightarrow> addr \<Rightarrow> u32 \<Rightarrow> (('w, 'z) tcp_scheme, unit) prog" where
  "limiter_insert ext p n = bnd (gets bws) (\<lambda>b. whenever (max_bw b \<noteq> 0)
     (bnd (call ext (Os Ftime)) (\<lambda>r. limiter_update (bw_insert p n (r_time r)))))"

definition limiter_recalc :: "'w ext \<Rightarrow> (double \<Rightarrow> u32) \<Rightarrow> (('w, 'z) tcp_scheme, bool) prog" where
  "limiter_recalc ext ub = bnd (gets bws) (\<lambda>b. if max_bw b = 0 then ret False
     else bnd (call ext (Os Ftime)) (\<lambda>r.
       andthen (limiter_update (\<lambda>b. snd (recalc ub (r_time r) b)))
         (ret (fst (recalc ub (r_time r) b)))))"

subsection \<open>Construction and destruction\<close>

definition listening_addr :: "u16 \<Rightarrow> sockaddr" where
  "listening_addr port = \<lparr>sin_addr = 0, sin_port = htons port\<rparr>"

text \<open>The body of the constructor's \<open>try\<close> block, for a port other than 0.\<close>

definition start_listening :: "'w ext \<Rightarrow> u16 \<Rightarrow> (('w, 'z) tcp_scheme, unit) prog" where
  "start_listening ext port =
     bnd (call ext (Os Socket)) (\<lambda>r.
     andthen (modify (\<lambda>s. s\<lparr>listening_socket := rv r\<rparr>))
     (if rv r = -1 then throw (Lib_exception ''socket'' (err r)) else
     bnd (checked ext (Os (Set_nonblock (rv r))) ''fcntl'') (\<lambda>_.
     bnd (checked ext (Os (Bind (rv r) (listening_addr port))) ''bind'') (\<lambda>_.
     bnd (checked ext (Os (Listen (rv r))) ''listen'') (\<lambda>_.
     bnd (new_linux_reactor ext) (\<lambda>R.
     andthen (modify (\<lambda>s. s\<lparr>mr := Some R\<rparr>))
     (bnd (call ext (Os Thread_create)) (\<lambda>t.
     if rv t \<noteq> 0 then throw (Lib_exception ''pthread_create'' (rv t)) else
     bnd (new_conn (rv r) no_callbacks) (\<lambda>p.
     andthen (modify (\<lambda>s. s\<lparr>ec := p\<rparr>))
     (andthen (add_conn ext R p)
     (modify (\<lambda>s. s\<lparr>i_messages := Some []\<rparr>))))))))))))"

text \<open>
  The whole constructor.  When it throws, the member \<open>mr\<close> is destroyed with the reactor
  it may hold.  The limiter starts without a limit; its uninitialised members hold \<open>j\<close>.
\<close>

definition new_tcp_dispatcher :: "'w ext \<Rightarrow> u32 \<Rightarrow> u16 \<Rightarrow> cbid option \<Rightarrow> (('w, 'z) tcp_scheme, unit) prog" where
  "new_tcp_dispatcher ext j port cb =
     andthen (modify (\<lambda>s. s\<lparr>sockets_counter := 0, bws := new_bwstop j \<lparr>tb_time = 0, tb_millitm = 0\<rparr> 0,
       listening_socket := -1, accepted := cb, ec := 0, mr := None, i_messages := None,
       outgoings := []\<rparr>))
     (whenever (port \<noteq> 0)
       (try_catch (start_listening ext port) (\<lambda>e.
         bnd (gets listening_socket) (\<lambda>l.
         andthen (whenever (l \<noteq> -1) (invoke ext (Os (Close l))))
         (bnd (gets mr) (\<lambda>m.
         andthen (case m of None \<Rightarrow> ret () | Some R \<Rightarrow> delete_linux_reactor ext R)
         (throw e)))))))"

text \<open>The destructor: up to the join, and after the thread has ended.\<close>

definition dtor_request :: "'w ext \<Rightarrow> nat \<Rightarrow> (('w, 'z) tcp_scheme, unit) prog" where
  "dtor_request ext self = post ext self P_EXIT"

definition dtor_finish :: "'w ext \<Rightarrow> (('w, 'z) tcp_scheme, unit) prog" where
  "dtor_finish ext =
     andthen (invoke ext (Os Thread_join))
     (bnd (gets sockets_counter) (\<lambda>n.
     andthen (assertion (n = 0))
     (bnd (gets mr) (\<lambda>m.
     andthen (case m of None \<Rightarrow> ret () | Some R \<Rightarrow> delete_linux_reactor ext R)
     (modify (\<lambda>s. s\<lparr>mr := None\<rparr>))))))"

subsection \<open>The interface\<close>

text \<open>A new non-blocking socket.  On an exception the caller closes the socket it got.\<close>

definition open_socket :: "'w ext \<Rightarrow> (('w, 'z) tcp_scheme, fd) prog" where
  "open_socket ext = bnd (checked ext (Os Socket) ''socket'') (\<lambda>d.
     bnd (call ext (Os (Set_nonblock d))) (\<lambda>r.
       if rv r = -1 then andthen (invoke ext (Os (Close d))) (throw (Lib_exception ''fcntl'' (err r)))
       else ret d))"

definition make_conn :: "'w ext \<Rightarrow> (('w, 'z) tcp_scheme, addr) prog" where
  "make_conn ext = try_catch
     (bnd (open_socket ext) (\<lambda>d.
      bnd (new_conn d no_callbacks) (\<lambda>p.
      andthen (conn_addref ext p ''make_conn'')
      (andthen (conn_addref ext p ''make_conn'')
      (ret p)))))
     (\<lambda>_. ret 0)"

definition peer_addr :: "u32 \<Rightarrow> u16 \<Rightarrow> sockaddr" where
  "peer_addr ip port = \<lparr>sin_addr = ip, sin_port = htons port\<rparr>"

definition new_recv_for :: "'w ext \<Rightarrow> addr \<Rightarrow> string \<Rightarrow> (('w, 'z) tcp_scheme, unit) prog" where
  "new_recv_for ext p mark = bnd (new_recv_req ext p) (\<lambda>rr.
     andthen (set_conn p (conn_recv_update (\<lambda>_. rr))) (recv_addref ext rr mark))"

text \<open>\<open>connect(conn,ip,port,cb)\<close> on the connection of an earlier \<open>make_conn\<close>.\<close>

definition connect_conn :: "'w ext \<Rightarrow> nat \<Rightarrow> addr \<Rightarrow> u32 \<Rightarrow> u16 \<Rightarrow> callbacks \<Rightarrow> (('w, 'z) tcp_scheme, unit) prog" where
  "connect_conn ext self p ip port cb = try_catch
     (andthen (set_conn p (conn_addr_update (\<lambda>_. Some (peer_addr ip port))))
     (andthen (set_conn p (cbs_update (\<lambda>_. cb)))
     (bnd (deref conn_heap p) (\<lambda>c.
      bnd (call ext (Os (Connect (sock c) (peer_addr ip port)))) (\<lambda>r.
      if rv r = -1 \<and> err r \<noteq> EINPROGRESS then throw (Lib_exception ''connect'' (err r)) else
      andthen (new_recv_for ext p ''from_connect'')
      (post_ptr ext self P_CREATE_CONNECTION p))))))
     (\<lambda>_. ret ())"

text \<open>\<open>connect(ip,port,cb)\<close>: the new connection, or null.\<close>

definition connect :: "'w ext \<Rightarrow> nat \<Rightarrow> u32 \<Rightarrow> u16 \<Rightarrow> callbacks \<Rightarrow> (('w, 'z) tcp_scheme, addr) prog" where
  "connect ext self ip port cb = try_catch
     (bnd (open_socket ext) (\<lambda>d.
      bnd (call ext (Os (Connect d (peer_addr ip port)))) (\<lambda>r.
      if rv r = -1 \<and> err r \<noteq> EINPROGRESS then
        andthen (invoke ext (Os (Close d))) (throw (Lib_exception ''connect'' (err r)))
      else
      bnd (new_conn d cb) (\<lambda>p.
      andthen (conn_addref ext p ''async_connect'')
      (andthen (conn_addref ext p ''async_connect'')
      (andthen (set_conn p (conn_addr_update (\<lambda>_. Some (peer_addr ip port))))
      (andthen (new_recv_for ext p ''from_connect'')
      (andthen (post_ptr ext self P_CREATE_CONNECTION p)
      (andthen (modify (\<lambda>s. s\<lparr>sockets_counter := sockets_counter s + 1\<rparr>))
      (ret p))))))))))
     (\<lambda>_. ret 0)"

definition close_conn :: "'w ext \<Rightarrow> nat \<Rightarrow> addr \<Rightarrow> (('w, 'z) tcp_scheme, unit) prog" where
  "close_conn ext self p = andthen (conn_addref ext p ''close_conn'') (post_ptr ext self P_CLOSE_CONNECTION p)"

text \<open>\<open>close_conn_wait\<close> up to its \<open>sem_wait\<close>, and the return from \<open>sem_wait\<close>.\<close>

definition close_conn_wait :: "'w ext \<Rightarrow> nat \<Rightarrow> addr \<Rightarrow> (('w, 'z) tcp_scheme, unit) prog" where
  "close_conn_wait ext self p = andthen (conn_addref ext p ''close_conn_wait'')
     (post_ptr ext self P_CLOSE_CONNECTION_WAIT p)"

definition close_conn_wait_return :: "addr \<Rightarrow> (('w, 'z) tcp_scheme, bool) prog" where
  "close_conn_wait_return p = close_wait p"

definition release :: "'w ext \<Rightarrow> addr \<Rightarrow> (('w, 'z) tcp_scheme, unit) prog" where
  "release ext p = conn_release ext p ''tcp_dispatcher::release''"

definition addref :: "'w ext \<Rightarrow> addr \<Rightarrow> (('w, 'z) tcp_scheme, unit) prog" where
  "addref ext p = conn_addref ext p ''tcp_dispatcher::addref''"

definition release_send :: "'w ext \<Rightarrow> addr \<Rightarrow> (('w, 'z) tcp_scheme, unit) prog" where
  "release_send ext p = send_release ext p ''x3''"

definition send_req_of :: "'w ext \<Rightarrow> nat \<Rightarrow> addr \<Rightarrow> u8 list \<Rightarrow> cbid option \<Rightarrow> (('w, 'z) tcp_scheme, addr) prog" where
  "send_req_of ext self p buf cb = try_catch
     (bnd (new_send_req ext p) (\<lambda>sr.
      bnd (deref conn_heap p) (\<lambda>c.
      andthen (set_send sr (\<lambda>q. q\<lparr>send_iov := \<lparr>iov_sock = sock c, iov_code = FD_WRITE, iov_conn = p\<rparr>,
        total_bytes := word_of_nat (length buf), sent_bytes := 0, sent_cb := cb\<rparr>))
      (andthen (send_addref ext sr ''tcp_dispatcher::send'')
      (andthen (send_addref ext sr ''tcp_dispatcher::send'')
      (andthen (set_send sr (send_data_update (\<lambda>_. buf)))
      (andthen (post_ptr ext self P_SEND_REQUEST sr)
      (ret sr))))))))
     (\<lambda>_. ret 0)"

definition send_no_callback :: "'w ext \<Rightarrow> nat \<Rightarrow> addr \<Rightarrow> u8 list \<Rightarrow> (('w, 'z) tcp_scheme, bool) prog" where
  "send_no_callback ext self p buf = bnd (send_req_of ext self p buf None) (\<lambda>sr.
     if sr = 0 then ret True
     else andthen (send_release ext sr ''tcp_dispatcher::send'') (ret False))"

definition stop_accepting :: "'w ext \<Rightarrow> nat \<Rightarrow> (('w, 'z) tcp_scheme, unit) prog" where
  "stop_accepting ext self = post ext self P_STOP_ACCEPTING"

text \<open>The address is uninitialised until the connection has one.\<close>

definition get_ip_port :: "addr \<Rightarrow> (('w, 'z) tcp_scheme, (u32 \<times> u16) option) prog" where
  "get_ip_port p = bnd (deref conn_heap p) (\<lambda>c. ret (map_option (\<lambda>a. (sin_addr a, sin_port a)) (conn_addr c)))"

text \<open>
  \<open>break_send\<close>: up to \<open>mr->stop\<close>, \<open>sem_init\<close>, and the return from \<open>sem_wait\<close> with the
  \<open>sem_destroy\<close> after it.
\<close>

definition break_send :: "'w ext \<Rightarrow> nat \<Rightarrow> addr \<Rightarrow> (('w, 'z) tcp_scheme, unit) prog" where
  "break_send ext self sr = andthen (send_addref ext sr ''break_send'') (post_ptr ext self P_BREAK_SEND sr)"

definition break_send_init :: "addr \<Rightarrow> (('w, 'z) tcp_scheme, unit) prog" where
  "break_send_init sr = set_send sr (break_sem_update (\<lambda>_. Some 0))"

definition break_send_return :: "addr \<Rightarrow> (('w, 'z) tcp_scheme, bool) prog" where
  "break_send_return sr = break_wait (\<lambda>_. None) sr"

definition set_bandwidth :: "u32 \<Rightarrow> (('w, 'z) tcp_scheme, unit) prog" where
  "set_bandwidth n = limiter_update (set_limit n)"

subsection \<open>Connections in the dispatcher thread\<close>

definition create_connection :: "'w ext \<Rightarrow> addr \<Rightarrow> (('w, 'z) tcp_scheme, unit) prog" where
  "create_connection ext p = with_mr (\<lambda>R. add_conn ext R p)"

definition close_socket :: "'w ext \<Rightarrow> addr \<Rightarrow> (('w, 'z) tcp_scheme, unit) prog" where
  "close_socket ext p = bnd (deref conn_heap p) (\<lambda>c. bnd (call ext (Os (Close (sock c)))) (\<lambda>r.
     if rv r \<noteq> 0 then throw (Lib_exception ''close'' (err r)) else ret ()))"

definition forget_callbacks :: "addr \<Rightarrow> (('w, 'z) base_scheme, unit) prog" where
  "forget_callbacks p = set_conn p (\<lambda>c. c\<lparr>cbs := no_callbacks, conn_st := Cs_closed\<rparr>)"

text \<open>What both cases of the \<open>switch\<close> that do not return go on with.\<close>

definition drop_connection :: "'w ext \<Rightarrow> addr \<Rightarrow> (('w, 'z) tcp_scheme, unit) prog" where
  "drop_connection ext p = block
     [limiter_update (bw_erase p),
      bnd (deref conn_heap p) (\<lambda>c. recv_release ext (conn_recv c) ''close_connection''),
      conn_release ext p ''close_connection'',
      modify (\<lambda>s. s\<lparr>sockets_counter := sockets_counter s - 1\<rparr>)]"

definition close_connection :: "'w ext \<Rightarrow> addr \<Rightarrow> (('w, 'z) tcp_scheme, unit) prog" where
  "close_connection ext p = bnd (deref conn_heap p) (\<lambda>c. case conn_st c of
     Cs_wait4connect \<Rightarrow> block
       [call_connected ext p False, forget_callbacks p,
        conn_release ext p ''waiting4connect's not finished.'',
        close_socket ext p, drop_connection ext p]
   | Cs_connected \<Rightarrow> block
       [call_closed ext p, forget_callbacks p, close_socket ext p, drop_connection ext p]
   | Cs_closed \<Rightarrow> ret ())"

definition set_connected :: "addr \<Rightarrow> (('w, 'z) base_scheme, unit) prog" where
  "set_connected p = set_conn p (\<lambda>c. c\<lparr>cbs := (cbs c)\<lparr>cb_connected := None\<rparr>, conn_st := Cs_connected\<rparr>)"

text \<open>The accepted callback fills in the callbacks; what it returns is not looked at.\<close>

definition call_accepted :: "'w ext \<Rightarrow> addr \<Rightarrow> cbid \<Rightarrow> (('w, 'z) tcp_scheme, unit) prog" where
  "call_accepted ext p cb = bnd (callback ext (Cb_accepted p cb)) (\<lambda>r. set_conn p (cbs_update (\<lambda>_. r_cbs r)))"

definition accept_connection :: "'w ext \<Rightarrow> (('w, 'z) tcp_scheme, addr) prog" where
  "accept_connection ext = bnd (gets accepted) (\<lambda>a. case a of None \<Rightarrow> ret 0 | Some cb \<Rightarrow>
     bnd (gets listening_socket) (\<lambda>l.
     bnd (call ext (Os (Accept l))) (\<lambda>r.
     if rv r = -1 then
       (if err r = EAGAIN then ret 0 else throw (Lib_exception ''accept'' (err r)))
     else
     bnd (call ext (Os (Set_nonblock (rv r)))) (\<lambda>n.
     if rv n = -1 then
       andthen (invoke ext (Os (Close (rv r)))) (throw (Lib_exception ''fcntl'' (err n)))
     else
     bnd (new_conn (rv r) no_callbacks) (\<lambda>p.
     andthen (block
       [conn_addref ext p ''from_accept'', conn_addref ext p ''from_accept'',
        set_conn p (conn_addr_update (\<lambda>_. Some (r_addr r))),
        new_recv_for ext p ''from_accept'',
        call_accepted ext p cb,
        with_mr (\<lambda>R. add_conn ext R p),
        set_connected p,
        limiter_insert ext p 0,
        modify (\<lambda>s. s\<lparr>sockets_counter := sockets_counter s + 1\<rparr>)])
     (ret p))))))"

text \<open>\<open>while( 0!=accept_connection() );\<close>, at most \<open>fuel\<close> times.\<close>

fun accept_all :: "'w ext \<Rightarrow> nat \<Rightarrow> (('w, 'z) tcp_scheme, unit) prog" where
  "accept_all ext 0 = throw Out_of_fuel"
| "accept_all ext (Suc fuel) = bnd (accept_connection ext) (\<lambda>p.
     if p = 0 then ret () else accept_all ext fuel)"

definition connection_established :: "'w ext \<Rightarrow> addr \<Rightarrow> (('w, 'z) tcp_scheme, unit) prog" where
  "connection_established ext p = bnd (deref conn_heap p) (\<lambda>c.
     whenever (cb_connected (cbs c) \<noteq> None) (block
       [call_connected ext p True, set_connected p, limiter_insert ext p 0]))"

definition call_false_cb :: "'w ext \<Rightarrow> addr \<Rightarrow> (('w, 'z) tcp_scheme, unit) prog" where
  "call_false_cb ext sr = block
     [send_callback ext sr False,
      break_post sr,
      send_release ext sr ''callback_have_just_been_called'']"

subsection \<open>Receiving and sending\<close>

text \<open>
  \<open>do_recv\<close> answers with the number of bytes received, 0 when the connection has to be
  closed.  A library exception of the read callback is caught.  \<open>received\<close> is what it does
  with the answer \<open>r\<close> of \<open>recv\<close>.
\<close>

definition received :: "'w ext \<Rightarrow> addr \<Rightarrow> addr \<Rightarrow> reply \<Rightarrow> (('w, 'z) tcp_scheme, int) prog" where
  "received ext p rr r =
     (if rv r = -1 then ret (if err r = EWOULDBLOCK \<or> err r = EINPROGRESS then -1 else 0)
      else if 0 < rv r then
        try_catch
          (andthen (set_recv rr (\<lambda>q. q\<lparr>recv_data := r_bytes r, recv_size := word_of_int (rv r)\<rparr>))
          (andthen (call_read ext p (take (nat (rv r)) (r_bytes r))) (ret (rv r))))
          (\<lambda>_. ret 0)
      else ret (rv r))"

definition do_recv :: "'w ext \<Rightarrow> addr \<Rightarrow> (('w, 'z) tcp_scheme, int) prog" where
  "do_recv ext p = bnd (deref conn_heap p) (\<lambda>c. case cb_read (cbs c) of
     None \<Rightarrow> ret 0
   | Some cb \<Rightarrow>
     bnd (deref recv_heap (conn_recv c)) (\<lambda>_.
     bnd (call ext (Os (Recv (sock c) MAX_WBUF_SIZE))) (received ext p (conn_recv c))))"

text \<open>How many bytes \<open>do_send\<close> asks for: what is left, at most the budget.\<close>

definition send_size :: "send_req \<Rightarrow> u32 option \<Rightarrow> u32" where
  "send_size q budget = (let sts = total_bytes q - sent_bytes q
     in case budget of Some g \<Rightarrow> if g < sts then g else sts | None \<Rightarrow> sts)"

text \<open>The end of a request: its callback, and the release of the internal reference.\<close>

definition finish_send :: "'w ext \<Rightarrow> addr \<Rightarrow> bool \<Rightarrow> string \<Rightarrow> (('w, 'z) tcp_scheme, unit) prog" where
  "finish_send ext sr value mark = andthen (send_callback ext sr value) (send_release ext sr mark)"

text \<open>
  \<open>do_send(sr,guess)\<close>: whether the request is done, and the budget left in \<open>*guess\<close>.
  \<open>sent_some\<close> is the branch in which \<open>send\<close> took \<open>n\<close> of \<open>sts\<close> bytes, \<open>send_answered\<close>
  all that follows the call.
\<close>

definition sent_some :: "'w ext \<Rightarrow> addr \<Rightarrow> addr \<Rightarrow> u32 \<Rightarrow> int \<Rightarrow> (('w, 'z) tcp_scheme, bool) prog" where
  "sent_some ext sr p sts n =
     andthen (whenever (n \<noteq> 0)
       (andthen (set_send sr (\<lambda>q. q\<lparr>sent_bytes := sent_bytes q + word_of_int n\<rparr>))
                (limiter_insert ext p (word_of_int n))))
     (bnd (deref send_heap sr) (\<lambda>q.
      let done = (sent_bytes q = total_bytes q) in
      andthen (whenever done (finish_send ext sr True ''sending's_done.''))
      (andthen (whenever (n < uint sts)
         (bnd (deref send_heap sr) (\<lambda>q. limiter_update (bw_off (iov_conn (send_iov q))))))
      (ret done))))"

definition send_answered :: "'w ext \<Rightarrow> addr \<Rightarrow> addr \<Rightarrow> u32 \<Rightarrow> u32 option \<Rightarrow> reply \<Rightarrow>
    (('w, 'z) tcp_scheme, bool \<times> u32 option) prog" where
  "send_answered ext sr p sts budget r =
     (if rv r = -1 then
        andthen (limiter_update (bw_off p))
        (if err r = EWOULDBLOCK \<or> err r = EINPROGRESS then ret (False, budget)
         else andthen (finish_send ext sr False ''sending's_not_finished.'') (ret (True, budget)))
      else bnd (sent_some ext sr p sts (rv r)) (\<lambda>done.
        ret (done, map_option (\<lambda>g. g - word_of_int (rv r)) budget)))"

definition do_send :: "'w ext \<Rightarrow> addr \<Rightarrow> u32 option \<Rightarrow> (('w, 'z) tcp_scheme, bool \<times> u32 option) prog" where
  "do_send ext sr budget = bnd (deref send_heap sr) (\<lambda>q.
     bnd (deref conn_heap (iov_conn (send_iov q))) (\<lambda>c.
     if conn_st c = Cs_closed then ret (True, budget) else
     let sts = send_size q budget in
     if sts = 0 then ret (False, budget) else
     bnd (call ext (Os (Send (sock c) (take (unat sts) (drop (unat (sent_bytes q)) (send_data q))))))
       (send_answered ext sr (iov_conn (send_iov q)) sts budget)))"

text \<open>
  The loop over a vector of requests, left with the first one that is done, which is
  erased: the answer is the vector afterwards.
\<close>

fun sends_pass :: "'w ext \<Rightarrow> u32 option \<Rightarrow> addr list \<Rightarrow> (('w, 'z) tcp_scheme, addr list) prog" where
  "sends_pass ext budget [] = ret []"
| "sends_pass ext budget (sr # srs) = bnd (do_send ext sr budget) (\<lambda>(done, budget').
     if done then ret srs else bnd (sends_pass ext budget' srs) (\<lambda>rest. ret (sr # rest)))"

definition serve :: "'w ext \<Rightarrow> u32 option \<Rightarrow> addr \<Rightarrow> (('w, 'z) tcp_scheme, unit) prog" where
  "serve ext budget p = bnd (gets (\<lambda>s. map_find p (outgoings s))) (\<lambda>v. case v of
     None \<Rightarrow> ret ()
   | Some srs \<Rightarrow> bnd (sends_pass ext budget srs) (\<lambda>rest.
       modify (\<lambda>s. s\<lparr>outgoings := map_modify p (\<lambda>_. rest) (outgoings s)\<rparr>)))"

text \<open>What the thread does when the wait timed out.\<close>

definition idle_pass :: "'w ext \<Rightarrow> (double \<Rightarrow> u32) \<Rightarrow> (('w, 'z) tcp_scheme, unit) prog" where
  "idle_pass ext ub =
     bnd (gets (\<lambda>s. (map_keys (outgoings s), is_enable (bws s)))) (\<lambda>(conns, limited).
     andthen (whenever (\<not> limited) (for_each (serve ext None) conns))
     (bnd (limiter_recalc ext ub) (\<lambda>over.
      whenever (\<not> over) (for_each (\<lambda>p.
        bnd (gets (\<lambda>s. bw_guess p (bws s))) (\<lambda>g. serve ext (Some g) p)) conns))))"

subsection \<open>thread_proc\<close>

text \<open>An argument that was never set is an uninitialised pointer.\<close>

definition with_ptr :: "internal_message \<Rightarrow> (addr \<Rightarrow> (('w, 'z) tcp_scheme, unit) prog) \<Rightarrow> (('w, 'z) tcp_scheme, unit) prog" where
  "with_ptr im f = (case im_ptr im of None \<Rightarrow> throw Dangling | Some p \<Rightarrow> f p)"

definition queue_send :: "addr \<Rightarrow> (('w, 'z) tcp_scheme, unit) prog" where
  "queue_send sr = bnd (deref send_heap sr) (\<lambda>q. let p = iov_conn (send_iov q) in
     bnd (deref conn_heap p) (\<lambda>c. whenever (conn_st c \<noteq> Cs_closed)
       (modify (\<lambda>s. s\<lparr>outgoings :=
          map_modify p (\<lambda>srs. srs @ [sr]) (map_insert p [] (outgoings s))\<rparr>))))"

text \<open>The \<open>switch\<close> on a message; the answer is whether the thread returns.\<close>

definition handle_message :: "'w ext \<Rightarrow> internal_message \<Rightarrow> (('w, 'z) tcp_scheme, bool) prog" where
  "handle_message ext im =
     (if im_code im = P_EXIT then ret True else andthen
       (if im_code im = P_STOP_ACCEPTING then modify (\<lambda>s. s\<lparr>accepted := None\<rparr>)
        else if im_code im = P_CREATE_CONNECTION then with_ptr im (\<lambda>p.
          andthen (conn_addref ext p ''waiting4_network_event(connect)'') (create_connection ext p))
        else if im_code im = P_CLOSE_CONNECTION then with_ptr im (\<lambda>p.
          andthen (close_connection ext p) (conn_release ext p ''close_conn''))
        else if im_code im = P_CLOSE_CONNECTION_WAIT then with_ptr im (\<lambda>p.
          andthen (close_connection ext p)
          (andthen (conn_release ext p ''close_conn_wait'')
          (close_post p)))
        else if im_code im = P_SEND_REQUEST then with_ptr im queue_send
        else if im_code im = P_BREAK_SEND then with_ptr im (call_false_cb ext)
        else ret ())
       (ret False))"

definition handle_wakeup :: "'w ext \<Rightarrow> (('w, 'z) tcp_scheme, bool) prog" where
  "handle_wakeup ext = bnd (gets i_messages) (\<lambda>m. case m of None \<Rightarrow> throw Null_deref
     | Some q \<Rightarrow> (case pop_message q of None \<Rightarrow> ret False
       | Some (im, q') \<Rightarrow> andthen (modify (\<lambda>s. s\<lparr>i_messages := Some q'\<rparr>)) (handle_message ext im)))"

definition handle_writable :: "'w ext \<Rightarrow> addr \<Rightarrow> (('w, 'z) tcp_scheme, unit) prog" where
  "handle_writable ext p = bnd (deref conn_heap p) (\<lambda>c.
     if cb_connected (cbs c) \<noteq> None then
       andthen (connection_established ext p) (conn_release ext p ''waiting4_network_connect's_done.'')
     else
       andthen (limiter_update (bw_on p))
       (bnd (gets (\<lambda>s. is_enable (bws s))) (\<lambda>limited. whenever (\<not> limited) (serve ext None p))))"

definition handle_readable :: "'w ext \<Rightarrow> nat \<Rightarrow> addr \<Rightarrow> (('w, 'z) tcp_scheme, unit) prog" where
  "handle_readable ext fuel p = bnd (deref conn_heap p) (\<lambda>c. bnd (gets listening_socket) (\<lambda>l.
     if l = sock c then accept_all ext fuel
     else bnd (do_recv ext p) (\<lambda>n. whenever (n = 0) (close_connection ext p))))"

definition handle_event :: "'w ext \<Rightarrow> nat \<Rightarrow> interrupt_info \<Rightarrow> (('w, 'z) tcp_scheme, unit) prog" where
  "handle_event ext fuel info =
     (if ii_conn info = 0 then ret ()
      else if and (ii_code info) FD_CLOSE \<noteq> 0 then close_connection ext (ii_conn info)
      else andthen
        (whenever (and (ii_code info) FD_WRITE \<noteq> 0) (handle_writable ext (ii_conn info)))
        (whenever (and (ii_code info) FD_READ \<noteq> 0) (handle_readable ext fuel (ii_conn info))))"

definition handle_entry :: "'w ext \<Rightarrow> nat \<Rightarrow> fd \<times> interrupt_info \<Rightarrow> (('w, 'z) tcp_scheme, bool) prog" where
  "handle_entry ext fuel revent =
     (if fst revent = 0 then handle_wakeup ext
      else andthen (handle_event ext fuel (snd revent)) (ret False))"

text \<open>One iteration of \<open>while( 1 )\<close>, and the thread for at most \<open>n\<close> iterations.\<close>

definition wait_interrupt :: "'w ext \<Rightarrow> nat \<Rightarrow> (('w, 'z) tcp_scheme, interrupt) prog" where
  "wait_interrupt ext fuel = with_mr (\<lambda>R. bnd (get_interrupt ext R fuel []) (\<lambda>(_, result). ret result))"

definition thread_iteration :: "'w ext \<Rightarrow> (double \<Rightarrow> u32) \<Rightarrow> nat \<Rightarrow> (('w, 'z) tcp_scheme, bool) prog" where
  "thread_iteration ext ub fuel = bnd (wait_interrupt ext fuel) (\<lambda>result.
     bnd (for_until (handle_entry ext fuel) result) (\<lambda>exit.
     if exit then ret True
     else andthen (whenever (result = []) (idle_pass ext ub)) (ret False)))"

fun thread_proc :: "'w ext \<Rightarrow> (double \<Rightarrow> u32) \<Rightarrow> nat \<Rightarrow> nat \<Rightarrow> (('w, 'z) tcp_scheme, unit) prog" where
  "thread_proc ext ub fuel 0 = throw Out_of_fuel"
| "thread_proc ext ub fuel (Suc n) = bnd (thread_iteration ext ub fuel) (\<lambda>exit.
     if exit then ret () else thread_proc ext ub fuel n)"

end
