(* ===== verification/Frames.thy ===== *)
theory Frames
  imports Connection
begin

section \<open>Frames: what a function of the library leaves alone\<close>

text \<open>
  Most functions of a dispatcher touch only a part of what a property speaks about.  The
  locale \<open>frame\<close> is the contract of a preorder \<open>R\<close> between states that every elementary
  change of the object layer respects: a call that is neither a user callback nor a read
  from the wake-up pipe, a change of a
  connection that keeps its callbacks and its state, creation and destruction of objects.
  Inside it, every function of the object layer is shown to move along \<open>R\<close>, whether it
  returns or throws.
\<close>

subsection \<open>Weakest preconditions of the object layer\<close>

lemma wp_set_conn [wp_simps]:
  "wp (set_conn p f) Q E s = (if p = 0 then E Null_deref s
     else case conn_heap s p of None \<Rightarrow> E Dangling s
       | Some c \<Rightarrow> Q () (s\<lparr>conn_heap := (conn_heap s)(p \<mapsto> f c)\<rparr>))"
  by (simp add: set_conn_def wp_simps split: option.split)

lemma wp_set_recv [wp_simps]:
  "wp (set_recv p f) Q E s = (if p = 0 then E Null_deref s
     else case recv_heap s p of None \<Rightarrow> E Dangling s
       | Some c \<Rightarrow> Q () (s\<lparr>recv_heap := (recv_heap s)(p \<mapsto> f c)\<rparr>))"
  by (simp add: set_recv_def wp_simps split: option.split)

lemma wp_set_send [wp_simps]:
  "wp (set_send p f) Q E s = (if p = 0 then E Null_deref s
     else case send_heap s p of None \<Rightarrow> E Dangling s
       | Some c \<Rightarrow> Q () (s\<lparr>send_heap := (send_heap s)(p \<mapsto> f c)\<rparr>))"
  by (simp add: set_send_def wp_simps split: option.split)

lemma wp_new_conn [wp_simps]:
  "wp (new_conn d cb) Q E s = Q (Suc (last_addr s))
     (s\<lparr>conn_heap := (conn_heap s)(Suc (last_addr s) \<mapsto> new_conn_struct d cb),
        last_addr := Suc (last_addr s)\<rparr>)"
  by (simp add: new_conn_def wp_def Let_def)

lemmas object_defs = conn_addref_def conn_release_def destroy_conn_def recv_addref_def
  recv_release_def destroy_recv_def send_addref_def send_release_def destroy_send_def
  new_recv_req_def new_send_req_def win_new_send_req_def send_callback_def

subsection \<open>The contract\<close>

locale frame =
  fixes R :: "('w, 'z) base_scheme \<Rightarrow> ('w, 'z) base_scheme \<Rightarrow> bool"
  assumes refl: "R s s"
    and trans: "R s t \<Longrightarrow> R t u \<Longrightarrow> R s u"
    and silent: "(\<And>u. k \<noteq> User u) \<Longrightarrow> (\<And>d. k \<noteq> Os (Read d)) \<Longrightarrow> R s (s\<lparr>world := w, trace := trace s @ [(k, r)]\<rparr>)"
    and conn_same: "conn_heap s p = Some c \<Longrightarrow> cbs c' = cbs c \<Longrightarrow> conn_st c' = conn_st c \<Longrightarrow>
      close_sem c' \<le> close_sem c \<Longrightarrow> R s (s\<lparr>conn_heap := (conn_heap s)(p \<mapsto> c')\<rparr>)"
    and conn_gone: "R s (s\<lparr>conn_heap := (conn_heap s)(p := None)\<rparr>)"
    and conn_new: "R s (s\<lparr>conn_heap := (conn_heap s)(Suc (last_addr s) \<mapsto> new_conn_struct d cb),
      last_addr := Suc (last_addr s)\<rparr>)"
    and recv_any: "R s (s\<lparr>recv_heap := h\<rparr>)"
    and recv_new: "R s (s\<lparr>recv_heap := h, last_addr := Suc (last_addr s)\<rparr>)"
    and send_gone: "R s (s\<lparr>send_heap := (send_heap s)(p := None)\<rparr>)"
begin

definition keeps :: "(('w, 'z) base_scheme, 'a) prog \<Rightarrow> bool" where
  "keeps m \<longleftrightarrow> (\<forall>s0. triple (R s0) m (\<lambda>_. R s0) (R s0))"

lemma keepsI: "(\<And>s. wp m (\<lambda>_. R s) (\<lambda>_. R s) s) \<Longrightarrow> keeps m"
  unfolding keeps_def
proof (intro allI tripleI)
  fix s0 s assume m: "\<And>s. wp m (\<lambda>_. R s) (\<lambda>_. R s) s" and "R s0 s"
  then show "wp m (\<lambda>_. R s0) (\<lambda>_. R s0) s"
    using m [of s] by (blast intro: wp_mono trans)
qed

lemma keepsD: "keeps m \<Longrightarrow> R s (snd (m s))"
  unfolding keeps_def wp_snd [symmetric] using refl by (blast dest: tripleD)

lemma keeps_ret: "keeps (ret x)"
  by (simp add: keeps_def triple_ret)

lemma keeps_throw: "keeps (throw e)"
  by (simp add: keepsI wp_simps refl)

lemma keeps_gets: "keeps (gets f)"
  by (simp add: keepsI wp_simps refl)

lemma keeps_bnd: "keeps m \<Longrightarrow> (\<And>x. keeps (f x)) \<Longrightarrow> keeps (bnd m f)"
  unfolding keeps_def by (blast intro: triple_bnd)

lemma keeps_andthen: "keeps m \<Longrightarrow> keeps n \<Longrightarrow> keeps (andthen m n)"
  unfolding keeps_def by (blast intro: triple_andthen)

lemma keeps_if: "(b \<Longrightarrow> keeps m) \<Longrightarrow> (\<not> b \<Longrightarrow> keeps n) \<Longrightarrow> keeps (if b then m else n)"
  by simp

lemma keeps_whenever: "(b \<Longrightarrow> keeps m) \<Longrightarrow> keeps (whenever b m)"
  by (simp add: whenever_def keeps_ret)

lemma keeps_option:
  "(x = None \<Longrightarrow> keeps m) \<Longrightarrow> (\<And>y. x = Some y \<Longrightarrow> keeps (f y)) \<Longrightarrow>
   keeps (case x of None \<Rightarrow> m | Some y \<Rightarrow> f y)"
  by (cases x) simp_all

lemma keeps_conn_state:
  "keeps m \<Longrightarrow> keeps n \<Longrightarrow> keeps k \<Longrightarrow>
   keeps (case st of Cs_wait4connect \<Rightarrow> m | Cs_connected \<Rightarrow> n | Cs_closed \<Rightarrow> k)"
  by (cases st) simp_all

lemma keeps_prod: "(\<And>a b. keeps (f a b)) \<Longrightarrow> keeps (case p of (a, b) \<Rightarrow> f a b)"
  by (cases p) simp

lemma keeps_let: "keeps (f x) \<Longrightarrow> keeps (Let x f)"
  by simp

lemma keeps_block: "(\<And>m. m \<in> set ms \<Longrightarrow> keeps m) \<Longrightarrow> keeps (block ms)"
  unfolding keeps_def by (blast intro: triple_block)

lemma keeps_for_each: "(\<And>x. keeps (body x)) \<Longrightarrow> keeps (for_each body xs)"
  unfolding keeps_def by (blast intro: triple_for_each)

lemma keeps_try_catch: "keeps m \<Longrightarrow> (\<And>e. keeps (h e)) \<Longrightarrow> keeps (try_catch m h)"
proof (rule keepsI)
  fix s assume m: "keeps m" and h: "\<And>e. keeps (h e)"
  have "wp m (\<lambda>_. R s) (\<lambda>_. R s) s" using keepsD [OF m] by (simp add: wp_snd)
  moreover have "R s t \<Longrightarrow> wp (h e) (\<lambda>_. R s) (\<lambda>_. R s) t" for e t
    using trans [of s t] keepsD [OF h] unfolding wp_snd by blast
  ultimately show "wp (try_catch m h) (\<lambda>_. R s) (\<lambda>_. R s) s"
    unfolding wp_try_catch by (auto intro: wp_mono)
qed

lemma keeps_deref: "keeps (deref h p)"
  by (rule keepsI) (simp add: wp_simps refl split: option.split)

lemma keeps_call: "(\<And>u. c \<noteq> User u) \<Longrightarrow> (\<And>d. c \<noteq> Os (Read d)) \<Longrightarrow> keeps (call ext c)"
  by (rule keepsI) (simp add: wp_simps silent)

lemma keeps_invoke: "(\<And>u. c \<noteq> User u) \<Longrightarrow> (\<And>d. c \<noteq> Os (Read d)) \<Longrightarrow> keeps (invoke ext c)"
  by (rule keepsI) (simp add: wp_simps silent)

lemma keeps_checked: "(\<And>u. c \<noteq> User u) \<Longrightarrow> (\<And>d. c \<noteq> Os (Read d)) \<Longrightarrow> keeps (checked ext c txt)"
  by (rule keepsI) (simp add: wp_simps silent)

lemma keeps_modify: "(\<And>s. R s (f s)) \<Longrightarrow> keeps (modify f)"
  by (rule keepsI) (simp add: wp_simps)

lemma keeps_set_conn:
  "(\<And>c. cbs (f c) = cbs c) \<Longrightarrow> (\<And>c. conn_st (f c) = conn_st c) \<Longrightarrow>
    (\<And>c. close_sem (f c) \<le> close_sem c) \<Longrightarrow> keeps (set_conn p f)"
  by (rule keepsI) (simp add: wp_simps refl conn_same split: option.split)

lemma keeps_set_recv: "keeps (set_recv p f)"
  by (rule keepsI) (simp add: wp_simps refl recv_any split: option.split)

lemmas keeps_basic = keeps_ret keeps_throw keeps_gets keeps_bnd keeps_andthen keeps_if
  keeps_whenever keeps_option keeps_prod keeps_let keeps_deref keeps_invoke keeps_call keeps_checked
  keeps_set_conn keeps_set_recv keeps_for_each keeps_try_catch

lemma keeps_close_wait: "keeps (close_wait p)"
  unfolding close_wait_def by (intro keeps_basic) simp_all

lemma keeps_new_conn: "keeps (new_conn d cb)"
  by (rule keepsI) (simp add: wp_simps conn_new)

lemma keeps_conn_addref: "keeps (conn_addref ext p mark)"
  unfolding object_defs by (intro keeps_basic) simp_all

lemma keeps_conn_release: "keeps (conn_release ext p mark)"
  unfolding object_defs by (intro keeps_basic keeps_modify) (simp_all add: conn_gone)

lemma keeps_recv_addref: "keeps (recv_addref ext p mark)"
  unfolding object_defs by (intro keeps_basic) simp_all

lemma keeps_recv_release: "keeps (recv_release ext p mark)"
  unfolding recv_release_def destroy_recv_def
  by (intro keeps_basic keeps_modify keeps_conn_release) (simp_all add: recv_any)

lemma keeps_send_addref: "keeps (send_addref ext p mark)"
  unfolding object_defs by (intro keeps_basic) simp_all

lemma keeps_send_release: "keeps (send_release ext p mark)"
  unfolding send_release_def destroy_send_def
  by (intro keeps_basic keeps_modify keeps_conn_release) (simp_all add: send_gone)

lemma keeps_alloc:
  assumes "\<And>s. R s (f (g s) s)" and "\<And>x. keeps (n x)"
  shows "keeps (bnd (gets g) (\<lambda>x. andthen (modify (f x)) (n x)))"
proof (rule keepsI)
  fix s
  have "R s (snd (n (g s) (f (g s) s)))"
    using trans assms(1) keepsD [OF assms(2)] by blast
  then show "wp (bnd (gets g) (\<lambda>x. andthen (modify (f x)) (n x))) (\<lambda>_. R s) (\<lambda>_. R s) s"
    unfolding wp_bnd wp_gets wp_andthen wp_modify unfolding wp_snd .
qed

lemma keeps_new_recv_req: "keeps (new_recv_req ext cp)"
  unfolding new_recv_req_def
  by (intro keeps_bnd [OF keeps_deref] keeps_alloc keeps_andthen keeps_conn_addref keeps_ret)
    (rule recv_new)

lemmas keeps_objects = keeps_new_conn keeps_conn_addref keeps_conn_release keeps_recv_addref
  keeps_recv_release keeps_send_addref keeps_send_release keeps_new_recv_req

end

text \<open>A frame that lets the wake-up pipe be read, too.\<close>

locale reading_frame = frame +
  assumes reading: "R s (s\<lparr>world := w, trace := trace s @ [(Os (Read d), r)]\<rparr>)"
begin

lemma keeps_read: "keeps (call ext (Os (Read d)))"
  by (rule keepsI) (simp add: wp_simps reading)

end

text \<open>A frame in which the semaphore that \<open>close_conn_wait\<close> waits for may be posted, too.\<close>

locale close_frame = frame +
  assumes close_post: "conn_heap s p = Some c \<Longrightarrow>
    R s (s\<lparr>conn_heap := (conn_heap s)(p \<mapsto> close_sem_update Suc c)\<rparr>)"
begin

lemma keeps_close_post: "keeps (close_post p)"
  unfolding close_post_def by (rule keepsI) (simp add: wp_simps refl close_post split: option.split)

end

text \<open>
  A frame that also lets the send requests change, and one that lets their callbacks be
  called, too.
\<close>

locale send_any_frame = frame +
  assumes send_any: "R s (s\<lparr>send_heap := h\<rparr>)"
    and send_new: "R s (s\<lparr>send_heap := h, last_addr := Suc (last_addr s)\<rparr>)"
begin

lemma keeps_set_send: "keeps (set_send p f)"
  by (rule keepsI) (simp add: wp_simps refl send_any split: option.split)

lemma keeps_alloc_send_req: "keeps (alloc_send_req sem ext cp)"
  unfolding alloc_send_req_def
  by (intro keeps_bnd [OF keeps_deref] keeps_alloc keeps_andthen keeps_conn_addref keeps_ret)
    (rule send_new)

lemma keeps_new_send_req: "keeps (new_send_req ext cp)" "keeps (win_new_send_req ext cp)"
  unfolding new_send_req_def win_new_send_req_def by (rule keeps_alloc_send_req)+

lemma keeps_break: "keeps (break_post sr)" "keeps (break_wait after sr)"
  unfolding break_post_def break_wait_def by (intro keeps_basic keeps_set_send)+

end

locale send_frame = send_any_frame +
  assumes sent: "R s (s\<lparr>world := w, trace := trace s @ [(User (Cb_sent p cb ok), r)]\<rparr>)"
begin

lemma keeps_sent_callback: "keeps (callback ext (Cb_sent p cb ok))"
  by (rule keepsI) (simp add: wp_simps sent)

lemma keeps_send_callback: "keeps (send_callback ext p ok)"
  unfolding send_callback_def
  by (intro keeps_basic keeps_sent_callback keeps_set_send)

end

text \<open>
  A frame that lets the connections change instead, one that lets their callbacks be
  called, too, and one that also lets the accepted callback be called.
\<close>

locale conn_any_frame = frame +
  assumes conn_any: "conn_heap s p = Some c \<Longrightarrow> close_sem c' \<le> close_sem c \<Longrightarrow>
      R s (s\<lparr>conn_heap := (conn_heap s)(p \<mapsto> c')\<rparr>)"
begin

lemma keeps_set_conn_any: "(\<And>c. close_sem (f c) \<le> close_sem c) \<Longrightarrow> keeps (set_conn p f)"
  by (rule keepsI) (simp add: wp_simps refl conn_any split: option.split)

end

locale conn_call_frame = conn_any_frame +
  assumes conn_called: "(\<And>p cb ok. u \<noteq> Cb_sent p cb ok) \<Longrightarrow> (\<And>p cb. u \<noteq> Cb_accepted p cb) \<Longrightarrow>
      R s (s\<lparr>world := w, trace := trace s @ [(User u, r)]\<rparr>)"
begin

lemma keeps_conn_callback:
  "(\<And>p cb ok. u \<noteq> Cb_sent p cb ok) \<Longrightarrow> (\<And>p cb. u \<noteq> Cb_accepted p cb) \<Longrightarrow> keeps (callback ext u)"
  by (rule keepsI) (simp add: wp_simps conn_called)

lemma keeps_connection_calls:
  "keeps (call_connected ext p ok)" "keeps (call_closed ext p)" "keeps (call_read ext p data)"
  unfolding call_connected_def call_closed_def call_read_def
  by (intro keeps_basic keeps_conn_callback, simp_all)+

end

locale conn_frame = conn_any_frame +
  assumes called: "(\<And>p cb ok. u \<noteq> Cb_sent p cb ok) \<Longrightarrow>
      R s (s\<lparr>world := w, trace := trace s @ [(User u, r)]\<rparr>)"
begin

lemma keeps_callback: "(\<And>p cb ok. u \<noteq> Cb_sent p cb ok) \<Longrightarrow> keeps (callback ext u)"
  by (rule keepsI) (simp add: wp_simps called)

end

sublocale conn_frame \<subseteq> conn_call_frame
  by unfold_locales (rule called)

text \<open>The objects of the Windows dispatcher's operations that no connection refers to.\<close>

locale overlap_frame = frame +
  assumes overlap_any: "R s (s\<lparr>overlap_heap := h\<rparr>)"
    and overlap_new: "R s (s\<lparr>overlap_heap := h, last_addr := Suc (last_addr s)\<rparr>)"
    and accept_any: "R s (s\<lparr>accept_heap := h\<rparr>)"
    and accept_new: "R s (s\<lparr>accept_heap := h, last_addr := Suc (last_addr s)\<rparr>)"
begin

lemma keeps_overlap_objects:
  "keeps (overlap_addref ext p mark)" "keeps (overlap_release ext p mark)"
  "keeps (accept_addref ext p mark)" "keeps (accept_release ext p mark)"
  unfolding overlap_addref_def overlap_release_def accept_addref_def accept_release_def
  by (intro keeps_basic keeps_modify, (simp_all add: overlap_any accept_any)?)+

lemma keeps_new_overlap: "keeps (new_overlap d code)"
  by (rule keepsI) (simp add: new_overlap_def wp_def Let_def overlap_new)

lemma keeps_new_accept: "keeps (new_accept d code)"
  by (rule keepsI) (simp add: new_accept_def wp_def Let_def accept_new)

end

end
