(* ===== verification/Cp_Reactor.thy ===== *)
theory Cp_Reactor
  imports Connection Std_Map
begin

section \<open>The completion port (cp_reactor.h, cp_reactor.cpp)\<close>

text \<open>
  The Windows dispatcher starts operations on objects that hold an \<open>IOVERLAPPED\<close> and takes
  their completions from a port.  A completion that carries no object is a wake-up.  The
  kernel writes received bytes into the buffer of the request before it reports its
  completion.
\<close>

definition WAIT_TIMEOUT :: int where "WAIT_TIMEOUT = 258"
definition WSA_IO_PENDING :: int where "WSA_IO_PENDING = 997"
definition WSAENOTSOCK :: int where "WSAENOTSOCK = 10038"
definition WSAECONNRESET :: int where "WSAECONNRESET = 10054"
definition WSAENOTCONN :: int where "WSAENOTCONN = 10057"

lemmas wsa_defs = WAIT_TIMEOUT_def WSA_IO_PENDING_def WSAENOTSOCK_def WSAECONNRESET_def WSAENOTCONN_def

record cp_reactor =
  hcport :: nat
  cp_threads :: "nat list"

type_synonym win_interrupt = "(fd, u32) std_map"

definition new_cp_reactor :: "'w ext \<Rightarrow> (('w, 'z) base_scheme, cp_reactor) prog" where
  "new_cp_reactor ext = bnd (call ext (Win Create_iocp)) (\<lambda>r.
     if rv r = 0 then throw (Lib_exception ''CreateIoCompletionPort'' (err r))
     else ret \<lparr>hcport = nat (rv r), cp_threads = []\<rparr>)"

definition delete_cp_reactor :: "'w ext \<Rightarrow> cp_reactor \<Rightarrow> (('w, 'z) base_scheme, unit) prog" where
  "delete_cp_reactor ext R = invoke ext (Os (Close (int (hcport R))))"

definition cp_add_thread :: "nat \<Rightarrow> cp_reactor \<Rightarrow> cp_reactor" where
  "cp_add_thread bthread R = R\<lparr>cp_threads := cp_threads R @ [bthread]\<rparr>"

definition cp_add_socket :: "'w ext \<Rightarrow> cp_reactor \<Rightarrow> fd \<Rightarrow> (('w, 'z) base_scheme, unit) prog" where
  "cp_add_socket ext R socket = bnd (call ext (Win (Iocp_associate socket))) (\<lambda>r.
     if rv r = 0 then throw (Lib_exception ''CreateIoCompletionPort'' (err r)) else ret ())"

definition cp_add_conn :: "'w ext \<Rightarrow> cp_reactor \<Rightarrow> addr \<Rightarrow> (('w, 'z) base_scheme, unit) prog" where
  "cp_add_conn ext R p = bnd (deref conn_heap p) (\<lambda>c. cp_add_socket ext R (sock c))"

text \<open>The \<open>IOVERLAPPED\<close> inside a completed object.\<close>

fun obj_iov :: "obj \<Rightarrow> (('w, 'z) base_scheme, iov) prog" where
  "obj_iov (OverlapObj p) = deref overlap_heap p"
| "obj_iov (AcceptObj p) = deref accept_heap p"
| "obj_iov (RecvObj p) = bnd (deref recv_heap p) (\<lambda>q. ret (recv_iov q))"
| "obj_iov (SendObj p) = bnd (deref send_heap p) (\<lambda>q. ret (send_iov q))"
| "obj_iov (ConnObj p) = throw Dangling"

fun fill_buffer :: "obj \<Rightarrow> u8 list \<Rightarrow> (('w, 'z) base_scheme, unit) prog" where
  "fill_buffer (RecvObj p) bs = set_recv p (recv_data_update (\<lambda>_. bs))"
| "fill_buffer _ bs = ret ()"

text \<open>
  \<open>get_transfer(result,overlap)\<close>: the size, the map with at most one entry, and the whole
  answer of \<open>GetQueuedCompletionStatus\<close>, whose completed object is \<open>overlap\<close>.
\<close>

definition get_transfer :: "'w ext \<Rightarrow> cp_reactor \<Rightarrow> win_interrupt \<Rightarrow>
    (('w, 'z) base_scheme, u32 \<times> win_interrupt \<times> reply) prog" where
  "get_transfer ext R result = bnd (call ext (Win (Iocp_get (hcport R)))) (\<lambda>r.
     if rv r = 0 then
       (if err r = WAIT_TIMEOUT then ret (0, result, r)
        else case r_done r of
          None \<Rightarrow> throw Assertion_failed
        | Some x \<Rightarrow> bnd (obj_iov x) (\<lambda>i. ret (0, map_insert (iov_sock i) FD_CLOSE result, r)))
     else case r_done r of
       None \<Rightarrow> ret (0, map_insert 0 0 result, r)
     | Some x \<Rightarrow> andthen (fill_buffer x (r_bytes r))
         (bnd (obj_iov x) (\<lambda>i. ret (r_size r, map_insert (iov_sock i) (iov_code i) result, r))))"

definition cp_stop :: "'w ext \<Rightarrow> cp_reactor \<Rightarrow> (('w, 'z) base_scheme, unit) prog" where
  "cp_stop ext R = invoke ext (Win Iocp_post)"

end
