(* ===== verification/Iocp_Reactor.thy ===== *)
theory Iocp_Reactor
  imports Cp_Reactor
begin

section \<open>The completion port of the older Windows dispatcher (iocp_reactor.cpp)\<close>

text \<open>
  Another wrapper of a completion port, which itself stores the size of a completed
  operation in the request.  It is used by \<open>tcp_dispatcher_biocp\<close> only.
\<close>

definition ERROR_NETNAME_DELETED :: int where "ERROR_NETNAME_DELETED = 64"
definition ERROR_CONNECTION_ABORTED :: int where "ERROR_CONNECTION_ABORTED = 1236"

record iocp_reactor =
  iocp_hcport :: nat
  iocp_threads :: "nat list"

definition new_iocp_reactor :: "'w ext \<Rightarrow> (('w, 'z) base_scheme, iocp_reactor) prog" where
  "new_iocp_reactor ext = bnd (call ext (Win Create_iocp)) (\<lambda>r.
     if rv r = 0 then throw (Lib_exception ''CreateIoCompletionPort'' (err r))
     else ret \<lparr>iocp_hcport = nat (rv r), iocp_threads = []\<rparr>)"

definition delete_iocp_reactor :: "'w ext \<Rightarrow> iocp_reactor \<Rightarrow> (('w, 'z) base_scheme, unit) prog" where
  "delete_iocp_reactor ext R = invoke ext (Os (Close (int (iocp_hcport R))))"

definition iocp_add_thread :: "nat \<Rightarrow> iocp_reactor \<Rightarrow> iocp_reactor" where
  "iocp_add_thread bthread R = R\<lparr>iocp_threads := iocp_threads R @ [bthread]\<rparr>"

definition iocp_add_conn :: "'w ext \<Rightarrow> iocp_reactor \<Rightarrow> addr \<Rightarrow> (('w, 'z) base_scheme, unit) prog" where
  "iocp_add_conn ext R p = bnd (deref conn_heap p) (\<lambda>c.
     bnd (call ext (Win (Iocp_associate (sock c)))) (\<lambda>r.
     if rv r = 0 then throw (Lib_exception ''CreateIoCompletionPort'' (err r)) else ret ()))"

definition iocp_stop :: "'w ext \<Rightarrow> iocp_reactor \<Rightarrow> (('w, 'z) base_scheme, unit) prog" where
  "iocp_stop ext R = invoke ext (Win Iocp_post)"

text \<open>
  What a call of \<open>get_transfer\<close> sets: the map, and the two request pointers (0 when null).
  The connection pointer, a reference argument, is not assigned at all.
\<close>

record transfer =
  tr_result :: win_interrupt
  tr_send :: addr
  tr_recv :: addr

text \<open>
  A failed operation with one of two error codes is taken for a receive; if it is not one,
  \<open>CONTAINING_RECORD\<close> yields no object of that type.
\<close>

definition failed_transfer :: "reply \<Rightarrow> win_interrupt \<Rightarrow> (('w, 'z) base_scheme, transfer) prog" where
  "failed_transfer r result =
     (if err r = ERROR_CONNECTION_ABORTED \<or> err r = ERROR_NETNAME_DELETED then
        case r_done r of
          None \<Rightarrow> throw Null_deref
        | Some (RecvObj rr) \<Rightarrow> andthen (set_recv rr (recv_size_update (\<lambda>_. r_size r)))
            (bnd (deref recv_heap rr) (\<lambda>q.
             ret \<lparr>tr_result = map_insert (iov_sock (recv_iov q)) FD_READ result, tr_send = 0, tr_recv = rr\<rparr>))
        | Some _ \<Rightarrow> throw Dangling
      else case r_done r of
          None \<Rightarrow> throw Assertion_failed
        | Some x \<Rightarrow> bnd (obj_iov x) (\<lambda>i.
            ret \<lparr>tr_result = map_insert (iov_sock i) FD_CLOSE result, tr_send = 0, tr_recv = 0\<rparr>))"

definition done_transfer :: "reply \<Rightarrow> win_interrupt \<Rightarrow> (('w, 'z) base_scheme, transfer) prog" where
  "done_transfer r result = (case r_done r of
     None \<Rightarrow> ret \<lparr>tr_result = map_insert 0 0 result, tr_send = 0, tr_recv = 0\<rparr>
   | Some (RecvObj rr) \<Rightarrow> bnd (deref recv_heap rr) (\<lambda>q. bnd (deref conn_heap (iov_conn (recv_iov q))) (\<lambda>c.
       andthen (set_recv rr (\<lambda>q. q\<lparr>recv_data := r_bytes r, recv_size := r_size r,
           recv_iov := (recv_iov q)\<lparr>iov_sock := sock c\<rparr>\<rparr>))
       (ret \<lparr>tr_result = map_insert (sock c) (iov_code (recv_iov q)) result, tr_send = 0, tr_recv = rr\<rparr>)))
   | Some (SendObj sr) \<Rightarrow> andthen (set_send sr (sent_bytes_update (\<lambda>_. r_size r)))
       (bnd (deref send_heap sr) (\<lambda>q.
        ret \<lparr>tr_result = map_insert (iov_sock (send_iov q)) (iov_code (send_iov q)) result,
              tr_send = sr, tr_recv = 0\<rparr>))
   | Some x \<Rightarrow> bnd (obj_iov x) (\<lambda>i.
       ret \<lparr>tr_result = map_insert (iov_sock i) (iov_code i) result, tr_send = 0, tr_recv = 0\<rparr>))"

definition iocp_get_transfer :: "'w ext \<Rightarrow> iocp_reactor \<Rightarrow> win_interrupt \<Rightarrow>
    (('w, 'z) base_scheme, transfer) prog" where
  "iocp_get_transfer ext R result = bnd (call ext (Win (Iocp_get (iocp_hcport R)))) (\<lambda>r.
     if rv r = 0 then failed_transfer r result else done_transfer r result)"

end
