(* ===== verification/Wsa_Reactor.thy ===== *)
theory Wsa_Reactor
  imports Cp_Reactor
begin

section \<open>The event reactor of the older Windows dispatcher (wsa_reactor.cpp)\<close>

text \<open>
  The reactor waits for two events of its own and one event per registered socket.  A
  mutex guards the map of events; the waiting thread holds it when it collects the events
  and when it looks an event up, not while it waits.  So a call of \<open>get_interrupt\<close> has
  parts between which other threads may register and unregister sockets:
  \<open>wsa_collect\<close>, \<open>wsa_wait\<close>, \<open>wsa_signalled\<close> and \<open>wsa_report\<close>.
\<close>

definition WAIT_FAILED :: int where "WAIT_FAILED = 0xFFFFFFFF"

definition FD_OOB :: u32 where "FD_OOB = 4"
definition FD_QOS :: u32 where "FD_QOS = 64"
definition FD_GROUP_QOS :: u32 where "FD_GROUP_QOS = 128"
definition FD_ROUTING_INTERFACE_CHANGE :: u32 where "FD_ROUTING_INTERFACE_CHANGE = 256"
definition FD_ADDRESS_LIST_CHANGE :: u32 where "FD_ADDRESS_LIST_CHANGE = 512"

text \<open>\<open>wsEvents\<close> is only used inside \<open>get_interrupt\<close>; it is passed from part to part.\<close>

record wsa_reactor =
  hInterruptEvent :: nat
  hExitEvent :: nat
  wait_map :: "(nat, fd) std_map"

definition new_wsa_reactor :: "'w ext \<Rightarrow> (('w, 'z) base_scheme, wsa_reactor) prog" where
  "new_wsa_reactor ext = bnd (call ext (Win Create_event)) (\<lambda>a. bnd (call ext (Win Create_event)) (\<lambda>b.
     ret \<lparr>hInterruptEvent = nat (rv a), hExitEvent = nat (rv b), wait_map = []\<rparr>))"

definition delete_wsa_reactor :: "'w ext \<Rightarrow> wsa_reactor \<Rightarrow> (('w, 'z) base_scheme, unit) prog" where
  "delete_wsa_reactor ext R =
     andthen (for_each (\<lambda>h. invoke ext (Win (Close_event h))) (map_keys (wait_map R)))
     (andthen (invoke ext (Win (Close_event (hInterruptEvent R))))
              (invoke ext (Win (Close_event (hExitEvent R)))))"

definition wsa_add_event :: "'w ext \<Rightarrow> wsa_reactor \<Rightarrow> fd \<Rightarrow> u32 \<Rightarrow> (('w, 'z) base_scheme, wsa_reactor) prog" where
  "wsa_add_event ext R socket type = bnd (call ext (Win Create_event)) (\<lambda>e.
     if rv e = 0 then throw (Lib_exception ''WSACreateEvent'' (err e)) else
     bnd (call ext (Win (Event_select socket (nat (rv e)) type))) (\<lambda>r.
     if rv r = -1 then throw (Lib_exception ''WSAEventSelect'' (err r))
     else ret (R\<lparr>wait_map := map_insert (nat (rv e)) socket (wait_map R)\<rparr>)))"

text \<open>The first entry of the socket is erased; its event is neither closed nor unselected.\<close>

fun erase_socket :: "fd \<Rightarrow> (nat, fd) std_map \<Rightarrow> (nat, fd) std_map" where
  "erase_socket socket [] = []"
| "erase_socket socket ((h, d) # m) = (if socket = d then m else (h, d) # erase_socket socket m)"

definition wsa_del_event :: "fd \<Rightarrow> wsa_reactor \<Rightarrow> wsa_reactor" where
  "wsa_del_event socket R = R\<lparr>wait_map := erase_socket socket (wait_map R)\<rparr>"

definition wsa_stop :: "'w ext \<Rightarrow> wsa_reactor \<Rightarrow> fd \<Rightarrow> (('w, 'z) base_scheme, unit) prog" where
  "wsa_stop ext R socket = andthen
     (whenever (socket = -1) (bnd (call ext (Win (Set_event (hExitEvent R)))) (\<lambda>r.
        if rv r = 0 then throw (Lib_exception ''SetEvent'' (err r)) else ret ())))
     (bnd (call ext (Win (Set_event (hInterruptEvent R)))) (\<lambda>r.
        if rv r = 0 then throw (Lib_exception ''SetEvent'' (err r)) else ret ()))"

subsection \<open>Waiting\<close>

text \<open>The array has room for 2000 events; filling it further is an error of the program.\<close>

definition wsa_collect :: "wsa_reactor \<Rightarrow> (('w, 'z) base_scheme, nat list) prog" where
  "wsa_collect R = (let events = hInterruptEvent R # hExitEvent R # map_keys (wait_map R) in
     if length events > 2000 then throw Bad_iterator else ret events)"

text \<open>
  One wait of the polling over groups of 60 events, at most the last of which blocks; and
  the loop over the groups, where every wait and every new round takes one unit of \<open>fuel\<close>.
\<close>

definition wsa_poll_group :: "'w ext \<Rightarrow> nat list \<Rightarrow> nat \<Rightarrow> (('w, 'z) base_scheme, nat option) prog" where
  "wsa_poll_group ext events j =
     (let last = length events < j + 60; n = (if last then length events mod 60 else 60) in
      bnd (call ext (Win (Wait_events (take n (drop j events)) (Some (if last then 100 else 0))))) (\<lambda>r.
        if rv r = WAIT_FAILED then throw (Lib_exception ''WaitForMultipleObjects'' (err r))
        else if rv r = WAIT_TIMEOUT then ret None
        else ret (Some (nat (rv r) + j))))"

fun wsa_poll :: "'w ext \<Rightarrow> nat list \<Rightarrow> nat \<Rightarrow> nat \<Rightarrow> (('w, 'z) base_scheme, nat) prog" where
  "wsa_poll ext events j 0 = throw Out_of_fuel"
| "wsa_poll ext events j (Suc fuel) =
     (if j < length events then
        bnd (wsa_poll_group ext events j) (\<lambda>x. case x of
          None \<Rightarrow> wsa_poll ext events (j + 60) fuel
        | Some i \<Rightarrow> ret i)
      else wsa_poll ext events 0 fuel)"

definition wsa_wait_all :: "'w ext \<Rightarrow> nat list \<Rightarrow> (('w, 'z) base_scheme, nat) prog" where
  "wsa_wait_all ext events = bnd (call ext (Win (Wait_events events None))) (\<lambda>r.
     if rv r = WAIT_FAILED then throw (Lib_exception ''WaitForMultipleObjects'' (err r))
     else ret (nat (rv r)))"

definition wsa_handle :: "nat list \<Rightarrow> nat \<Rightarrow> (('w, 'z) base_scheme, nat) prog" where
  "wsa_handle events i = (if i < length events then ret (events ! i) else throw Bad_iterator)"

definition wsa_wait :: "'w ext \<Rightarrow> nat list \<Rightarrow> nat \<Rightarrow> (('w, 'z) base_scheme, nat) prog" where
  "wsa_wait ext events fuel =
     bnd (if length events > 60 then wsa_poll ext events 0 fuel else wsa_wait_all ext events)
       (wsa_handle events)"

text \<open>
  What is known after a part: the call is over with an answer and an entry for the map, or
  the events of a socket were read and have to be reported.
\<close>

datatype wsa_outcome =
    Wsa_answer bool "(fd \<times> u32) option"
  | Wsa_events nat u32 "int list"

text \<open>
  The part from the signalled handle to the end of the second locked section.  \<open>R'\<close> is the
  reactor after it.
\<close>

definition wsa_signalled :: "'w ext \<Rightarrow> wsa_reactor \<Rightarrow> nat \<Rightarrow>
    (('w, 'z) base_scheme, wsa_outcome \<times> wsa_reactor) prog" where
  "wsa_signalled ext R h =
     (if h = hInterruptEvent R then bnd (call ext (Win (Reset_event h))) (\<lambda>r.
        if rv r = 0 then throw (Lib_exception ''ResetEvent'' (err r))
        else ret (Wsa_answer True (Some (0, 0)), R))
      else if h = hExitEvent R then bnd (call ext (Win (Reset_event h))) (\<lambda>r.
        if rv r = 0 then throw (Lib_exception ''ResetEvent'' (err r))
        else ret (Wsa_answer True (Some (-1, 0)), R))
      else case map_find h (wait_map R) of
        None \<Rightarrow> ret (Wsa_answer False None, R)
      | Some d \<Rightarrow> bnd (call ext (Win (Enum_events d h))) (\<lambda>r.
          if rv r \<noteq> 0 then
            (if err r = WSAENOTSOCK \<or> err r = WSAENOTCONN \<or> err r = WSAECONNRESET then
               ret (Wsa_answer True (Some (d, FD_CLOSE)), R\<lparr>wait_map := map_erase h (wait_map R)\<rparr>)
             else ret (Wsa_answer False None, R))
          else ret (Wsa_events h (r_net r) (r_net_errors r), R)))"

text \<open>\<open>what_happened\<close>: no event that occurred has an error code.  Codes that are not there are 0.\<close>

definition net_error :: "int list \<Rightarrow> nat \<Rightarrow> int" where
  "net_error codes i = (if i < length codes then codes ! i else 0)"

definition what_happened :: "u32 \<Rightarrow> int list \<Rightarrow> bool" where
  "what_happened events codes = list_all (\<lambda>(f, i). and events f = 0 \<or> net_error codes i = 0)
     [(FD_READ, 0), (FD_WRITE, 1), (FD_OOB, 2), (FD_ACCEPT, 3), (FD_CONNECT, 4), (FD_CLOSE, 5),
      (FD_QOS, 6), (FD_GROUP_QOS, 7), (FD_ROUTING_INTERFACE_CHANGE, 8), (FD_ADDRESS_LIST_CHANGE, 9)]"

text \<open>
  The last part uses the iterator \<open>it\<close> without the mutex.  If its entry was erased
  meanwhile the iterator is not valid any more.
\<close>

definition wsa_report :: "wsa_reactor \<Rightarrow> nat \<Rightarrow> u32 \<Rightarrow> int list \<Rightarrow>
    (('w, 'z) base_scheme, (fd \<times> u32) \<times> wsa_reactor) prog" where
  "wsa_report R h events codes = (case map_find h (wait_map R) of
     None \<Rightarrow> throw Bad_iterator
   | Some d \<Rightarrow> if what_happened events codes then ret ((d, events), R)
       else ret ((d, FD_CLOSE), R\<lparr>wait_map := map_erase h (wait_map R)\<rparr>))"

text \<open>The whole call when no other thread touches the reactor meanwhile.\<close>

definition wsa_get_interrupt :: "'w ext \<Rightarrow> wsa_reactor \<Rightarrow> nat \<Rightarrow> win_interrupt \<Rightarrow>
    (('w, 'z) base_scheme, bool \<times> win_interrupt \<times> wsa_reactor) prog" where
  "wsa_get_interrupt ext R fuel result = bnd (wsa_collect R) (\<lambda>events.
     bnd (wsa_wait ext events fuel) (\<lambda>h.
     bnd (wsa_signalled ext R h) (\<lambda>(out, R'). case out of
       Wsa_answer b None \<Rightarrow> ret (b, result, R')
     | Wsa_answer b (Some (d, code)) \<Rightarrow> ret (b, map_insert d code result, R')
     | Wsa_events h events codes \<Rightarrow> bnd (wsa_report R' h events codes) (\<lambda>((d, code), R'').
         ret (True, map_insert d code result, R'')))))"

end
