(* ===== verification/Reactor_Frames.thy ===== *)
theory Reactor_Frames
  imports Frames Linux_Reactor Iocp_Reactor Wsa_Reactor
begin

section \<open>Frames of the reactors\<close>

text \<open>
  The functions of the reactors call only the operating system: they stay within every
  frame.
\<close>

subsection \<open>The epoll reactor\<close>

context frame
begin

lemma keeps_new_linux_reactor: "keeps (new_linux_reactor ext)"
  unfolding new_linux_reactor_def by (intro keeps_basic) simp_all

lemma keeps_delete_linux_reactor: "keeps (delete_linux_reactor ext r)"
  unfolding delete_linux_reactor_def by (intro keeps_basic) simp_all

lemma keeps_add_conn: "keeps (add_conn ext r p)"
  unfolding add_conn_def by (intro keeps_basic) simp_all

lemma keeps_reactor_stop: "keeps (reactor_stop ext r self d)"
  unfolding reactor_stop_def by (intro keeps_basic) simp_all

lemma keeps_wait_events: "keeps (wait_events ext ep fuel)"
proof (induction fuel)
  case (Suc fuel)
  show ?case unfolding wait_events.simps by (intro keeps_basic Suc) simp_all
qed (simp add: keeps_throw)

lemmas keeps_reactor = keeps_new_linux_reactor keeps_delete_linux_reactor keeps_add_conn
  keeps_reactor_stop

end

context reading_frame
begin

lemma keeps_decode_events: "keeps (decode_events ext r evs result)"
proof (induction evs arbitrary: result)
  case (Cons ev evs)
  show ?case
    unfolding decode_events.simps decode_event_def by (intro keeps_read keeps_basic Cons)
qed (simp add: keeps_ret)

lemma keeps_get_interrupt: "keeps (get_interrupt ext r fuel result)"
  unfolding get_interrupt_def
  by (intro keeps_basic keeps_wait_events keeps_decode_events)

end

subsection \<open>The completion port\<close>

context frame
begin

lemma keeps_new_cp_reactor: "keeps (new_cp_reactor ext)"
  unfolding new_cp_reactor_def by (intro keeps_basic) simp_all

lemma keeps_delete_cp_reactor: "keeps (delete_cp_reactor ext r)"
  unfolding delete_cp_reactor_def by (intro keeps_basic) simp_all

lemma keeps_cp_add_socket: "keeps (cp_add_socket ext r d)"
  unfolding cp_add_socket_def by (intro keeps_basic) simp_all

lemma keeps_cp_stop: "keeps (cp_stop ext r)"
  unfolding cp_stop_def by (intro keeps_basic) simp_all

lemma keeps_obj_iov: "keeps (obj_iov x)"
  by (cases x) (auto intro: keeps_basic)

lemma keeps_fill_buffer: "keeps (fill_buffer x bs)"
  by (cases x) (auto intro: keeps_basic)

lemma keeps_get_transfer: "keeps (get_transfer ext r result)"
  unfolding get_transfer_def by (intro keeps_basic keeps_obj_iov keeps_fill_buffer) simp_all

lemmas keeps_port = keeps_new_cp_reactor keeps_delete_cp_reactor keeps_cp_add_socket keeps_cp_stop
  keeps_get_transfer

end

subsection \<open>The reactors of the older Windows dispatcher\<close>

context frame
begin

lemma keeps_obj: "(\<And>p. keeps (a p)) \<Longrightarrow> (\<And>p. keeps (b p)) \<Longrightarrow> (\<And>p. keeps (c p)) \<Longrightarrow>
    (\<And>p. keeps (d p)) \<Longrightarrow> (\<And>p. keeps (e p)) \<Longrightarrow>
    keeps (case x of ConnObj p \<Rightarrow> a p | RecvObj p \<Rightarrow> b p | SendObj p \<Rightarrow> c p
      | OverlapObj p \<Rightarrow> d p | AcceptObj p \<Rightarrow> e p)"
  by (cases x) simp_all

lemma keeps_iocp_reactor:
  "keeps (new_iocp_reactor ext)" "keeps (delete_iocp_reactor ext r)" "keeps (iocp_stop ext r)"
  "keeps (iocp_add_conn ext r p)"
  unfolding new_iocp_reactor_def delete_iocp_reactor_def iocp_stop_def iocp_add_conn_def
  by (intro keeps_basic; simp)+

lemma keeps_failed_transfer: "keeps (failed_transfer r result)"
  unfolding failed_transfer_def by (intro keeps_basic keeps_obj keeps_obj_iov)

lemma keeps_wsa_reactor:
  "keeps (new_wsa_reactor ext)" "keeps (delete_wsa_reactor ext r)" "keeps (wsa_add_event ext r d ty)"
  "keeps (wsa_stop ext r d)"
  unfolding new_wsa_reactor_def delete_wsa_reactor_def wsa_add_event_def wsa_stop_def
  by (intro keeps_basic; simp)+

lemma keeps_wsa_wait:
  "keeps (wsa_collect r)" "keeps (wsa_poll_group ext events j)" "keeps (wsa_wait_all ext events)"
  "keeps (wsa_handle events i)" "keeps (wsa_signalled ext r h)" "keeps (wsa_report r h es codes)"
  unfolding wsa_collect_def wsa_poll_group_def wsa_wait_all_def wsa_handle_def wsa_signalled_def
    wsa_report_def
  by (intro keeps_basic; simp)+

end

end
