(* ===== verification/Protocol.thy ===== *)
theory Protocol
  imports Reactor_Frames
begin

section \<open>The callback protocol of itcp_dispatcher.h\<close>

text \<open>
  What \<open>itcp_dispatcher.h\<close> promises of the callbacks of a connection, as an automaton
  over the calls a run makes: \<open>connected\<close> at most once, with the connection or with null;
  \<open>accepted\<close> instead of it; \<open>closed\<close> at most once and only after one of the two
  reported an established connection; nothing after \<open>closed\<close> or after
  \<open>connected(null)\<close>.  Data read while the connection is being established is not ruled
  out.  The theory also holds the relation \<open>quiet\<close> between states: what a function
  changes that neither calls these callbacks nor touches what decides about them.
\<close>

subsection \<open>The automaton\<close>

datatype phase = Fresh | Up | Down | Broken

fun phase_step :: "addr \<Rightarrow> phase \<Rightarrow> ext_call \<Rightarrow> phase" where
  "phase_step p ph (User (Cb_connected q cb ok)) =
     (if p \<noteq> q then ph else if ph = Fresh then (if ok then Up else Down) else Broken)"
| "phase_step p ph (User (Cb_accepted q cb)) =
     (if p \<noteq> q then ph else if ph = Fresh then Up else Broken)"
| "phase_step p ph (User (Cb_read q cb data)) =
     (if p \<noteq> q then ph else if ph = Fresh \<or> ph = Up then ph else Broken)"
| "phase_step p ph (User (Cb_closed q cb)) =
     (if p \<noteq> q then ph else if ph = Up then Down else Broken)"
| "phase_step p ph c = ph"

definition phase_of :: "addr \<Rightarrow> ext_call list \<Rightarrow> phase" where
  "phase_of p cs = foldl (phase_step p) Fresh cs"

fun conn_call :: "ext_call \<Rightarrow> bool" where
  "conn_call (User (Cb_sent _ _ _)) = False"
| "conn_call (User _) = True"
| "conn_call _ = False"

text \<open>The calls of callbacks of the connection \<open>p\<close>.\<close>

fun callback_of :: "addr \<Rightarrow> ext_call \<Rightarrow> bool" where
  "callback_of p (User (Cb_connected q _ _)) = (p = q)"
| "callback_of p (User (Cb_closed q _)) = (p = q)"
| "callback_of p (User (Cb_read q _ _)) = (p = q)"
| "callback_of p (User (Cb_accepted q _)) = (p = q)"
| "callback_of p _ = False"

text \<open>The calls that report an established connection.\<close>

fun establishes :: "addr \<Rightarrow> ext_call \<Rightarrow> bool" where
  "establishes p (User (Cb_connected q _ ok)) = (p = q \<and> ok)"
| "establishes p (User (Cb_accepted q _)) = (p = q)"
| "establishes p _ = False"

fun fails :: "addr \<Rightarrow> ext_call \<Rightarrow> bool" where
  "fails p (User (Cb_connected q _ ok)) = (p = q \<and> \<not> ok)"
| "fails p _ = False"

fun closes :: "addr \<Rightarrow> ext_call \<Rightarrow> bool" where
  "closes p (User (Cb_closed q _)) = (p = q)"
| "closes p _ = False"

text \<open>The calls of the callback of the send request \<open>p\<close>.\<close>

fun sent_to :: "addr \<Rightarrow> ext_call \<Rightarrow> bool" where
  "sent_to p (User (Cb_sent q _ _)) = (p = q)"
| "sent_to p _ = False"

lemma conn_call_other [simp]:
  "\<not> conn_call (Os a)" "\<not> conn_call (Epoll b)" "\<not> conn_call (Win c)"
  "\<not> conn_call (Addref x m)" "\<not> conn_call (Release x m)"
  by simp_all

lemma phase_step_other: "\<not> callback_of p c \<Longrightarrow> phase_step p ph c = ph"
  by (induction p ph c rule: phase_step.induct) auto

lemma callback_is_conn_call: "callback_of p c \<Longrightarrow> conn_call c"
  by (induction p c rule: callback_of.induct) auto

lemma phase_of_Nil [simp]: "phase_of p [] = Fresh"
  by (simp add: phase_of_def)

lemma phase_of_snoc [simp]: "phase_of p (cs @ [c]) = phase_step p (phase_of p cs) c"
  by (simp add: phase_of_def)

lemma phase_of_append_quiet:
  "\<forall>c \<in> set ds. \<not> conn_call c \<Longrightarrow> phase_of p (cs @ ds) = phase_of p cs"
proof (induction ds rule: rev_induct)
  case (snoc d ds)
  then have "phase_of p (cs @ ds) = phase_of p cs" and "\<not> callback_of p d"
    using callback_is_conn_call [of p d] by auto
  moreover have "phase_of p (cs @ ds @ [d]) = phase_step p (phase_of p (cs @ ds)) d"
    by (simp add: phase_of_def)
  ultimately show ?case by (simp add: phase_step_other)
qed simp

text \<open>What an unbroken history looks like.\<close>

lemma broken_stays: "foldl (phase_step p) Broken cs = Broken"
proof (induction cs)
  case (Cons c cs)
  have "phase_step p Broken c = Broken" by (induction p Broken c rule: phase_step.induct) auto
  with Cons show ?case by simp
qed simp

lemma phase_of_prefix: "phase_of p (cs @ ds) \<noteq> Broken \<Longrightarrow> phase_of p cs \<noteq> Broken"
  using broken_stays [of p ds] by (auto simp: phase_of_def)

lemma phase_step_callback:
  assumes "callback_of p c" and "phase_step p ph c \<noteq> Broken"
  shows "ph \<noteq> Down" and "phase_step p ph c = (if establishes p c then Up
     else if fails p c \<or> closes p c then Down else ph)"
    and "closes p c \<Longrightarrow> ph = Up" and "establishes p c \<or> fails p c \<Longrightarrow> ph = Fresh"
  using assms by (induction p ph c rule: phase_step.induct) (auto split: if_splits)

lemma down_stays:
  assumes "foldl (phase_step p) Down ds \<noteq> Broken"
  shows "\<forall>d \<in> set ds. \<not> callback_of p d"
  using assms
proof (induction ds)
  case (Cons d ds)
  have "\<not> callback_of p d"
  proof
    assume d: "callback_of p d"
    have "phase_step p Down d = Broken" using phase_step_callback(1) [OF d, of Down] by blast
    with Cons.prems broken_stays show False by simp
  qed
  with Cons show ?case by (simp add: phase_step_other)
qed simp

lemma up_needs: "phase_of p cs = Up \<Longrightarrow> \<exists>c \<in> set cs. establishes p c"
proof (induction cs rule: rev_induct)
  case (snoc c cs)
  show ?case
  proof (cases "callback_of p c")
    case True
    with phase_step_callback(2) [OF True, of "phase_of p cs"] snoc show ?thesis
      by (auto split: if_splits)
  next
    case False
    with snoc show ?thesis by (simp add: phase_step_other)
  qed
qed simp

lemma unbroken_after_close:
  assumes "phase_of p (cs @ c # ds) \<noteq> Broken" and "closes p c \<or> fails p c"
  shows "\<forall>d \<in> set ds. \<not> callback_of p d"
proof -
  have cb: "callback_of p c"
    using assms(2) by (induction p c rule: callback_of.induct) auto
  have u: "phase_of p (cs @ [c]) \<noteq> Broken"
    using phase_of_prefix [of p "cs @ [c]" ds] assms(1) by simp
  moreover have "\<not> establishes p c" using assms(2) by (induction p c rule: establishes.induct) auto
  ultimately have "phase_of p (cs @ [c]) = Down"
    using phase_step_callback(2) [OF cb, of "phase_of p cs"] assms(2) by auto
  then have "foldl (phase_step p) Down ds \<noteq> Broken"
    using assms(1) by (simp add: phase_of_def)
  then show ?thesis by (rule down_stays)
qed

lemma unbroken_before_close:
  assumes "phase_of p (cs @ c # ds) \<noteq> Broken" and "closes p c"
  shows "\<exists>b \<in> set cs. establishes p b"
proof -
  have cb: "callback_of p c"
    using assms(2) by (induction p c rule: callback_of.induct) auto
  have "phase_of p (cs @ [c]) \<noteq> Broken"
    using phase_of_prefix [of p "cs @ [c]" ds] assms(1) by simp
  then have "phase_of p cs = Up"
    using phase_step_callback(3) [OF cb, of "phase_of p cs"] assms(2) by simp
  then show ?thesis by (rule up_needs)
qed

lemma fresh_needs:
  "phase_of p cs = Fresh \<Longrightarrow> b \<in> set cs \<Longrightarrow> \<not> establishes p b \<and> \<not> fails p b \<and> \<not> closes p b"
proof (induction cs rule: rev_induct)
  case (snoc c cs)
  show ?case
  proof (cases "callback_of p c")
    case True
    have s: "phase_step p (phase_of p cs) c = Fresh" using snoc.prems(1) by simp
    then have "phase_step p (phase_of p cs) c \<noteq> Broken" by simp
    from phase_step_callback(2) [OF True this] s
    have "\<not> establishes p c" "\<not> fails p c" "\<not> closes p c" "phase_of p cs = Fresh"
      by (auto split: if_splits)
    with snoc show ?thesis by auto
  next
    case False
    then have "\<not> establishes p c" "\<not> fails p c" "\<not> closes p c"
      by (induction p c rule: callback_of.induct) auto
    with False snoc show ?thesis by (auto simp: phase_step_other)
  qed
qed simp

lemma unbroken_first:
  assumes "phase_of p (cs @ c # ds) \<noteq> Broken" and "establishes p c \<or> fails p c" and "b \<in> set cs"
  shows "\<not> establishes p b \<and> \<not> fails p b \<and> \<not> closes p b"
proof -
  have cb: "callback_of p c"
    using assms(2) by (induction p c rule: callback_of.induct) auto
  have "phase_of p (cs @ [c]) \<noteq> Broken"
    using phase_of_prefix [of p "cs @ [c]" ds] assms(1) by simp
  then have "phase_of p cs = Fresh"
    using phase_step_callback(4) [OF cb, of "phase_of p cs"] assms(2) by simp
  then show ?thesis by (rule fresh_needs [OF _ assms(3)])
qed

subsection \<open>Quiet changes\<close>

text \<open>
  From \<open>s\<close> to \<open>t\<close> no callback of a connection was called, every connection that is still
  there has the callbacks and the state it had, and new ones have never been connected.
\<close>

definition quiet :: "('w, 'z) base_scheme \<Rightarrow> ('w, 'z) base_scheme \<Rightarrow> bool" where
  "quiet s t \<longleftrightarrow> (\<exists>ks. calls t = calls s @ ks \<and> (\<forall>k \<in> set ks. \<not> conn_call k))
     \<and> last_addr s \<le> last_addr t
     \<and> (\<forall>p c'. conn_heap t p = Some c' \<longrightarrow>
          (\<exists>c. conn_heap s p = Some c \<and> cbs c' = cbs c \<and> conn_st c' = conn_st c)
          \<or> (last_addr s < p \<and> p \<le> last_addr t \<and> conn_st c' = Cs_wait4connect))"

lemma quietI:
  "calls t = calls s @ ks \<Longrightarrow> \<forall>k \<in> set ks. \<not> conn_call k \<Longrightarrow> last_addr s \<le> last_addr t \<Longrightarrow>
   (\<And>p c'. conn_heap t p = Some c' \<Longrightarrow>
      (\<exists>c. conn_heap s p = Some c \<and> cbs c' = cbs c \<and> conn_st c' = conn_st c)
      \<or> (last_addr s < p \<and> p \<le> last_addr t \<and> conn_st c' = Cs_wait4connect)) \<Longrightarrow> quiet s t"
  unfolding quiet_def by blast

lemma quiet_same:
  "calls t = calls s @ ks \<Longrightarrow> \<forall>k \<in> set ks. \<not> conn_call k \<Longrightarrow> last_addr s \<le> last_addr t \<Longrightarrow>
   conn_heap t = conn_heap s \<Longrightarrow> quiet s t"
  by (rule quietI) auto

lemma quiet_trans:
  assumes "quiet s t" and "quiet t u"
  shows "quiet s u"
proof -
  obtain ks where ks: "calls t = calls s @ ks" "\<forall>k \<in> set ks. \<not> conn_call k"
    using assms(1) by (auto simp: quiet_def)
  obtain ls where ls: "calls u = calls t @ ls" "\<forall>k \<in> set ls. \<not> conn_call k"
    using assms(2) by (auto simp: quiet_def)
  show ?thesis
  proof (rule quietI)
    show "calls u = calls s @ (ks @ ls)" using ks ls by simp
    show "\<forall>k \<in> set (ks @ ls). \<not> conn_call k" using ks ls by auto
    show "last_addr s \<le> last_addr u" using assms by (auto simp: quiet_def)
  next
    fix p c' assume c': "conn_heap u p = Some c'"
    have le: "last_addr s \<le> last_addr t" "last_addr t \<le> last_addr u"
      using assms by (auto simp: quiet_def)
    consider c where "conn_heap t p = Some c" "cbs c' = cbs c" "conn_st c' = conn_st c"
      | "last_addr t < p" "p \<le> last_addr u" "conn_st c' = Cs_wait4connect"
      using assms(2) c' unfolding quiet_def by blast
    then show "(\<exists>c. conn_heap s p = Some c \<and> cbs c' = cbs c \<and> conn_st c' = conn_st c)
      \<or> (last_addr s < p \<and> p \<le> last_addr u \<and> conn_st c' = Cs_wait4connect)"
    proof cases
      case (1 c)
      with assms(1) have "(\<exists>d. conn_heap s p = Some d \<and> cbs c = cbs d \<and> conn_st c = conn_st d)
        \<or> (last_addr s < p \<and> p \<le> last_addr t \<and> conn_st c = Cs_wait4connect)"
        unfolding quiet_def by blast
      with 1 le show ?thesis by auto
    next
      case 2
      with le show ?thesis by auto
    qed
  qed
qed

interpretation qt: send_frame quiet
proof unfold_locales
  fix s t u :: "('w, 'z) base_scheme"
  show "quiet s t \<Longrightarrow> quiet t u \<Longrightarrow> quiet s u" by (rule quiet_trans)
next
  fix s :: "('w, 'z) base_scheme" and k w r
  assume "\<And>u. k \<noteq> User u"
  then have "\<not> conn_call k" by (cases k) auto
  then show "quiet s (s\<lparr>world := w, trace := trace s @ [(k, r)]\<rparr>)"
    by (intro quiet_same [where ks = "[k]"]) (simp_all add: calls_def)
next
  fix s :: "('w, 'z) base_scheme" and p and c c' :: conn
  assume "conn_heap s p = Some c" "cbs c' = cbs c" "conn_st c' = conn_st c"
  then show "quiet s (s\<lparr>conn_heap := (conn_heap s)(p \<mapsto> c')\<rparr>)"
    by (intro quietI [where ks = "[]"]) (auto simp: calls_def split: if_splits)
next
  fix s :: "('w, 'z) base_scheme" and d cb
  show "quiet s (s\<lparr>conn_heap := (conn_heap s)(Suc (last_addr s) \<mapsto> new_conn_struct d cb),
      last_addr := Suc (last_addr s)\<rparr>)"
    by (rule quietI [where ks = "[]"]) (auto simp: calls_def new_conn_struct_def split: if_splits)
next
  fix s :: "('w, 'z) base_scheme" and w p cb ok r
  show "quiet s (s\<lparr>world := w, trace := trace s @ [(User (Cb_sent p cb ok), r)]\<rparr>)"
    by (rule quiet_same [where ks = "[User (Cb_sent p cb ok)]"]) (simp_all add: calls_def)
next
  fix s :: "('w, 'z) base_scheme" and p
  show "quiet s (s\<lparr>conn_heap := (conn_heap s)(p := None)\<rparr>)"
    by (rule quietI [where ks = "[]"]) (auto simp: calls_def split: if_splits)
qed (rule quiet_same [where ks = "[]"], simp_all add: calls_def)+

text \<open>From \<open>s\<close> to \<open>t\<close> the user's code was not called at all.\<close>

definition user_calls :: "ext_call list \<Rightarrow> ext_call list" where
  "user_calls ks = filter (\<lambda>k. case k of User u \<Rightarrow> True | _ \<Rightarrow> False) ks"

definition userq :: "('w, 'z) base_scheme \<Rightarrow> ('w, 'z) base_scheme \<Rightarrow> bool" where
  "userq s t \<longleftrightarrow> user_calls (calls t) = user_calls (calls s)"

lemma userq_same: "trace t = trace s \<Longrightarrow> userq s t"
  by (simp add: userq_def calls_def)

interpretation uq: send_any_frame userq
proof unfold_locales
  fix s t u :: "('w, 'z) base_scheme"
  show "userq s t \<Longrightarrow> userq t u \<Longrightarrow> userq s u" by (simp add: userq_def)
next
  fix s :: "('w, 'z) base_scheme" and k w r
  assume "\<And>u. k \<noteq> User u"
  then show "userq s (s\<lparr>world := w, trace := trace s @ [(k, r)]\<rparr>)"
    by (cases k) (auto simp: userq_def user_calls_def calls_def)
qed (rule userq_same, simp)+

interpretation qtr: reading_frame quiet
  by unfold_locales (rule quiet_same, auto simp: calls_def)

interpretation qtp: close_frame quiet
  by unfold_locales (rule quietI [where ks = "[]"], auto simp: calls_def split: if_splits)

lemma phase_of_user_calls: "phase_of p (user_calls ks) = phase_of p ks"
proof (induction ks rule: rev_induct)
  case (snoc k ks)
  then show ?case
    by (cases k) (simp_all add: user_calls_def)
qed (simp add: user_calls_def)

lemma userq_phase: "userq s t \<Longrightarrow> phase_of p (calls t) = phase_of p (calls s)"
  unfolding userq_def using phase_of_user_calls by metis

lemma sent_user_calls: "filter (sent_to p) (user_calls ks) = filter (sent_to p) ks"
proof (induction ks)
  case (Cons k ks)
  then show ?case by (cases k) (simp_all add: user_calls_def)
qed (simp add: user_calls_def)

lemma userq_sent: "userq s t \<Longrightarrow> filter (sent_to p) (calls t) = filter (sent_to p) (calls s)"
  unfolding userq_def using sent_user_calls by metis

subsection \<open>The invariant\<close>

text \<open>
  \<open>safe\<close>: no promise was broken so far.  \<open>proto\<close>: besides, the state of every connection
  tells the phase of the protocol it is in, and addresses not used yet have no history.
\<close>

definition safe :: "('w, 'z) base_scheme \<Rightarrow> bool" where
  "safe s \<longleftrightarrow> (\<forall>p. phase_of p (calls s) \<noteq> Broken)"

fun agrees :: "conn \<Rightarrow> phase \<Rightarrow> bool" where
  "agrees c ph = (case conn_st c of
     Cs_wait4connect \<Rightarrow> ph = Fresh
   | Cs_connected \<Rightarrow> ph = Up \<and> cb_connected (cbs c) = None
   | Cs_closed \<Rightarrow> ph = Down \<and> cbs c = no_callbacks)"

definition proto :: "('w, 'z) base_scheme \<Rightarrow> bool" where
  "proto s \<longleftrightarrow> safe s \<and> (\<forall>p > last_addr s. phase_of p (calls s) = Fresh)
     \<and> (\<forall>p c. conn_heap s p = Some c \<longrightarrow> p \<le> last_addr s \<and> agrees c (phase_of p (calls s)))"

lemma proto_safe: "proto s \<Longrightarrow> safe s"
  by (simp add: proto_def)

lemma quiet_phase: "quiet s t \<Longrightarrow> phase_of p (calls t) = phase_of p (calls s)"
  unfolding quiet_def using phase_of_append_quiet by metis

lemma quiet_safe: "quiet s t \<Longrightarrow> safe s \<Longrightarrow> safe t"
  by (simp add: safe_def quiet_phase)

lemma quiet_proto:
  assumes "quiet s t" and "proto s"
  shows "proto t"
proof -
  have le: "last_addr s \<le> last_addr t" using assms(1) by (simp add: quiet_def)
  have "p \<le> last_addr t \<and> agrees c (phase_of p (calls t))" if "conn_heap t p = Some c" for p c
  proof -
    from assms(1) that consider d where "conn_heap s p = Some d" "cbs c = cbs d" "conn_st c = conn_st d"
      | "last_addr s < p" "p \<le> last_addr t" "conn_st c = Cs_wait4connect"
      unfolding quiet_def by blast
    then show ?thesis
    proof cases
      case 1
      with assms(2) have "p \<le> last_addr s" and "agrees d (phase_of p (calls s))"
        by (auto simp: proto_def)
      with 1 le show ?thesis by (cases "conn_st d") (simp_all add: quiet_phase [OF assms(1)])
    next
      case 2
      with assms(2) show ?thesis by (simp add: proto_def quiet_phase [OF assms(1)])
    qed
  qed
  then show ?thesis
    using assms(2) le quiet_safe [OF assms(1)] by (auto simp: proto_def quiet_phase [OF assms(1)])
qed

lemma quiet_triple:
  fixes m :: "(('w, 'z) base_scheme, 'a) prog"
  assumes "qt.keeps m"
  shows "triple proto m (\<lambda>_. proto) proto"
proof (rule tripleI)
  fix s :: "('w, 'z) base_scheme"
  assume "proto s"
  with assms have "proto (snd (m s))" by (blast intro: quiet_proto qt.keepsD)
  then show "wp m (\<lambda>_. proto) (\<lambda>_. proto) s" by (simp add: wp_snd)
qed

lemma quiet_keeps: "qt.keeps m \<Longrightarrow> triple proto m (\<lambda>_. proto) safe"
  by (rule triple_conseq [OF quiet_triple]) (auto intro: proto_safe)

subsection \<open>While a callback runs\<close>

text \<open>
  Between the call of a callback and the assignment of the new state, one connection's
  state lags behind its phase.
\<close>

definition proto_except :: "addr \<Rightarrow> phase \<Rightarrow> ('w, 'z) base_scheme \<Rightarrow> bool" where
  "proto_except p ph s \<longleftrightarrow> safe s \<and> phase_of p (calls s) = ph \<and> p \<le> last_addr s
     \<and> (\<forall>q > last_addr s. phase_of q (calls s) = Fresh)
     \<and> (\<forall>q c. q \<noteq> p \<longrightarrow> conn_heap s q = Some c \<longrightarrow> q \<le> last_addr s \<and> agrees c (phase_of q (calls s)))"

lemma except_safe: "proto_except p ph s \<Longrightarrow> safe s"
  by (simp add: proto_except_def)

lemma except_live:
  "proto s \<Longrightarrow> conn_heap s p = Some c \<Longrightarrow> proto_except p (phase_of p (calls s)) s"
  by (auto simp: proto_except_def proto_def)

lemma except_quiet:
  assumes "quiet s t" and "proto_except p ph s"
  shows "proto_except p ph t"
proof -
  have le: "last_addr s \<le> last_addr t" using assms(1) by (simp add: quiet_def)
  have "q \<le> last_addr t \<and> agrees c (phase_of q (calls t))"
    if "q \<noteq> p" and "conn_heap t q = Some c" for q c
  proof -
    from assms(1) that consider d where "conn_heap s q = Some d" "cbs c = cbs d" "conn_st c = conn_st d"
      | "last_addr s < q" "q \<le> last_addr t" "conn_st c = Cs_wait4connect"
      unfolding quiet_def by blast
    then show ?thesis
    proof cases
      case 1
      with assms(2) that have "q \<le> last_addr s" and "agrees d (phase_of q (calls s))"
        by (auto simp: proto_except_def)
      with 1 le show ?thesis
        by (cases "conn_st d") (simp_all add: quiet_phase [OF assms(1)])
    next
      case 2
      with assms(2) show ?thesis by (simp add: proto_except_def quiet_phase [OF assms(1)])
    qed
  qed
  then show ?thesis
    using assms(2) le quiet_safe [OF assms(1)]
    by (auto simp: proto_except_def quiet_phase [OF assms(1)])
qed

lemma phase_step_elsewhere: "callback_of p k \<Longrightarrow> q \<noteq> p \<Longrightarrow> phase_step q ph k = ph"
  by (induction p k rule: callback_of.induct) auto

lemma except_event:
  assumes "proto_except p ph s" and "callback_of p k" and "phase_step p ph k \<noteq> Broken"
  shows "proto_except p (phase_step p ph k) (s\<lparr>world := w, trace := trace s @ [(k, r)]\<rparr>)"
proof -
  let ?t = "s\<lparr>world := w, trace := trace s @ [(k, r)]\<rparr>"
  have t: "calls ?t = calls s @ [k]" by (simp add: calls_def)
  have s: "safe s" "phase_of p (calls s) = ph" "p \<le> last_addr s"
    "\<forall>q > last_addr s. phase_of q (calls s) = Fresh"
    "\<And>q c. q \<noteq> p \<Longrightarrow> conn_heap s q = Some c \<Longrightarrow> q \<le> last_addr s \<and> agrees c (phase_of q (calls s))"
    using assms(1) unfolding proto_except_def by blast+
  have p: "phase_of p (calls ?t) = phase_step p ph k" using s(2) by (simp only: t phase_of_snoc)
  have q: "q \<noteq> p \<Longrightarrow> phase_of q (calls ?t) = phase_of q (calls s)" for q
    by (simp only: t phase_of_snoc phase_step_elsewhere [OF assms(2)] simp_thms)
  have "phase_of q (calls ?t) \<noteq> Broken" for q
    using p q [of q] s(1) assms(3) unfolding safe_def by (cases "q = p") auto
  moreover have "phase_of q (calls ?t) = Fresh" if "last_addr s < q" for q
    using s(3,4) that q [of q] by auto
  moreover have "q \<le> last_addr s \<and> agrees c (phase_of q (calls ?t))"
    if "q \<noteq> p" "conn_heap s q = Some c" for q c
    using s(5) [OF that] q [OF that(1)] by metis
  ultimately show ?thesis
    using s(3) p unfolding proto_except_def safe_def by simp
qed

lemma calls_conn_heap [simp]: "calls (s\<lparr>conn_heap := h\<rparr>) = calls s"
  by (simp add: calls_def)

lemma except_set: "proto_except p ph s \<Longrightarrow> agrees c ph \<Longrightarrow> proto (s\<lparr>conn_heap := (conn_heap s)(p \<mapsto> c)\<rparr>)"
  by (auto simp: proto_except_def proto_def safe_def simp del: agrees.simps)

lemma except_set_other: "proto_except p ph s \<Longrightarrow> proto_except p ph (s\<lparr>conn_heap := (conn_heap s)(p \<mapsto> c)\<rparr>)"
  by (auto simp: proto_except_def safe_def simp del: agrees.simps)

lemma except_keeps:
  fixes m :: "(('w, 'z) base_scheme, 'a) prog"
  assumes "qt.keeps m"
  shows "triple (proto_except p ph) m (\<lambda>_. proto_except p ph) safe"
proof (rule tripleI)
  fix s :: "('w, 'z) base_scheme"
  assume s: "proto_except p ph s"
  then have "proto_except p ph (snd (m s))" using assms by (blast intro: except_quiet qt.keepsD)
  then have "wp m (\<lambda>_. proto_except p ph) (\<lambda>_. proto_except p ph) s" by (simp add: wp_snd)
  then show "wp m (\<lambda>_. proto_except p ph) (\<lambda>_. safe) s" by (rule wp_mono) (auto intro: except_safe)
qed

subsection \<open>The callbacks\<close>

lemma triple_callback:
  assumes "callback_of p (User k)" and "phase_step p ph (User k) = ph'" and "ph' \<noteq> Broken"
  shows "triple (proto_except p ph) (callback ext k) (\<lambda>_. proto_except p ph') safe"
  by (rule tripleI) (use except_event [OF _ assms(1)] assms(2,3) except_safe in \<open>fastforce simp: wp_simps\<close>)

lemma triple_call_connected:
  fixes ext :: "'w ext"
  assumes ph: "ph = (if ok then Up else Down)"
  shows "triple (proto_except p Fresh :: ('w, 'z) base_scheme \<Rightarrow> bool) (call_connected ext p ok)
     (\<lambda>_. proto_except p ph) safe"
proof (rule tripleI)
  fix s :: "('w, 'z) base_scheme"
  assume s: "proto_except p Fresh s"
  have "wp (callback ext (Cb_connected p cb ok)) (\<lambda>_. proto_except p ph) (\<lambda>_. safe) s"
    for cb by (rule tripleD [OF triple_callback s]) (simp_all add: ph)
  then show "wp (call_connected ext p ok) (\<lambda>_. proto_except p ph) (\<lambda>_. safe) s"
    using except_safe [OF s] unfolding call_connected_def
    by (simp add: wp_ret_eta wp_throw wp_bnd wp_deref wp_case_option split: option.split)
qed

lemma triple_call_closed:
  fixes ext :: "'w ext"
  shows "triple (proto_except p Up :: ('w, 'z) base_scheme \<Rightarrow> bool) (call_closed ext p) (\<lambda>_. proto_except p Down) safe"
proof (rule tripleI)
  fix s :: "('w, 'z) base_scheme"
  assume s: "proto_except p Up s"
  have "wp (callback ext (Cb_closed p cb)) (\<lambda>_. proto_except p Down) (\<lambda>_. safe) s"
    for cb by (rule tripleD [OF triple_callback s]) simp_all
  then show "wp (call_closed ext p) (\<lambda>_. proto_except p Down) (\<lambda>_. safe) s"
    using except_safe [OF s] unfolding call_closed_def
    by (simp add: wp_ret_eta wp_throw wp_bnd wp_deref wp_case_option split: option.split)
qed

lemma triple_set_conn:
  "(\<And>c. agrees (f c) ph) \<Longrightarrow> triple (proto_except p ph) (set_conn p f) (\<lambda>_. proto) safe"
  by (rule tripleI) (auto simp: wp_simps intro: except_safe except_set split: option.split)

lemma triple_set_conn_other:
  "triple (proto_except p ph) (set_conn p f) (\<lambda>_. proto_except p ph) safe"
  by (rule tripleI) (auto simp: wp_simps intro: except_safe except_set_other split: option.split)

subsection \<open>Rules for the handlers\<close>

lemmas proto_triples = triple_andthen triple_bnd_inv triple_if triple_whenever triple_option

lemma triple_deref:
  "triple proto (deref conn_heap p) (\<lambda>c s. proto s \<and> conn_heap s p = Some c) safe"
  by (rule tripleI) (simp add: wp_simps proto_safe split: option.split)

lemma triple_deref_inv: "triple proto (deref h p) (\<lambda>_. proto) safe"
  by (rule tripleI) (simp add: wp_simps proto_safe split: option.split)

lemma triple_block_quiet:
  "(\<And>m. m \<in> set ms \<Longrightarrow> qt.keeps m) \<Longrightarrow> triple proto (block ms) (\<lambda>_. proto) safe"
  by (intro triple_block quiet_keeps)

lemma proto_state:
  assumes "proto s" and "conn_heap s p = Some c"
  shows "conn_st c = Cs_wait4connect \<Longrightarrow> proto_except p Fresh s"
    and "conn_st c = Cs_connected \<Longrightarrow> proto_except p Up s"
    and "cb_connected (cbs c) \<noteq> None \<Longrightarrow> proto_except p Fresh s"
    and "cb_read (cbs c) \<noteq> None \<Longrightarrow> \<exists>ph. (ph = Fresh \<or> ph = Up) \<and> phase_of p (calls s) = ph"
proof -
  have a: "agrees c (phase_of p (calls s))" using assms by (auto simp: proto_def)
  note except = except_live [OF assms]
  show "conn_st c = Cs_wait4connect \<Longrightarrow> proto_except p Fresh s"
    and "conn_st c = Cs_connected \<Longrightarrow> proto_except p Up s"
    using a except by auto
  show "cb_connected (cbs c) \<noteq> None \<Longrightarrow> proto_except p Fresh s"
    using a except by (cases "conn_st c") (auto simp: no_callbacks_def)
  show "cb_read (cbs c) \<noteq> None \<Longrightarrow> \<exists>ph. (ph = Fresh \<or> ph = Up) \<and> phase_of p (calls s) = ph"
    using a by (cases "conn_st c") (auto simp: no_callbacks_def)
qed

lemma triple_conn_state:
  "(st = Cs_wait4connect \<Longrightarrow> triple P m Q E) \<Longrightarrow> (st = Cs_connected \<Longrightarrow> triple P n Q E) \<Longrightarrow>
   (st = Cs_closed \<Longrightarrow> triple P k Q E) \<Longrightarrow>
   triple P (case st of Cs_wait4connect \<Rightarrow> m | Cs_connected \<Rightarrow> n | Cs_closed \<Rightarrow> k) Q E"
  by (cases st) simp_all

lemma triple_proto_ret: "triple (\<lambda>s. proto s \<and> F s) (ret x) (\<lambda>_. proto) safe"
  by (rule tripleI) (simp add: wp_ret)

lemma new_conn_triple:
  "triple (proto :: ('w, 'z) base_scheme \<Rightarrow> bool) (new_conn d cb) (\<lambda>p. proto_except p Fresh) safe"
proof (rule tripleI)
  fix s :: "('w, 'z) base_scheme"
  let ?p = "Suc (last_addr s)"
  let ?t = "s\<lparr>conn_heap := (conn_heap s)(?p \<mapsto> new_conn_struct d cb), last_addr := ?p\<rparr>"
  assume s: "proto s"
  have q: "quiet s ?t" by (rule qt.conn_new)
  have "proto ?t" by (rule quiet_proto [OF q s])
  moreover have "phase_of ?p (calls ?t) = Fresh"
    unfolding quiet_phase [OF q] using s by (simp add: proto_def)
  ultimately have "proto_except ?p Fresh ?t"
    using except_live [of ?t ?p "new_conn_struct d cb"] by simp
  then show "wp (new_conn d cb) (\<lambda>p. proto_except p Fresh) (\<lambda>_. safe) s"
    by (simp add: wp_new_conn)
qed

text \<open>The read callback changes nothing of the protocol, even when it throws.\<close>

lemma read_event:
  assumes "proto s" and "conn_heap s p = Some c" and "cb_read (cbs c) \<noteq> None"
  shows "proto (s\<lparr>world := w, trace := trace s @ [(User (Cb_read p cb data), r)]\<rparr>)"
proof -
  let ?t = "s\<lparr>world := w, trace := trace s @ [(User (Cb_read p cb data), r)]\<rparr>"
  obtain ph where ph: "ph = Fresh \<or> ph = Up" "phase_of p (calls s) = ph"
    using proto_state(4) [OF assms] by blast
  have "proto_except p ph s" using except_live [OF assms(1,2)] ph by simp
  then have "proto_except p (phase_step p ph (User (Cb_read p cb data))) ?t"
    by (rule except_event) (use ph in auto)
  then have "proto_except p ph ?t" using ph by auto
  moreover have "agrees c ph" using assms(1,2) ph by (auto simp: proto_def)
  ultimately have "proto (?t\<lparr>conn_heap := (conn_heap ?t)(p \<mapsto> c)\<rparr>)" by (rule except_set)
  moreover have "?t\<lparr>conn_heap := (conn_heap ?t)(p \<mapsto> c)\<rparr> = ?t"
    using assms(2) by (simp add: fun_upd_idem)
  ultimately show ?thesis by simp
qed

lemma call_read_wp:
  assumes "proto s" and "conn_heap s p = Some c" and "cb_read (cbs c) \<noteq> None"
  shows "wp (call_read ext p data) (\<lambda>_. proto) (\<lambda>_. proto) s"
  using assms read_event [OF assms]
  by (auto simp: call_read_def wp_ret_eta wp_bnd wp_deref wp_case_option wp_throw wp_callback wp_call
      split: option.split)

definition reads :: "addr \<Rightarrow> conn \<Rightarrow> ('w, 'z) base_scheme \<Rightarrow> bool" where
  "reads p c s \<longleftrightarrow> proto s \<and> conn_heap s p = Some c \<and> cb_read (cbs c) \<noteq> None"

lemma reads_keeps:
  fixes m :: "(('w, 'z) base_scheme, 'a) prog"
  assumes "qt.keeps m" and "\<And>s :: ('w, 'z) base_scheme. conn_heap (snd (m s)) = conn_heap s"
  shows "triple (reads p c) m (\<lambda>_. reads p c) proto"
proof (rule tripleI)
  fix s :: "('w, 'z) base_scheme"
  assume "reads p c s"
  then have "reads p c (snd (m s))"
    using assms(2) quiet_proto [OF qt.keepsD [OF assms(1)]] by (simp add: reads_def)
  then have "wp m (\<lambda>_. reads p c) (\<lambda>_. reads p c) s" by (simp add: wp_snd)
  then show "wp m (\<lambda>_. reads p c) (\<lambda>_. proto) s" by (rule wp_mono) (auto simp: reads_def)
qed

lemma reads_call_read: "triple (reads p c) (call_read ext p data) (\<lambda>_. proto) proto"
  by (rule tripleI) (auto simp: reads_def intro: call_read_wp)

lemma reads_ret: "triple (reads p c) (ret x) (\<lambda>_. proto) E"
  by (rule tripleI) (simp add: reads_def wp_ret)

lemma deref_heaps: "snd (deref h p s) = s"
  by (simp add: deref_def split: option.split)

lemma call_heaps: "conn_heap (snd (call ext k s)) = conn_heap s"
  by (simp add: call_def split: prod.split)

lemma set_recv_heaps: "conn_heap (snd (set_recv p f s)) = conn_heap s"
  by (simp add: set_recv_def bnd_def deref_def modify_def split: option.split)

text \<open>Functions that do not call the user's code leave the promises as they are.\<close>

lemma userq_safe:
  fixes m :: "(('w, 'z) base_scheme, 'a) prog"
  assumes "uq.keeps m" and "safe s"
  shows "safe (snd (m s))"
  using userq_phase [OF uq.keepsD [OF assms(1)]] assms(2) unfolding safe_def by metis

text \<open>Before it is connected, a connection's address and callbacks may be replaced.\<close>

lemma waiting_set_addr:
  "triple (\<lambda>s. proto s \<and> (\<forall>c. conn_heap s p = Some c \<longrightarrow> conn_st c = Cs_wait4connect))
     (set_conn p (conn_addr_update f))
     (\<lambda>_ s. proto s \<and> (\<forall>c. conn_heap s p = Some c \<longrightarrow> conn_st c = Cs_wait4connect)) proto"
  (is "triple ?P _ _ _")
proof (rule tripleI)
  fix s assume s: "?P s"
  then have "proto (s\<lparr>conn_heap := (conn_heap s)(p \<mapsto> conn_addr_update f c)\<rparr>)"
    if "conn_heap s p = Some c" for c
    by (intro quiet_proto [OF qt.conn_same [OF that]]) simp_all
  then show "wp (set_conn p (conn_addr_update f)) (\<lambda>_. ?P) (\<lambda>_. proto) s"
    using s by (auto simp: wp_set_conn split: option.split)
qed

lemma waiting_set_cbs:
  "triple (\<lambda>s. proto s \<and> (\<forall>c. conn_heap s p = Some c \<longrightarrow> conn_st c = Cs_wait4connect))
     (set_conn p (cbs_update f)) (\<lambda>_. proto) proto"
  (is "triple ?P _ _ _")
proof (rule tripleI)
  fix s assume s: "?P s"
  then have "proto (s\<lparr>conn_heap := (conn_heap s)(p \<mapsto> cbs_update f c)\<rparr>)"
    if "conn_heap s p = Some c" for c
    using except_set [OF proto_state(1) [of s p c], of "cbs_update f c"] that by simp
  then show "wp (set_conn p (cbs_update f)) (\<lambda>_. proto) (\<lambda>_. proto) s"
    using s by (auto simp: wp_set_conn split: option.split)
qed

end
