(* ===== verification/Tcp_Frames.thy ===== *)
theory Tcp_Frames
  imports Tcp_Dispatcher Protocol
begin

section \<open>Frames of the Linux dispatcher\<close>

text \<open>
  The functions of the dispatcher that do not call a connection's callbacks stay within
  every frame that lets the dispatcher's own members change: the locale \<open>tcp_frame\<close>.  Most
  of the dispatcher's interface and all of its sending is of this kind.  A frame may
  speak about the limiter, the queues, the messages or the reactor, too: then it is the
  few operations on them that have to stay within it.  \<open>tcp_base_frame\<close> is the part of the
  contract that does not queue or send requests, \<open>tcp_any_frame\<close> the contract of the frames
  that ignore all members.
\<close>

lemma not_send_request [simp]:
  "P_CREATE_CONNECTION \<noteq> P_SEND_REQUEST" "P_CLOSE_CONNECTION \<noteq> P_SEND_REQUEST"
  "P_CLOSE_CONNECTION_WAIT \<noteq> P_SEND_REQUEST" "P_BREAK_SEND \<noteq> P_SEND_REQUEST"
  by (simp_all add: message_codes)

locale tcp_base_frame = frame R for R :: "('w, 'z) tcp_scheme \<Rightarrow> ('w, 'z) tcp_scheme \<Rightarrow> bool" +
  assumes listening_any: "R s (s\<lparr>listening_socket := d\<rparr>)"
    and ec_any: "R s (s\<lparr>ec := p\<rparr>)"
    and accepted_any: "R s (s\<lparr>accepted := a\<rparr>)"
    and counter_any: "R s (s\<lparr>sockets_counter := n\<rparr>)"
    and keeps_other_ptr: "k \<noteq> P_SEND_REQUEST \<Longrightarrow> keeps (post_ptr ext self k p)"
    and keeps_post: "keeps (post ext self k)"
    and keeps_bw_on: "keeps (limiter_update (bw_on p))"
    and keeps_bw_off: "keeps (limiter_update (bw_off p))"
    and keeps_bw_erase: "keeps (limiter_update (bw_erase p))"
    and keeps_set_limit: "keeps (limiter_update (set_limit limit))"
    and keeps_limiter_insert: "keeps (limiter_insert ext p limit)"
    and keeps_limiter_recalc: "keeps (limiter_recalc ext ub)"
    and keeps_dtor_finish: "keeps (dtor_finish ext)"
begin

lemmas keeps_limiter = keeps_bw_on keeps_bw_off keeps_bw_erase keeps_set_limit
  keeps_limiter_insert keeps_limiter_recalc

lemma keeps_with_mr: "(\<And>r. keeps (f r)) \<Longrightarrow> keeps (with_mr f)"
  unfolding with_mr_def by (intro keeps_basic)

lemmas keeps_posts = keeps_other_ptr [OF not_send_request(1)] keeps_other_ptr [OF not_send_request(2)]
  keeps_other_ptr [OF not_send_request(3)] keeps_other_ptr [OF not_send_request(4)]

lemmas keeps_members = keeps_with_mr keeps_posts keeps_post keeps_limiter

lemma keeps_open_socket: "keeps (open_socket ext)"
  unfolding open_socket_def by (intro keeps_basic) simp_all

lemma keeps_new_recv_for: "keeps (new_recv_for ext p mark)"
  unfolding new_recv_for_def by (intro keeps_basic keeps_objects) simp_all

lemma keeps_make_conn: "keeps (make_conn ext)"
  unfolding make_conn_def by (intro keeps_basic keeps_objects keeps_open_socket)

lemma keeps_connect: "keeps (connect ext self ip port cb)"
  unfolding connect_def
  by (intro keeps_basic keeps_objects keeps_open_socket keeps_new_recv_for keeps_posts
      keeps_modify counter_any) simp_all

lemma keeps_close_conn: "keeps (close_conn ext self p)"
  unfolding close_conn_def by (intro keeps_basic keeps_objects keeps_posts)

lemma keeps_close_conn_wait: "keeps (close_conn_wait ext self p)"
  unfolding close_conn_wait_def by (intro keeps_basic keeps_objects keeps_posts)

lemma keeps_close_conn_wait_return: "keeps (close_conn_wait_return p)"
  unfolding close_conn_wait_return_def by (rule keeps_close_wait)

lemma keeps_get_ip_port: "keeps (get_ip_port p)"
  unfolding get_ip_port_def by (intro keeps_basic)

lemmas keeps_interface = keeps_make_conn keeps_connect keeps_close_conn keeps_close_conn_wait
  keeps_close_conn_wait_return keeps_get_ip_port

lemma keeps_create_connection: "keeps (create_connection ext p)"
  unfolding create_connection_def by (intro keeps_with_mr keeps_add_conn)

lemma keeps_close_socket: "keeps (close_socket ext p)"
  unfolding close_socket_def by (intro keeps_basic) simp_all

lemma keeps_drop_connection: "keeps (drop_connection ext p)"
  unfolding drop_connection_def block.simps
  by (intro keeps_basic keeps_objects keeps_bw_erase keeps_modify counter_any)

lemmas keeps_thread = keeps_create_connection keeps_close_socket keeps_drop_connection

end

locale tcp_wait_frame = tcp_base_frame + reading_frame
begin

lemma keeps_wait_interrupt: "keeps (wait_interrupt ext fuel)"
  unfolding wait_interrupt_def by (intro keeps_basic keeps_with_mr keeps_get_interrupt)

end

text \<open>The functions that change send requests, but not their queues.\<close>

locale tcp_request_frame = tcp_base_frame + send_frame
begin

lemma keeps_break_send:
  "keeps (break_send ext self sr)" "keeps (break_send_init sr)" "keeps (break_send_return sr)"
  unfolding break_send_def break_send_init_def break_send_return_def
  by (intro keeps_basic keeps_objects keeps_posts keeps_set_send keeps_break)+

lemma keeps_call_false_cb: "keeps (call_false_cb ext sr)"
  unfolding call_false_cb_def block.simps
  by (intro keeps_basic keeps_send_callback keeps_set_send keeps_break keeps_objects)

lemma keeps_do_send: "keeps (do_send ext sr g)"
  unfolding do_send_def send_answered_def sent_some_def finish_send_def
  by (intro keeps_basic keeps_bw_off keeps_limiter_insert keeps_send_callback
      keeps_objects keeps_set_send) simp_all

lemma keeps_sends_pass: "keeps (sends_pass ext g srs)"
proof (induction srs arbitrary: g)
  case (Cons sr srs)
  show ?case unfolding sends_pass.simps by (intro keeps_basic keeps_do_send Cons)
qed (simp add: keeps_ret)

end

text \<open>A frame that lets requests be queued and taken out of their queues, too.\<close>

locale tcp_frame = tcp_base_frame +
  assumes keeps_post_ptr: "keeps (post_ptr ext self k p)"
    and keeps_queue_send: "keeps (queue_send sr)"
    and keeps_requests: "keeps (modify (\<lambda>s. s\<lparr>outgoings := map_modify p (\<lambda>_. rest) (outgoings s)\<rparr>))"

locale tcp_send_frame = tcp_frame + tcp_request_frame
begin

lemma keeps_send_req_of: "keeps (send_req_of ext self p buf cb)"
  unfolding send_req_of_def
  by (intro keeps_basic keeps_new_send_req keeps_set_send keeps_objects keeps_post_ptr)

lemma keeps_send_no_callback: "keeps (send_no_callback ext self p buf)"
  unfolding send_no_callback_def by (intro keeps_basic keeps_send_req_of keeps_objects)

lemmas keeps_sending_interface = keeps_send_req_of keeps_send_no_callback keeps_break_send

lemma keeps_serve: "keeps (serve ext g p)"
  unfolding serve_def by (intro keeps_basic keeps_sends_pass keeps_requests)

lemma keeps_idle_pass: "keeps (idle_pass ext ub)"
  unfolding idle_pass_def by (intro keeps_basic keeps_serve keeps_limiter_recalc)

lemmas keeps_sending = keeps_call_false_cb keeps_serve keeps_idle_pass

end

text \<open>The functions that change connections and call their callbacks.\<close>

locale tcp_conn_frame = tcp_base_frame + conn_frame
begin

lemma keeps_connect_conn: "keeps (connect_conn ext self p ip port cb)"
  unfolding connect_conn_def
  by (intro keeps_basic keeps_set_conn_any keeps_new_recv_for keeps_posts) simp_all

lemma keeps_close_connection: "keeps (close_connection ext p)"
  unfolding close_connection_def forget_callbacks_def block.simps
  by (intro keeps_basic keeps_conn_state keeps_connection_calls keeps_set_conn_any keeps_objects
      keeps_close_socket keeps_drop_connection) simp_all

lemma keeps_set_connected: "keeps (set_connected p)"
  unfolding set_connected_def by (rule keeps_set_conn_any) simp

lemma keeps_accept_connection: "keeps (accept_connection ext)"
  unfolding accept_connection_def call_accepted_def block.simps
  by (intro keeps_basic keeps_set_conn_any keeps_objects keeps_callback keeps_set_connected
      keeps_new_recv_for keeps_with_mr keeps_add_conn keeps_limiter_insert keeps_modify
      counter_any) simp_all

lemma keeps_accept_all: "keeps (accept_all ext fuel)"
proof (induction fuel)
  case (Suc fuel)
  show ?case unfolding accept_all.simps by (intro keeps_basic keeps_accept_connection Suc)
qed (simp add: keeps_throw)

lemma keeps_connection_established: "keeps (connection_established ext p)"
  unfolding connection_established_def block.simps
  by (intro keeps_basic keeps_connection_calls keeps_set_connected keeps_limiter_insert)

lemma keeps_do_recv: "keeps (do_recv ext p)"
  unfolding do_recv_def received_def
  by (intro keeps_basic keeps_connection_calls) simp_all

lemma keeps_handle_readable: "keeps (handle_readable ext fuel p)"
  unfolding handle_readable_def
  by (intro keeps_basic keeps_accept_all keeps_do_recv keeps_close_connection)

lemmas keeps_connections = keeps_connect_conn keeps_close_connection keeps_connection_established
  keeps_handle_readable

end

text \<open>
  The functions that do both, and a frame in which the constructor may set the reactor and
  the messages: there is nothing that leaves it.
\<close>

locale tcp_work_frame = tcp_send_frame + tcp_conn_frame
begin

lemma keeps_other_message: "im_code im \<noteq> P_CLOSE_CONNECTION_WAIT \<Longrightarrow> keeps (handle_message ext im)"
  unfolding handle_message_def with_ptr_def
  by (intro keeps_basic keeps_modify accepted_any keeps_objects keeps_thread keeps_close_connection
      keeps_queue_send keeps_call_false_cb) simp_all

lemma keeps_handle_event: "keeps (handle_event ext fuel info)"
  unfolding handle_event_def handle_writable_def
  by (intro keeps_basic keeps_objects keeps_connection_established keeps_bw_on keeps_serve
      keeps_close_connection keeps_handle_readable)

end

locale tcp_message_frame = tcp_work_frame + close_frame
begin

lemma keeps_handle_message: "keeps (handle_message ext im)"
  unfolding handle_message_def with_ptr_def
  by (intro keeps_basic keeps_modify accepted_any keeps_objects keeps_thread keeps_close_connection
      keeps_queue_send keeps_call_false_cb keeps_close_post)

end

locale tcp_init_frame = tcp_frame +
  assumes mr_any: "R s (s\<lparr>mr := m\<rparr>)"
    and messages_any: "R s (s\<lparr>i_messages := q\<rparr>)"
begin

lemma keeps_start_listening: "keeps (start_listening ext port)"
  unfolding start_listening_def
  by (intro keeps_basic keeps_reactor keeps_objects keeps_modify mr_any messages_any listening_any
      ec_any) simp_all

end

locale tcp_all_frame = tcp_message_frame + tcp_init_frame + tcp_wait_frame
begin

lemma keeps_handle_wakeup: "keeps (handle_wakeup ext)"
  unfolding handle_wakeup_def
  by (intro keeps_basic keeps_modify messages_any keeps_handle_message)

lemma keeps_handle_entry: "keeps (handle_entry ext fuel revent)"
  unfolding handle_entry_def by (intro keeps_basic keeps_handle_wakeup keeps_handle_event)

lemma keeps_constructor_rest:
  "keeps (whenever (port \<noteq> 0)
     (try_catch (start_listening ext port) (\<lambda>e.
       bnd (gets listening_socket) (\<lambda>l.
       andthen (whenever (l \<noteq> -1) (invoke ext (Os (Close l))))
       (bnd (gets mr) (\<lambda>m.
       andthen (case m of None \<Rightarrow> ret () | Some R \<Rightarrow> delete_linux_reactor ext R)
       (throw e)))))))"
  by (intro keeps_basic keeps_start_listening keeps_delete_linux_reactor) simp_all

end

text \<open>The frames that ignore the members.\<close>

locale tcp_any_frame = frame R for R :: "('w, 'z) tcp_scheme \<Rightarrow> ('w, 'z) tcp_scheme \<Rightarrow> bool" +
  assumes any_listening: "R s (s\<lparr>listening_socket := d\<rparr>)"
    and any_ec: "R s (s\<lparr>ec := p\<rparr>)"
    and any_mr: "R s (s\<lparr>mr := m\<rparr>)"
    and any_accepted: "R s (s\<lparr>accepted := a\<rparr>)"
    and any_messages: "R s (s\<lparr>i_messages := q\<rparr>)"
    and outgoings_any: "R s (s\<lparr>outgoings := og\<rparr>)"
    and bws_any: "R s (s\<lparr>bws := b\<rparr>)"
    and any_counter: "R s (s\<lparr>sockets_counter := n\<rparr>)"
begin

lemma any_with_mr: "(\<And>r. keeps (f r)) \<Longrightarrow> keeps (with_mr f)"
  unfolding with_mr_def by (intro keeps_basic)

lemma any_post_ptr: "keeps (post_ptr ext self k p)"
  unfolding post_ptr_def wake_def with_messages_def
  by (intro keeps_basic keeps_modify any_messages any_with_mr keeps_reactor_stop)

lemma any_post: "keeps (post ext self k)"
  unfolding post_def wake_def with_messages_def
  by (intro keeps_basic keeps_modify any_messages any_with_mr keeps_reactor_stop)

lemma any_limiter_update: "keeps (limiter_update f)"
  unfolding limiter_update_def by (intro keeps_modify bws_any)

lemma any_limiter_insert: "keeps (limiter_insert ext p limit)"
  unfolding limiter_insert_def by (intro keeps_basic any_limiter_update) simp_all

lemma any_limiter_recalc: "keeps (limiter_recalc ext ub)"
  unfolding limiter_recalc_def by (intro keeps_basic any_limiter_update) simp_all

lemma any_queue_send: "keeps (queue_send sr)"
  unfolding queue_send_def by (intro keeps_basic keeps_modify outgoings_any)

lemma any_dtor_finish: "keeps (dtor_finish ext)"
  unfolding dtor_finish_def assertion_def
  by (intro keeps_basic keeps_reactor keeps_modify any_mr) simp_all

end

sublocale tcp_any_frame \<subseteq> tcp_init_frame
  by unfold_locales (intro any_listening any_ec any_accepted any_counter any_mr any_messages any_post_ptr
      any_post any_limiter_update any_limiter_insert any_limiter_recalc any_queue_send
      any_dtor_finish keeps_modify outgoings_any)+

interpretation tq: tcp_any_frame "quiet :: ('w, 'z) tcp_scheme \<Rightarrow> ('w, 'z) tcp_scheme \<Rightarrow> bool"
  by unfold_locales (rule quiet_same [where ks = "[]"], simp_all add: calls_def)+

interpretation tqs: tcp_send_frame "quiet :: ('w, 'z) tcp_scheme \<Rightarrow> ('w, 'z) tcp_scheme \<Rightarrow> bool"
  by unfold_locales

interpretation tqw: tcp_wait_frame "quiet :: ('w, 'z) tcp_scheme \<Rightarrow> ('w, 'z) tcp_scheme \<Rightarrow> bool"
  by unfold_locales

lemma new_tcp_dispatcher_quiet: "qt.keeps (new_tcp_dispatcher ext j port cb)"
  unfolding new_tcp_dispatcher_def
proof (intro qt.keeps_basic tq.keeps_start_listening qt.keeps_delete_linux_reactor qt.keeps_modify)
  show "quiet s (s\<lparr>sockets_counter := 0, bws := new_bwstop j \<lparr>tb_time = 0, tb_millitm = 0\<rparr> 0,
       listening_socket := -1, accepted := cb, ec := 0, mr := None, i_messages := None,
       outgoings := []\<rparr>)" for s :: "('w, 'z) tcp_scheme"
    by (rule quiet_same [where ks = "[]"]) (simp_all add: calls_def)
qed simp_all

end
