(* ===== verification/Tcp_System.thy ===== *)
theory Tcp_System
  imports Tcp_Frames
begin

section \<open>The Linux dispatcher as a system of threads\<close>

text \<open>
  The dispatcher thread waits, handles the entries of the map it got one by one, works on
  the queued requests when the wait timed out, and waits again.  Between any two of these
  steps other threads, and callbacks that have returned meanwhile, call the functions of
  the interface.  A function that throws anything ends the process: all of them are
  declared \<open>throw()\<close>, and \<open>thread_proc\<close> rethrows.
\<close>

subsection \<open>Steps\<close>

datatype api =
    Api_make_conn
  | Api_connect_conn addr u32 u16 callbacks
  | Api_connect u32 u16 callbacks
  | Api_close_conn addr
  | Api_close_conn_wait addr
  | Api_close_conn_wait_return addr
  | Api_release addr
  | Api_addref addr
  | Api_release_send addr
  | Api_send addr "u8 list" "cbid option"
  | Api_send_no_callback addr "u8 list"
  | Api_break_send addr
  | Api_break_send_init addr
  | Api_break_send_return addr
  | Api_stop_accepting
  | Api_get_ip_port addr
  | Api_set_bandwidth u32
  | Api_delete
  | Api_delete_finish

definition discard :: "('s, 'a) prog \<Rightarrow> ('s, unit) prog" where
  "discard m = bnd m (\<lambda>_. ret ())"

fun run_api :: "'w ext \<Rightarrow> nat \<Rightarrow> api \<Rightarrow> ('w tcp, unit) prog" where
  "run_api ext self Api_make_conn = discard (make_conn ext)"
| "run_api ext self (Api_connect_conn p ip port cb) = connect_conn ext self p ip port cb"
| "run_api ext self (Api_connect ip port cb) = discard (connect ext self ip port cb)"
| "run_api ext self (Api_close_conn p) = close_conn ext self p"
| "run_api ext self (Api_close_conn_wait p) = close_conn_wait ext self p"
| "run_api ext self (Api_close_conn_wait_return p) = discard (close_conn_wait_return p)"
| "run_api ext self (Api_release p) = release ext p"
| "run_api ext self (Api_addref p) = addref ext p"
| "run_api ext self (Api_release_send p) = release_send ext p"
| "run_api ext self (Api_send p buf cb) = discard (send_req_of ext self p buf cb)"
| "run_api ext self (Api_send_no_callback p buf) = discard (send_no_callback ext self p buf)"
| "run_api ext self (Api_break_send p) = break_send ext self p"
| "run_api ext self (Api_break_send_init p) = break_send_init p"
| "run_api ext self (Api_break_send_return p) = discard (break_send_return p)"
| "run_api ext self Api_stop_accepting = stop_accepting ext self"
| "run_api ext self (Api_get_ip_port p) = discard (get_ip_port p)"
| "run_api ext self (Api_set_bandwidth n) = set_bandwidth n"
| "run_api ext self Api_delete = dtor_request ext self"
| "run_api ext self Api_delete_finish = dtor_finish ext"

text \<open>Where the dispatcher thread is.\<close>

datatype thread = Waiting | Handling interrupt | Idle | Ended | Failed exn

text \<open>
  What \<open>itcp_dispatcher.h\<close> asks of the callers of \<open>connect(conn,..)\<close>: a connection that
  was not connected yet.  The destructor joins the thread before it goes on.
\<close>

fun api_allowed :: "api \<Rightarrow> thread \<times> 'w tcp \<Rightarrow> bool" where
  "api_allowed (Api_connect_conn p ip port cb) (th, s) =
     (case conn_heap s p of None \<Rightarrow> True | Some c \<Rightarrow> conn_st c = Cs_wait4connect)"
| "api_allowed Api_delete_finish (th, s) = (th = Ended)"
| "api_allowed _ _ = True"

fun thread_step :: "'w ext \<Rightarrow> (double \<Rightarrow> u32) \<Rightarrow> nat \<Rightarrow> thread \<times> 'w tcp \<Rightarrow> thread \<times> 'w tcp" where
  "thread_step ext ub fuel (Waiting, s) = (case wait_interrupt ext fuel s of
     (Inl e, t) \<Rightarrow> (Failed e, t)
   | (Inr result, t) \<Rightarrow> (if result = [] then Idle else Handling result, t))"
| "thread_step ext ub fuel (Handling [], s) = (Waiting, s)"
| "thread_step ext ub fuel (Handling (revent # rest), s) = (case handle_entry ext fuel revent s of
     (Inl e, t) \<Rightarrow> (Failed e, t)
   | (Inr exit, t) \<Rightarrow> (if exit then Ended else Handling rest, t))"
| "thread_step ext ub fuel (Idle, s) = (case idle_pass ext ub s of
     (Inl e, t) \<Rightarrow> (Failed e, t)
   | (Inr _, t) \<Rightarrow> (Waiting, t))"
| "thread_step ext ub fuel (Ended, s) = (Ended, s)"
| "thread_step ext ub fuel (Failed e, s) = (Failed e, s)"

fun api_step :: "'w ext \<Rightarrow> nat \<Rightarrow> api \<Rightarrow> thread \<times> 'w tcp \<Rightarrow> thread \<times> 'w tcp" where
  "api_step ext self a (Failed e, s) = (Failed e, s)"
| "api_step ext self a (th, s) = (case run_api ext self a s of
     (Inl e, t) \<Rightarrow> (Failed e, t)
   | (Inr _, t) \<Rightarrow> (th, t))"

inductive step :: "'w ext \<Rightarrow> (double \<Rightarrow> u32) \<Rightarrow> thread \<times> 'w tcp \<Rightarrow> thread \<times> 'w tcp \<Rightarrow> bool"
  for ext :: "'w ext" and ub :: "double \<Rightarrow> u32" where
  by_thread: "step ext ub c (thread_step ext ub fuel c)"
| by_api: "api_allowed a c \<Longrightarrow> step ext ub c (api_step ext self a c)"

text \<open>
  A run starts with the constructor; \<open>world\<close> is any outside world and the heap is empty.
\<close>

definition empty_base :: "'w \<Rightarrow> 'w tcp" where
  "empty_base w = \<lparr>world = w, trace = [], conn_heap = (\<lambda>_. None), recv_heap = (\<lambda>_. None),
     send_heap = (\<lambda>_. None), overlap_heap = (\<lambda>_. None), accept_heap = (\<lambda>_. None), last_addr = 0,
     listening_socket = -1, ec = 0, mr = None, accepted = None, i_messages = None, outgoings = [],
     bws = new_bwstop 0 \<lparr>tb_time = 0, tb_millitm = 0\<rparr> 0, sockets_counter = 0\<rparr>"

definition initial :: "'w ext \<Rightarrow> thread \<times> 'w tcp \<Rightarrow> bool" where
  "initial ext c \<longleftrightarrow> (\<exists>w j port cb t.
     new_tcp_dispatcher ext j port cb (empty_base w) = (Inr (), t) \<and> c = (Waiting, t))"

inductive reachable :: "'w ext \<Rightarrow> (double \<Rightarrow> u32) \<Rightarrow> thread \<times> 'w tcp \<Rightarrow> bool"
  for ext :: "'w ext" and ub :: "double \<Rightarrow> u32" where
  start: "initial ext c \<Longrightarrow> reachable ext ub c"
| next_step: "reachable ext ub c \<Longrightarrow> step ext ub c d \<Longrightarrow> reachable ext ub d"

inductive_cases stepE: "step ext ub c d"

text \<open>
  The steps of one iteration are the loop body of \<open>thread_proc\<close>.
\<close>

fun steps_n :: "'w ext \<Rightarrow> (double \<Rightarrow> u32) \<Rightarrow> nat \<Rightarrow> nat \<Rightarrow> thread \<times> 'w tcp \<Rightarrow> thread \<times> 'w tcp" where
  "steps_n ext ub fuel 0 c = c"
| "steps_n ext ub fuel (Suc n) c = steps_n ext ub fuel n (thread_step ext ub fuel c)"

lemma steps_n_stuck [simp]: "steps_n ext ub fuel n (Failed e, s) = (Failed e, s)"
  "steps_n ext ub fuel n (Ended, s) = (Ended, s)"
  by (induction n) simp_all

lemma handling_steps:
  "steps_n ext ub fuel (Suc (length result)) (Handling result, s) =
     (case for_until (handle_entry ext fuel) result s of
        (Inl e, t) \<Rightarrow> (Failed e, t)
      | (Inr exit, t) \<Rightarrow> (if exit then Ended else Waiting, t))"
proof (induction result arbitrary: s)
  case (Cons revent rest)
  then show ?case
    by (auto simp: bnd_def ret_def split: prod.splits sum.splits)
qed (simp add: ret_def)

definition outcome :: "(exn + bool) \<times> 'w tcp \<Rightarrow> thread \<times> 'w tcp" where
  "outcome r = (case r of (Inl e, t) \<Rightarrow> (Failed e, t)
     | (Inr exit, t) \<Rightarrow> (if exit then Ended else Waiting, t))"

lemma iteration_steps:
  "\<exists>n. steps_n ext ub fuel n (Waiting, s) = outcome (thread_iteration ext ub fuel s)"
proof (cases "wait_interrupt ext fuel s")
  case (Pair r t)
  show ?thesis
  proof (cases r)
    case (Inl e)
    then have "steps_n ext ub fuel 1 (Waiting, s) = outcome (thread_iteration ext ub fuel s)"
      using Pair by (simp add: outcome_def thread_iteration_def bnd_def)
    then show ?thesis by blast
  next
    case (Inr result)
    show ?thesis
    proof (cases "result = []")
      case True
      have "steps_n ext ub fuel 2 (Waiting, s) = outcome (thread_iteration ext ub fuel s)"
        using Pair Inr True
        by (auto simp: numeral_2_eq_2 outcome_def thread_iteration_def bnd_def andthen_def ret_def
            whenever_def split: prod.splits sum.splits)
      then show ?thesis by blast
    next
      case False
      have "steps_n ext ub fuel (Suc (Suc (length result))) (Waiting, s) =
          outcome (thread_iteration ext ub fuel s)"
        using Pair Inr False handling_steps [of ext ub fuel result t]
        by (auto simp: outcome_def thread_iteration_def bnd_def andthen_def ret_def
            whenever_def simp del: steps_n.simps(2) split: prod.splits sum.splits)
          (simp_all add: steps_n.simps(2) [of _ _ _ "Suc (length result)"])
      then show ?thesis by blast
    qed
  qed
qed

subsection \<open>Invariants of every run\<close>

text \<open>
  The contract of an invariant: \<open>I\<close> while the process runs, and what is left of it, \<open>J\<close>,
  once something has been thrown.
\<close>

locale step_invariant =
  fixes ext :: "'w ext" and I J :: "'w tcp \<Rightarrow> bool"
  assumes weaker: "I s \<Longrightarrow> J s"
    and wait_triple: "triple I (wait_interrupt ext fuel) (\<lambda>_. I) J"
    and entry_triple: "triple I (handle_entry ext fuel revent) (\<lambda>_. I) J"
    and idle_triple: "triple I (idle_pass ext ub) (\<lambda>_. I) J"
    and api_wp: "I s \<Longrightarrow> api_allowed a (th, s) \<Longrightarrow> wp (run_api ext self a) (\<lambda>_. I) (\<lambda>_. J) s"
begin

definition holds :: "thread \<times> 'w tcp \<Rightarrow> bool" where
  "holds c = (case fst c of Failed e \<Rightarrow> J (snd c) | _ \<Rightarrow> I (snd c))"

lemma result:
  assumes "wp m (\<lambda>_. I) (\<lambda>_. J) s"
  shows "m s = (Inl e, t) \<Longrightarrow> J t" and "m s = (Inr x, t) \<Longrightarrow> I t"
  using wp_Inl [OF assms] wp_Inr [OF assms] by auto

lemma holds_J: "holds c \<Longrightarrow> J (snd c)"
  by (auto simp: holds_def intro: weaker split: thread.splits)

lemma thread_holds: "holds c \<Longrightarrow> holds (thread_step ext ub fuel c)"
proof -
  obtain th s where c: "c = (th, s)" by (cases c)
  assume h: "holds c"
  show ?thesis
  proof (cases th)
    case Waiting
    with h c have "wp (wait_interrupt ext fuel) (\<lambda>_. I) (\<lambda>_. J) s"
      by (intro tripleD [OF wait_triple]) (simp add: holds_def)
    from result [OF this] c Waiting show ?thesis by (auto simp: holds_def split: prod.split sum.split)
  next
    case (Handling result')
    show ?thesis
    proof (cases result')
      case (Cons revent rest)
      with h c Handling have "wp (handle_entry ext fuel revent) (\<lambda>_. I) (\<lambda>_. J) s"
        by (intro tripleD [OF entry_triple]) (simp add: holds_def)
      from result [OF this] c Handling Cons show ?thesis
        by (auto simp: holds_def split: prod.split sum.split)
    qed (use h c Handling in \<open>simp add: holds_def\<close>)
  next
    case Idle
    with h c have "wp (idle_pass ext ub) (\<lambda>_. I) (\<lambda>_. J) s"
      by (intro tripleD [OF idle_triple]) (simp add: holds_def)
    from result [OF this] c Idle show ?thesis by (auto simp: holds_def split: prod.split sum.split)
  qed (use h c in simp_all)
qed

lemma api_holds: "holds c \<Longrightarrow> api_allowed a c \<Longrightarrow> holds (api_step ext self a c)"
proof -
  obtain th s where c: "c = (th, s)" by (cases c)
  assume h: "holds c" and a: "api_allowed a c"
  show ?thesis
  proof (cases "\<exists>e. th = Failed e")
    case False
    with h c have "I s" by (cases th) (auto simp: holds_def)
    from result [OF api_wp [OF this a [unfolded c]]] False c show ?thesis
      by (cases th; cases "run_api ext self a s"; cases "fst (run_api ext self a s)")
        (auto simp: holds_def)
  qed (use h c in auto)
qed

lemma step_holds: "step ext ub c d \<Longrightarrow> holds c \<Longrightarrow> holds d"
  by (erule step.cases) (simp_all add: thread_holds api_holds)

lemma steps_holds: "(step ext ub)\<^sup>*\<^sup>* c d \<Longrightarrow> holds c \<Longrightarrow> holds d"
  by (induction rule: rtranclp_induct) (auto intro: step_holds)

end

locale system_invariant = step_invariant +
  assumes start_wp: "wp (new_tcp_dispatcher ext j port cb) (\<lambda>_. I) (\<lambda>_. J) (empty_base w)"
begin

lemma reachable_holds: "reachable ext ub c \<Longrightarrow> holds c"
proof (induction rule: reachable.induct)
  case (start c)
  then obtain w j port cb t where
    "new_tcp_dispatcher ext j port cb (empty_base w) = (Inr (), t)" "c = (Waiting, t)"
    by (auto simp: initial_def)
  with result(2) [OF start_wp] show ?case by (auto simp: holds_def)
next
  case (next_step c d)
  then show ?case by (blast intro: step_holds)
qed

lemma always: "reachable ext ub c \<Longrightarrow> J (snd c)"
  by (rule holds_J [OF reachable_holds])

end

end
