(* ===== verification/Tcp_Protocol.thy ===== *)
theory Tcp_Protocol
  imports Tcp_System
begin

section \<open>The Linux dispatcher keeps the callback protocol\<close>

subsection \<open>Functions that call the callbacks of a connection\<close>

lemma triple_forget_callbacks:
  "triple (proto_except p Down) (forget_callbacks p) (\<lambda>_. proto) safe"
  unfolding forget_callbacks_def by (rule triple_set_conn) simp

lemma triple_set_connected:
  "triple (proto_except p Up) (set_connected p) (\<lambda>_. proto) safe"
  unfolding set_connected_def by (rule triple_set_conn) simp

lemma close_wait_triple:
  "triple (proto_except p Fresh) (block
     [call_connected ext p False, forget_callbacks p,
      conn_release ext p mark, close_socket ext p, drop_connection ext p]) (\<lambda>_. proto) safe"
  unfolding block.simps(2) [of "call_connected ext p False"] block.simps(2) [of "forget_callbacks p"]
  by (intro triple_seq [OF triple_call_connected [where ph = Down]]
      triple_seq [OF triple_forget_callbacks] triple_block_quiet)
    (auto intro: qt.keeps_objects tq.keeps_thread)

lemma close_connected_triple:
  "triple (proto_except p Up) (block
     [call_closed ext p, forget_callbacks p, close_socket ext p, drop_connection ext p])
     (\<lambda>_. proto) safe"
  unfolding block.simps(2) [of "call_closed ext p"] block.simps(2) [of "forget_callbacks p"]
  by (intro triple_seq [OF triple_call_closed] triple_seq [OF triple_forget_callbacks]
      triple_block_quiet)
    (auto intro: tq.keeps_thread)

lemma close_connection_triple: "triple proto (close_connection ext p) (\<lambda>_. proto) safe"
  unfolding close_connection_def
proof (rule triple_bnd [OF triple_deref], rule triple_conn_state)
  show "triple (\<lambda>s. proto s \<and> conn_heap s p = Some c) (block [call_connected ext p False,
       forget_callbacks p, conn_release ext p ''waiting4connect's not finished.'',
       close_socket ext p, drop_connection ext p]) (\<lambda>_. proto) safe"
    if "conn_st c = Cs_wait4connect" for c
    by (rule triple_conseq [OF close_wait_triple]) (use proto_state(1) that in auto)
  show "triple (\<lambda>s. proto s \<and> conn_heap s p = Some c) (block [call_closed ext p,
       forget_callbacks p, close_socket ext p, drop_connection ext p]) (\<lambda>_. proto) safe"
    if "conn_st c = Cs_connected" for c
    by (rule triple_conseq [OF close_connected_triple]) (use proto_state(2) that in auto)
qed (rule triple_proto_ret)

lemma establish_triple:
  "triple (proto_except p Fresh)
     (block [call_connected ext p True, set_connected p, limiter_insert ext p 0]) (\<lambda>_. proto) safe"
  unfolding block.simps(2) [of "call_connected ext p True"] block.simps(2) [of "set_connected p"]
  by (intro triple_seq [OF triple_call_connected [where ph = Up]]
      triple_seq [OF triple_set_connected] triple_block_quiet)
    (auto intro: tq.keeps_members)

lemma connection_established_triple: "triple proto (connection_established ext p) (\<lambda>_. proto) safe"
  unfolding connection_established_def whenever_def
proof (rule triple_bnd [OF triple_deref], rule triple_if)
  show "triple (\<lambda>s. proto s \<and> conn_heap s p = Some c)
      (block [call_connected ext p True, set_connected p, limiter_insert ext p 0]) (\<lambda>_. proto) safe"
    if "cb_connected (cbs c) \<noteq> None" for c
    by (rule triple_conseq [OF establish_triple]) (use proto_state(3) that in auto)
qed (rule triple_proto_ret)

lemma call_accepted_triple:
  "triple (proto_except p Fresh) (call_accepted ext p cb) (\<lambda>_. proto_except p Up) safe"
  unfolding call_accepted_def
  by (rule triple_bnd [OF triple_callback triple_set_conn_other]) simp_all

lemma accepted_triple:
  "triple (proto_except p Fresh) (block
       [conn_addref ext p m1, conn_addref ext p m2,
        set_conn p (conn_addr_update (\<lambda>_. Some a)),
        new_recv_for ext p m3,
        call_accepted ext p cb,
        with_mr (\<lambda>R. add_conn ext R p),
        set_connected p,
        limiter_insert ext p 0,
        modify (\<lambda>s. s\<lparr>sockets_counter := sockets_counter s + 1\<rparr>)]) (\<lambda>_. proto) safe"
  unfolding block.simps
  by (rule triple_seq, rule except_keeps, rule qt.keeps_conn_addref,
      rule triple_seq, rule except_keeps, rule qt.keeps_conn_addref,
      rule triple_seq, rule except_keeps, rule qt.keeps_set_conn, simp, simp, simp,
      rule triple_seq, rule except_keeps, rule tq.keeps_new_recv_for,
      rule triple_seq, rule call_accepted_triple,
      rule triple_seq, rule except_keeps, rule tq.keeps_with_mr, rule qt.keeps_add_conn,
      rule triple_seq, rule triple_set_connected,
      rule triple_seq, rule quiet_keeps, rule tq.keeps_limiter_insert,
      rule triple_seq, rule quiet_keeps, rule qt.keeps_modify, rule tq.counter_any,
      rule triple_ret)

lemma accept_connection_triple: "triple proto (accept_connection ext) (\<lambda>_. proto) safe"
  unfolding accept_connection_def
  by (intro triple_bnd_inv triple_option triple_if quiet_keeps [OF qt.keeps_gets]
      quiet_keeps [OF qt.keeps_ret] quiet_keeps [OF qt.keeps_throw] quiet_keeps [OF qt.keeps_call]
      quiet_keeps [OF qt.keeps_andthen] triple_bnd [OF new_conn_triple] triple_seq [OF accepted_triple]
      qt.keeps_invoke qt.keeps_throw)
    simp_all

lemma accept_all_triple: "triple proto (accept_all ext fuel) (\<lambda>_. proto) safe"
proof (induction fuel)
  case 0
  show ?case unfolding accept_all.simps by (intro quiet_keeps qt.keeps_throw)
next
  case (Suc fuel)
  show ?case
    unfolding accept_all.simps
    by (intro triple_bnd_inv triple_if accept_connection_triple Suc triple_ret)
qed

subsection \<open>Receiving\<close>

lemma received_triple: "triple (reads p c) (received ext p rr r) (\<lambda>_. proto) proto"
  unfolding received_def
  by (intro triple_if reads_ret triple_try_catch [where I = proto]
      triple_seq [OF reads_keeps] triple_seq [OF reads_call_read] triple_ret
      qt.keeps_set_recv set_recv_heaps) simp

lemma do_recv_triple: "triple proto (do_recv ext p) (\<lambda>_. proto) safe"
  unfolding do_recv_def
proof (rule triple_bnd [OF triple_deref], rule triple_option)
  fix c :: conn and cb assume cb: "cb_read (cbs c) = Some cb"
  have "triple (reads p c) (bnd (deref recv_heap (conn_recv c)) (\<lambda>_.
     bnd (call ext (Os (Recv (sock c) MAX_WBUF_SIZE))) (received ext p (conn_recv c)))) (\<lambda>_. proto) proto"
    by (intro triple_bnd [OF reads_keeps] received_triple qt.keeps_deref qt.keeps_call call_heaps)
      (simp_all add: deref_heaps)
  then show "triple (\<lambda>s. proto s \<and> conn_heap s p = Some c) (bnd (deref recv_heap (conn_recv c)) (\<lambda>_.
     bnd (call ext (Os (Recv (sock c) MAX_WBUF_SIZE))) (received ext p (conn_recv c)))) (\<lambda>_. proto) safe"
    by (rule triple_conseq) (use cb in \<open>auto simp: reads_def intro: proto_safe\<close>)
qed (rule triple_proto_ret)

subsection \<open>The thread and the interface\<close>

lemma handle_message_triple: "triple proto (handle_message ext im) (\<lambda>_. proto) safe"
  unfolding handle_message_def with_ptr_def
  by (intro triple_if triple_andthen triple_option close_connection_triple triple_ret
      quiet_keeps [OF qt.keeps_throw] quiet_keeps [OF qt.keeps_modify] tq.accepted_any
      quiet_keeps [OF qt.keeps_conn_addref] quiet_keeps [OF qt.keeps_conn_release]
      quiet_keeps [OF tq.keeps_create_connection] quiet_keeps [OF tq.keeps_queue_send]
      quiet_keeps [OF tqs.keeps_call_false_cb] quiet_keeps [OF qtp.keeps_close_post])

lemma handle_wakeup_triple: "triple proto (handle_wakeup ext) (\<lambda>_. proto) safe"
  unfolding handle_wakeup_def
  by (intro triple_bnd_inv triple_option triple_prod triple_andthen triple_ret handle_message_triple
      quiet_keeps [OF qt.keeps_throw] quiet_keeps [OF qt.keeps_gets] quiet_keeps [OF qt.keeps_modify]
      tq.messages_any)

lemma handle_event_triple: "triple proto (handle_event ext fuel info) (\<lambda>_. proto) safe"
  unfolding handle_event_def handle_writable_def handle_readable_def
  by (intro triple_if triple_andthen triple_whenever triple_bnd_inv triple_ret triple_deref_inv
      close_connection_triple connection_established_triple accept_all_triple do_recv_triple
      quiet_keeps [OF qt.keeps_conn_release] quiet_keeps [OF qt.keeps_gets]
      tq.keeps_limiter [THEN quiet_keeps] quiet_keeps [OF tqs.keeps_serve])

lemma handle_entry_triple: "triple proto (handle_entry ext fuel revent) (\<lambda>_. proto) safe"
  unfolding handle_entry_def
  by (intro triple_if triple_andthen handle_wakeup_triple handle_event_triple triple_ret)

text \<open>\<open>connect(conn,..)\<close> replaces the callbacks of a connection that was never connected.\<close>

lemma connect_conn_wp:
  assumes "proto s" and "\<And>c. conn_heap s p = Some c \<Longrightarrow> conn_st c = Cs_wait4connect"
  shows "wp (connect_conn ext self p ip port cb) (\<lambda>_. proto) (\<lambda>_. proto) s"
proof -
  let ?P = "\<lambda>s. proto s \<and> (\<forall>c. conn_heap s p = Some c \<longrightarrow> conn_st c = Cs_wait4connect)"
  have "triple ?P (connect_conn ext self p ip port cb) (\<lambda>_. proto) proto"
    unfolding connect_conn_def
    by (intro triple_try_catch [where I = proto] triple_seq [OF waiting_set_addr] triple_seq [OF waiting_set_cbs] triple_ret
        quiet_triple qt.keeps_basic tq.keeps_new_recv_for tq.keeps_post_ptr) simp_all
  then show ?thesis by (rule tripleD) (simp add: assms)
qed

definition connects_conn :: "api \<Rightarrow> bool" where
  "connects_conn a = (case a of Api_connect_conn _ _ _ _ \<Rightarrow> True | _ \<Rightarrow> False)"

lemma discard_keeps: "qt.keeps m \<Longrightarrow> qt.keeps (discard m)"
  unfolding discard_def by (intro qt.keeps_bnd qt.keeps_ret)

lemma quiet_api: "connects_conn a \<or> qt.keeps (run_api ext self a)"
proof (cases a)
qed (simp_all only: connects_conn_def api.case run_api.simps simp_thms discard_keeps release_def
    addref_def release_send_def stop_accepting_def set_bandwidth_def dtor_request_def
    tq.keeps_interface tqs.keeps_sending_interface qt.keeps_objects tq.keeps_post tq.keeps_limiter tq.keeps_dtor_finish)

lemma run_api_proto:
  assumes "proto s" and "api_allowed a (th, s)"
  shows "proto (snd (run_api ext self a s))"
proof (cases "connects_conn a")
  case True
  then obtain p ip port cb where a: "a = Api_connect_conn p ip port cb"
    by (auto simp: connects_conn_def split: api.splits)
  then have "wp (connect_conn ext self p ip port cb) (\<lambda>_. proto) (\<lambda>_. proto) s"
    using assms by (intro connect_conn_wp) (auto split: option.splits)
  with a show ?thesis by (simp add: wp_snd)
next
  case False
  then have "qt.keeps (run_api ext self a)" using quiet_api by blast
  then show ?thesis using quiet_proto [OF qt.keepsD] assms(1) by blast
qed

subsection \<open>Every run\<close>

lemma empty_proto: "proto (empty_base w)"
  by (simp add: proto_def safe_def empty_base_def calls_def)

lemma new_tcp_dispatcher_proto:
  "wp (new_tcp_dispatcher ext j port cb) (\<lambda>_. proto) (\<lambda>_. safe) (empty_base w)"
  by (rule tripleD [OF quiet_keeps [OF new_tcp_dispatcher_quiet] empty_proto])

interpretation protocol: system_invariant ext "proto :: 'w tcp \<Rightarrow> bool" safe
  for ext :: "'w ext"
proof unfold_locales
  show "wp (run_api ext self a) (\<lambda>_. proto) (\<lambda>_. safe) s"
    if "proto s" "api_allowed a (th, s)" for s :: "'w tcp" and self a th
    using run_api_proto [OF that, of ext self] proto_safe
    by (auto simp: wp_def split: prod.split sum.split)
qed (auto intro: proto_safe handle_entry_triple new_tcp_dispatcher_proto
    quiet_keeps [OF tqw.keeps_wait_interrupt] quiet_keeps [OF tqs.keeps_idle_pass])

end
