(* ===== verification/Sends.thy ===== *)
theory Sends
  imports Protocol
begin

section \<open>The callback of a send request is called at most once\<close>

text \<open>
  A request forgets its callback when it has called it, so a request that still has one
  never called it, and the semaphore that \<open>break_send\<close> waits for is posted only when the
  request has no callback left.  This theory holds that invariant and the frame \<open>sendq\<close> of what
  leaves the send requests alone; the theories of the dispatchers show that their steps keep it.
\<close>

subsection \<open>Functions that leave the send requests alone\<close>

definition sent_count :: "addr \<Rightarrow> ('w, 'z) outside_scheme \<Rightarrow> nat" where
  "sent_count p s = length (filter (sent_to p) (calls s))"

definition sendq :: "('w, 'z) base_scheme \<Rightarrow> ('w, 'z) base_scheme \<Rightarrow> bool" where
  "sendq s t \<longleftrightarrow> (\<forall>p. sent_count p t = sent_count p s) \<and> last_addr s \<le> last_addr t
     \<and> (\<forall>p q. send_heap t p = Some q \<longrightarrow> send_heap s p = Some q)"

lemma sent_count_more:
  "sent_count p (s\<lparr>world := w, trace := trace s @ [(k, r)]\<rparr>) =
     sent_count p s + (if sent_to p k then 1 else 0)"
  by (simp add: sent_count_def calls_def)

lemma sent_count_same [simp]:
  "sent_count p (s\<lparr>conn_heap := h1\<rparr>) = sent_count p s"
  "sent_count p (s\<lparr>recv_heap := h2\<rparr>) = sent_count p s"
  "sent_count p (s\<lparr>send_heap := h3\<rparr>) = sent_count p s"
  "sent_count p (s\<lparr>last_addr := a\<rparr>) = sent_count p s"
  by (simp_all add: sent_count_def calls_def)

lemma sendq_trans: "sendq s t \<Longrightarrow> sendq t u \<Longrightarrow> sendq s u"
  unfolding sendq_def by (metis order_trans)

lemma sendq_same:
  "trace t = trace s \<Longrightarrow> last_addr s \<le> last_addr t \<Longrightarrow> send_heap t = send_heap s \<Longrightarrow> sendq s t"
  by (simp add: sendq_def sent_count_def calls_def)

interpretation sq: conn_frame sendq
proof unfold_locales
  fix s t u :: "('w, 'z) base_scheme"
  show "sendq s t \<Longrightarrow> sendq t u \<Longrightarrow> sendq s u" by (rule sendq_trans)
next
  fix s :: "('w, 'z) base_scheme" and k w r
  assume "\<And>u. k \<noteq> User u"
  then have "\<not> sent_to p k" for p by (cases k) auto
  then show "sendq s (s\<lparr>world := w, trace := trace s @ [(k, r)]\<rparr>)"
    by (simp add: sendq_def sent_count_more)
next
  fix s :: "('w, 'z) base_scheme" and u w r
  assume "\<And>p cb ok. u \<noteq> Cb_sent p cb ok"
  then have "\<not> sent_to p (User u)" for p by (cases u) auto
  then show "sendq s (s\<lparr>world := w, trace := trace s @ [(User u, r)]\<rparr>)"
    by (simp add: sendq_def sent_count_more)
next
  fix s :: "('w, 'z) base_scheme" and p
  show "sendq s (s\<lparr>send_heap := (send_heap s)(p := None)\<rparr>)"
    by (auto simp: sendq_def split: if_splits)
qed (rule sendq_same, simp_all)+

interpretation sqr: reading_frame sendq
  by unfold_locales (simp add: sendq_def sent_count_more)

interpretation sqp: close_frame sendq
  by unfold_locales (rule sendq_same, simp_all)

subsection \<open>The invariant\<close>

definition sends_safe :: "('w, 'z) base_scheme \<Rightarrow> bool" where
  "sends_safe s \<longleftrightarrow> (\<forall>p. sent_count p s \<le> 1)"

text \<open>
  The set \<open>A\<close> is arbitrary: requests of which it is known that they were made with a callback.
  When one of them has no callback left, the callback has been called.
\<close>

fun sem_posted :: "nat option \<Rightarrow> bool" where
  "sem_posted (Some n) = (0 < n)"
| "sem_posted None = False"

definition req_kept :: "bool \<Rightarrow> send_req \<Rightarrow> nat \<Rightarrow> bool" where
  "req_kept pledged q n \<longleftrightarrow> (sent_cb q \<noteq> None \<longrightarrow> n = 0 \<and> \<not> sem_posted (break_sem q))
     \<and> (pledged \<longrightarrow> sent_cb q = None \<longrightarrow> 0 < n)"

definition sends_ok :: "addr set \<Rightarrow> ('w, 'z) base_scheme \<Rightarrow> bool" where
  "sends_ok A s \<longleftrightarrow> sends_safe s \<and> (\<forall>p > last_addr s. sent_count p s = 0 \<and> send_heap s p = None \<and> p \<notin> A)
     \<and> (\<forall>p q. send_heap s p = Some q \<longrightarrow> req_kept (p \<in> A) q (sent_count p s))"

definition sends_new :: "addr set \<Rightarrow> addr \<Rightarrow> ('w, 'z) base_scheme \<Rightarrow> bool" where
  "sends_new A p s \<longleftrightarrow> sends_ok A s \<and> sent_count p s = 0 \<and> p \<le> last_addr s \<and> p \<notin> A
     \<and> (\<forall>q. send_heap s p = Some q \<longrightarrow> \<not> sem_posted (break_sem q))"

lemma sends_ok_safe: "sends_ok A s \<Longrightarrow> sends_safe s"
  by (simp add: sends_ok_def)

lemma sends_okD: "sends_ok A s \<Longrightarrow> send_heap s p = Some q \<Longrightarrow> req_kept (p \<in> A) q (sent_count p s)"
  by (simp add: sends_ok_def)

lemma sendq_ok:
  assumes "sendq s t" and "sends_ok A s"
  shows "sends_ok A t"
proof -
  have h: "send_heap t p = Some q \<Longrightarrow> send_heap s p = Some q" for p q
    using assms(1) by (simp add: sendq_def)
  then have "send_heap s p = None \<Longrightarrow> send_heap t p = None" for p
    by (cases "send_heap t p") auto
  with assms h show ?thesis by (simp add: sends_ok_def sends_safe_def sendq_def)
qed

lemma sends_keeps:
  fixes m :: "(('w, 'z) base_scheme, 'a) prog"
  assumes "sq.keeps m"
  shows "triple (sends_ok A) m (\<lambda>_. sends_ok A) (sends_ok A)"
proof (rule tripleI)
  fix s :: "('w, 'z) base_scheme"
  assume "sends_ok A s"
  with assms have "sends_ok A (snd (m s))" by (blast intro: sendq_ok sq.keepsD)
  then show "wp m (\<lambda>_. sends_ok A) (\<lambda>_. sends_ok A) s" by (simp add: wp_snd)
qed

lemma sends_new_keeps:
  fixes m :: "(('w, 'z) base_scheme, 'a) prog"
  assumes "sq.keeps m"
  shows "triple (sends_new A p) m (\<lambda>_. sends_new A p) (sends_ok A)"
proof (rule tripleI)
  fix s :: "('w, 'z) base_scheme"
  assume s: "sends_new A p s"
  have "sendq s (snd (m s))" using assms by (rule sq.keepsD)
  then have "sends_new A p (snd (m s))"
    using s sendq_ok [of s "snd (m s)"] by (auto simp: sends_new_def sendq_def)
  then have "wp m (\<lambda>_. sends_new A p) (\<lambda>_. sends_new A p) s" by (simp add: wp_snd)
  then show "wp m (\<lambda>_. sends_new A p) (\<lambda>_. sends_ok A) s"
    by (rule wp_mono) (auto simp: sends_new_def)
qed

lemma sends_ok_update:
  assumes "sends_ok A s" and "send_heap s p = Some q" and "req_kept (p \<in> A) q' (sent_count p s)"
  shows "sends_ok A (s\<lparr>send_heap := (send_heap s)(p \<mapsto> q')\<rparr>)"
proof -
  have "p \<le> last_addr s"
  proof (rule ccontr)
    assume "\<not> p \<le> last_addr s"
    with assms(1) have "send_heap s p = None" by (simp add: sends_ok_def)
    with assms(2) show False by simp
  qed
  with assms show ?thesis by (auto simp: sends_ok_def sends_safe_def)
qed

lemma set_send_wp:
  assumes "sends_ok A s"
    and "\<And>q. send_heap s p = Some q \<Longrightarrow> req_kept (p \<in> A) (f q) (sent_count p s)"
  shows "wp (set_send p f) (\<lambda>_. sends_ok A) (\<lambda>_. sends_ok A) s"
  using assms sends_ok_update [OF assms(1)] by (auto simp: wp_set_send split: option.split)

lemma set_send_triple:
  assumes "\<And>q. sent_cb (f q) = sent_cb q" and "\<And>q. sem_posted (break_sem (f q)) \<Longrightarrow> sem_posted (break_sem q)"
  shows "triple (sends_ok A) (set_send p f) (\<lambda>_. sends_ok A) (sends_ok A)"
  using assms sends_okD by (fastforce intro!: tripleI set_send_wp simp: req_kept_def)

lemma set_send_new_triple:
  assumes "\<And>q. break_sem (f q) = break_sem q"
  shows "triple (sends_new A p) (set_send p f) (\<lambda>_. sends_ok A) (sends_ok A)"
  using assms by (auto intro!: tripleI set_send_wp simp: sends_new_def req_kept_def)

text \<open>After \<open>send_callback\<close> the request has no callback.\<close>

definition no_sent_cb :: "addr \<Rightarrow> ('w, 'z) base_scheme \<Rightarrow> bool" where
  "no_sent_cb p s \<longleftrightarrow> (\<forall>q. send_heap s p = Some q \<longrightarrow> sent_cb q = None)"

lemma send_callback_wp:
  fixes ext :: "'w ext" and s :: "('w, 'z) base_scheme"
  assumes s: "sends_ok A s"
  shows "wp (send_callback ext p v) (\<lambda>_ t. sends_ok A t \<and> no_sent_cb p t) (\<lambda>_. sends_safe) s"
proof -
  have step: "sends_ok A (s\<lparr>world := w, trace := trace s @ [(User (Cb_sent p cb v), r)],
        send_heap := (send_heap s)(p \<mapsto> sent_cb_update (\<lambda>_. None) q)\<rparr>)"
    and "sends_safe (s\<lparr>world := w, trace := trace s @ [(User (Cb_sent p cb v), r)]\<rparr>)"
    if q: "send_heap s p = Some q" "sent_cb q = Some cb" for q cb w r
  proof -
    have z: "sent_count p s = 0" using sends_okD [OF s q(1)] q(2) by (simp add: req_kept_def)
    moreover have "p \<le> last_addr s" using s q by (auto simp: sends_ok_def not_le [symmetric])
    ultimately show "sends_ok A (s\<lparr>world := w, trace := trace s @ [(User (Cb_sent p cb v), r)],
        send_heap := (send_heap s)(p \<mapsto> sent_cb_update (\<lambda>_. None) q)\<rparr>)"
      using s by (auto simp: sends_ok_def sends_safe_def sent_count_more req_kept_def)
    show "sends_safe (s\<lparr>world := w, trace := trace s @ [(User (Cb_sent p cb v), r)]\<rparr>)"
      using s z by (auto simp: sends_ok_def sends_safe_def sent_count_more)
  qed
  then show ?thesis
    using s sends_ok_safe [OF s] unfolding send_callback_def
    by (auto simp: wp_ret_eta wp_bnd wp_deref wp_case_option wp_callback wp_call wp_set_send no_sent_cb_def
        split: option.split)
qed

lemma send_callback_triple:
  fixes ext :: "'w ext"
  shows "triple (sends_ok A :: ('w, 'z) base_scheme \<Rightarrow> bool) (send_callback ext p v) (\<lambda>_. sends_ok A) sends_safe"
  by (rule tripleI, rule wp_mono [OF send_callback_wp]) auto

lemma alloc_send_req_triple:
  fixes ext :: "'w ext"
  assumes sem: "\<not> sem_posted sem"
  shows "triple (sends_ok A :: ('w, 'z) base_scheme \<Rightarrow> bool) (alloc_send_req sem ext cp) (sends_new A) (sends_ok A)"
proof (rule tripleI)
  fix s :: "('w, 'z) base_scheme"
  assume s: "sends_ok A s"
  let ?p = "Suc (last_addr s)"
  let ?t = "\<lambda>c. s\<lparr>send_heap := (send_heap s)(?p \<mapsto>
         \<lparr>send_iov = \<lparr>iov_sock = sock c, iov_code = FD_WRITE, iov_conn = cp\<rparr>,
          break_sem = sem, total_bytes = 0, sent_bytes = 0, sent_cb = None, send_data = []\<rparr>),
         last_addr := ?p\<rparr>"
  have "sends_new A ?p (?t c)" for c
    using s sem by (auto simp: sends_new_def sends_ok_def sends_safe_def req_kept_def)
  then have "wp (andthen (conn_addref ext cp m) (ret ?p)) (sends_new A) (\<lambda>_. sends_ok A) (?t c)" for c m
    unfolding wp_andthen wp_ret_eta
    by (rule tripleD [OF sends_new_keeps [OF sq.keeps_conn_addref]])
  then show "wp (alloc_send_req sem ext cp) (sends_new A) (\<lambda>_. sends_ok A) s"
    using s unfolding alloc_send_req_def
    by (auto simp: wp_bnd wp_deref wp_gets wp_modify wp_andthen wp_ret_eta split: option.split)
qed

lemma new_send_req_triple:
  "triple (sends_ok A) (new_send_req ext cp) (sends_new A) (sends_ok A)"
  "triple (sends_ok A) (win_new_send_req ext cp) (sends_new A) (sends_ok A)"
  unfolding new_send_req_def win_new_send_req_def by (intro alloc_send_req_triple, simp)+

lemma sends_weak: "triple (sends_ok A) m (\<lambda>_. sends_ok A) (sends_ok A) \<Longrightarrow> triple (sends_ok A) m (\<lambda>_. sends_ok A) sends_safe"
  by (erule triple_conseq) (auto intro: sends_ok_safe)

text \<open>The semaphore of a request: what all dispatchers do with it.\<close>

lemma break_wait_wp:
  assumes "sends_ok A s"
  shows "wp (break_wait after sr) (\<lambda>b t. sends_ok A t \<and> (b \<longrightarrow> (\<exists>q. send_heap s sr = Some q \<and> sem_posted (break_sem q))))
    (\<lambda>_. sends_ok A) s"
proof -
  have "req_kept (sr \<in> A) (break_sem_update (\<lambda>_. m) q) (sent_count sr s)"
    if "send_heap s sr = Some q" "break_sem q = Some (Suc n)" for q n m
    using sends_okD [OF assms that(1)] that(2) by (simp add: req_kept_def)
  with assms show ?thesis
    by (auto simp: break_wait_def wp_simps gr0_conv_Suc intro!: sends_ok_update [OF assms] split: option.split)
qed

lemma sends_ok_pledge:
  assumes "sends_ok {} s" and "send_heap s sr = Some q" and "sent_cb q = Some cb"
  shows "sends_ok {sr} s"
proof -
  have "sr \<le> last_addr s" using assms(1,2) by (auto simp: sends_ok_def not_le [symmetric])
  with assms show ?thesis by (auto simp: sends_ok_def req_kept_def)
qed

lemma break_wait_calls: "break_wait after sr s = (r, t) \<Longrightarrow> calls t = calls s"
  by (auto simp: break_wait_def bnd_def deref_def set_send_def andthen_def gets_def modify_def ret_def throw_def
      calls_def split: if_splits option.splits)

lemma break_wait_answered:
  assumes "sends_ok {sr} s" and "break_wait after sr s = (Inr True, t)"
  shows "length (filter (sent_to sr) (calls t)) = 1
    \<and> (\<forall>q. send_heap t sr = Some q \<longrightarrow> sent_cb q = None)"
proof -
  from wp_Inr [OF break_wait_wp [OF assms(1)] assms(2)]
  obtain q' where t: "sends_ok {sr} t" and q': "send_heap s sr = Some q'" "sem_posted (break_sem q')" by blast
  have "sent_cb q' = None" and "0 < sent_count sr s"
    using sends_okD [OF assms(1) q'(1)] q'(2) by (auto simp: req_kept_def)
  moreover have "sent_count sr s \<le> 1" using assms(1) by (simp add: sends_ok_def sends_safe_def)
  moreover have "sent_count sr t = sent_count sr s"
    using break_wait_calls [OF assms(2)] by (simp add: sent_count_def)
  ultimately have "sent_count sr t = 1" by linarith
  moreover have "sent_cb r = None" if "send_heap t sr = Some r" for r
    using sends_okD [OF t that] \<open>sent_count sr t = 1\<close> by (auto simp: req_kept_def)
  ultimately show ?thesis by (simp add: sent_count_def)
qed

lemma break_wait_runs:
  "p \<noteq> 0 \<Longrightarrow> map_option break_sem (send_heap s p) = Some (Some (Suc n)) \<Longrightarrow> \<exists>t. break_wait after p s = (Inr True, t)"
  by (auto simp: break_wait_def deref_def set_send_def bnd_def andthen_def gets_def modify_def ret_def)

lemma break_triple: "triple (sends_ok A) (break_wait after sr) (\<lambda>_. sends_ok A) (sends_ok A)"
  by (rule tripleI, rule wp_mono [OF break_wait_wp]) auto

lemma break_post_triple:
  "triple (\<lambda>s. sends_ok A s \<and> no_sent_cb sr s) (break_post sr) (\<lambda>_. sends_ok A) (sends_ok A)"
proof (rule tripleI)
  fix s :: "('a, 'b) base_scheme" assume s: "sends_ok A s \<and> no_sent_cb sr s"
  have "req_kept (sr \<in> A) (break_sem_update f q) (sent_count sr s)" if "send_heap s sr = Some q" for q f
    using sends_okD [of A s sr q] s that by (auto simp: req_kept_def no_sent_cb_def)
  with s show "wp (break_post sr) (\<lambda>_. sends_ok A) (\<lambda>_. sends_ok A) s"
    by (auto simp: break_post_def wp_simps intro!: sends_ok_update split: option.split)
qed

lemma false_cb_triple:
  fixes ext :: "'w ext" and m :: "(('w, 'z) base_scheme, unit) prog"
  assumes "sq.keeps m"
  shows "triple (sends_ok A) (block [send_callback ext sr v, break_post sr, m]) (\<lambda>_. sends_ok A) sends_safe"
  unfolding block.simps
proof (rule triple_seq)
  show "triple (sends_ok A) (send_callback ext sr v) (\<lambda>_ s. sends_ok A s \<and> no_sent_cb sr s) sends_safe"
    by (rule tripleI, rule send_callback_wp)
  show "triple (\<lambda>s. sends_ok A s \<and> no_sent_cb sr s) (andthen (break_post sr) (andthen m (ret ())))
      (\<lambda>_. sends_ok A) sends_safe"
    by (rule triple_conseq [OF triple_seq [OF break_post_triple]])
      (auto intro: triple_andthen sends_keeps [OF assms] triple_ret sends_ok_safe)
qed

lemma userq_sends:
  fixes m :: "(('w, 'z) base_scheme, 'a) prog"
  assumes "uq.keeps m" and "sends_safe s"
  shows "sends_safe (snd (m s))"
  using userq_sent [OF uq.keepsD [OF assms(1)]] assms(2)
  unfolding sends_safe_def sent_count_def by metis

end
