(* ===== verification/Tcp_Sends.thy ===== *)
theory Tcp_Sends
  imports Tcp_Protocol Sends
begin

section \<open>The Linux dispatcher calls the callback of a send request at most once\<close>

text \<open>Every step of the Linux dispatcher keeps the invariant of \<open>Sends\<close>.\<close>

interpretation stq: tcp_any_frame "sendq :: ('w, 'z) tcp_scheme \<Rightarrow> ('w, 'z) tcp_scheme \<Rightarrow> bool"
  by unfold_locales (rule sendq_same, simp_all)+

interpretation stqc: tcp_conn_frame "sendq :: ('w, 'z) tcp_scheme \<Rightarrow> ('w, 'z) tcp_scheme \<Rightarrow> bool"
  by unfold_locales

interpretation stqw: tcp_wait_frame "sendq :: ('w, 'z) tcp_scheme \<Rightarrow> ('w, 'z) tcp_scheme \<Rightarrow> bool"
  by unfold_locales

subsection \<open>Every step\<close>

lemma send_req_of_triple: "triple (sends_ok A) (send_req_of ext self p buf cb) (\<lambda>_. sends_ok A) (sends_ok A)"
  unfolding send_req_of_def
  by (rule triple_try_catch [where I = "sends_ok A"], rule triple_bnd, rule new_send_req_triple(1),
      rule triple_bnd, rule sends_new_keeps, rule sq.keeps_deref,
      rule triple_seq, rule set_send_new_triple, simp)
    (intro triple_ret triple_andthen set_send_triple sends_keeps [OF sq.keeps_send_addref]
      sends_keeps [OF stq.keeps_post_ptr], simp_all add: triple_ret)

lemma send_no_callback_triple: "triple (sends_ok A) (send_no_callback ext self p buf) (\<lambda>_. sends_ok A) (sends_ok A)"
  unfolding send_no_callback_def
  by (intro triple_bnd_inv triple_if triple_andthen triple_ret send_req_of_triple sends_keeps
      sq.keeps_send_release)

lemma break_send_triple: "triple (sends_ok A) (break_send ext self sr) (\<lambda>_. sends_ok A) (sends_ok A)"
  unfolding break_send_def
  by (intro triple_andthen sends_keeps [OF sq.keeps_send_addref] sends_keeps [OF stq.keeps_post_ptr])

lemma break_send_init_triple: "triple (sends_ok A) (break_send_init sr) (\<lambda>_. sends_ok A) (sends_ok A)"
  unfolding break_send_init_def by (rule set_send_triple) simp_all

lemma break_send_return_triple: "triple (sends_ok A) (break_send_return sr) (\<lambda>_. sends_ok A) (sends_ok A)"
  unfolding break_send_return_def
  by (rule break_triple)

lemma do_send_triple: "triple (sends_ok A) (do_send ext sr g) (\<lambda>_. sends_ok A) sends_safe"
  unfolding do_send_def send_answered_def sent_some_def finish_send_def Let_def
  by (intro triple_bnd_inv triple_andthen triple_if triple_whenever triple_ret send_callback_triple
      sends_weak [OF sends_keeps] sends_weak [OF set_send_triple] sq.keeps_deref sq.keeps_call sq.keeps_send_release
      stq.keeps_limiter stq.keeps_limiter_insert) simp_all

lemma sends_pass_triple: "triple (sends_ok A) (sends_pass ext g srs) (\<lambda>_. sends_ok A) sends_safe"
proof (induction srs arbitrary: g)
  case (Cons sr srs)
  show ?case
    unfolding sends_pass.simps
    by (intro triple_bnd_inv triple_prod triple_if triple_ret do_send_triple Cons)
qed (simp add: triple_ret)

lemma serve_triple: "triple (sends_ok A) (serve ext g p) (\<lambda>_. sends_ok A) sends_safe"
  unfolding serve_def
  by (intro triple_bnd_inv triple_option triple_ret sends_pass_triple sends_weak [OF sends_keeps]
      sq.keeps_gets sq.keeps_modify stq.outgoings_any)

lemma idle_pass_triple: "triple (sends_ok A) (idle_pass ext ub) (\<lambda>_. sends_ok A) sends_safe"
  unfolding idle_pass_def
  by (intro triple_bnd_inv triple_prod triple_andthen triple_whenever triple_for_each serve_triple
      sends_weak [OF sends_keeps] sq.keeps_gets stq.keeps_limiter_recalc)

lemma call_false_cb_triple: "triple (sends_ok A) (call_false_cb ext sr) (\<lambda>_. sends_ok A) sends_safe"
  unfolding call_false_cb_def by (rule false_cb_triple [OF sq.keeps_send_release])

lemma sends_handle_message: "triple (sends_ok A) (handle_message ext im) (\<lambda>_. sends_ok A) sends_safe"
  unfolding handle_message_def with_ptr_def
  by (intro triple_if triple_andthen triple_option triple_ret call_false_cb_triple
      sends_weak [OF sends_keeps] stqc.keeps_close_connection stq.keeps_create_connection
      stq.keeps_queue_send sq.keeps_throw sq.keeps_modify stq.accepted_any sq.keeps_conn_addref
      sq.keeps_conn_release sqp.keeps_close_post)

lemma sends_handle_entry: "triple (sends_ok A) (handle_entry ext fuel revent) (\<lambda>_. sends_ok A) sends_safe"
  unfolding handle_entry_def handle_wakeup_def handle_event_def handle_writable_def
  by (intro triple_if triple_andthen triple_option triple_prod triple_bnd_inv triple_whenever triple_ret
      sends_handle_message serve_triple
      sends_weak [OF sends_keeps] stqc.keeps_close_connection stqc.keeps_connection_established
      stqc.keeps_handle_readable sq.keeps_throw sq.keeps_modify sq.keeps_gets sq.keeps_deref
      stq.messages_any sq.keeps_conn_release stq.keeps_limiter)

lemma discard_triple: "triple I m (\<lambda>_. I) I \<Longrightarrow> triple I (discard m) (\<lambda>_. I) I"
  unfolding discard_def by (intro triple_bnd_inv triple_ret)

lemma run_api_triple: "triple (sends_ok A) (run_api ext self a) (\<lambda>_. sends_ok A) (sends_ok A)"
proof (cases a)
qed (simp_all only: run_api.simps release_def addref_def release_send_def stop_accepting_def
    set_bandwidth_def dtor_request_def discard_triple send_req_of_triple send_no_callback_triple
    break_send_triple break_send_init_triple break_send_return_triple sends_keeps
    stq.keeps_interface stqc.keeps_connect_conn sq.keeps_objects stq.keeps_post
    stq.keeps_limiter stq.keeps_dtor_finish)

lemma new_tcp_dispatcher_sendq: "sq.keeps (new_tcp_dispatcher ext j port cb)"
  unfolding new_tcp_dispatcher_def
proof (intro sq.keeps_basic stq.keeps_start_listening sq.keeps_delete_linux_reactor sq.keeps_modify)
  show "sendq s (s\<lparr>sockets_counter := 0, bws := new_bwstop j \<lparr>tb_time = 0, tb_millitm = 0\<rparr> 0,
       listening_socket := -1, accepted := cb, ec := 0, mr := None, i_messages := None,
       outgoings := []\<rparr>)" for s :: "('w, 'z) tcp_scheme"
    by (rule sendq_same) simp_all
qed simp_all

lemma empty_sends: "sends_ok {} (empty_base w)"
  by (simp add: sends_ok_def sends_safe_def sent_count_def empty_base_def calls_def)

interpretation sending: system_invariant ext "sends_ok {} :: 'w tcp \<Rightarrow> bool" sends_safe
  for ext :: "'w ext"
  by unfold_locales (auto intro: sends_ok_safe sends_handle_entry idle_pass_triple
      tripleD [OF sends_weak [OF run_api_triple]]
      tripleD [OF sends_weak [OF sends_keeps [OF new_tcp_dispatcher_sendq]] empty_sends]
      sends_weak [OF sends_keeps [OF stqw.keeps_wait_interrupt]])

end
