(* ===== verification/Running.thy ===== *)
theory Running
  imports Connection
begin

section \<open>Running the model inside the kernel\<close>

text \<open>
  Equations that run a program on a concrete state with the simplifier, first instruction
  first: the congruence rules keep it from working on what comes later before the state
  there is known.  The concrete witnesses of the dispatchers use them.
\<close>

lemma bnd_run: "bnd m f s = (case m s of (r, t) \<Rightarrow>
    (case r of Inl e \<Rightarrow> (Inl e, t) | Inr x \<Rightarrow> f x t))"
  by (auto simp: bnd_def split: prod.split sum.split)

lemma andthen_run: "andthen m n s = (case m s of (r, t) \<Rightarrow>
    (case r of Inl e \<Rightarrow> (Inl e, t) | Inr x \<Rightarrow> n t))"
  by (auto simp: bnd_def andthen_def split: prod.split sum.split)

lemma try_catch_run: "try_catch m h s = (case m s of (r, t) \<Rightarrow>
    (case r of Inl e \<Rightarrow> if is_lib_exception e then h e t else (Inl e, t) | Inr x \<Rightarrow> (Inr x, t)))"
  by (auto simp: try_catch_def split: prod.split sum.split)

lemma call_run: "call ext c s = (case ext c (world s) of (r, w) \<Rightarrow>
    (Inr r, s\<lparr>world := w, trace := trace s @ [(c, r)]\<rparr>))"
  by (simp add: call_def)

lemma bnd_stop: "bnd m f = bnd m f" ..

lemma andthen_stop: "andthen m n = andthen m n" ..

lemma try_catch_stop: "try_catch m h = try_catch m h" ..

lemma whenever_stop: "b = b' \<Longrightarrow> whenever b m = whenever b' m"
  by simp

lemmas run_cong = bnd_stop andthen_stop try_catch_stop whenever_stop

lemmas run_basic = bnd_run andthen_run try_catch_run call_run ret_def throw_def gets_def modify_def
  whenever_def assertion_def invoke_def callback_def checked_def
  set_conn_def set_recv_def set_send_def new_conn_def deref_def

lemmas run_objects = conn_addref_def conn_release_def destroy_conn_def recv_addref_def
  recv_release_def destroy_recv_def send_addref_def send_release_def destroy_send_def
  overlap_addref_def overlap_release_def accept_addref_def accept_release_def
  new_recv_req_def alloc_send_req_def new_send_req_def win_new_send_req_def
  break_post_def break_wait_def close_post_def close_wait_def new_overlap_def new_accept_def new_conn_struct_def
  send_callback_def call_connected_def call_closed_def call_read_def
  plain_reply_def no_callbacks_def MAX_WBUF_SIZE_def fd_codes

text \<open>An outside world in which every call succeeds and nothing is destroyed.\<close>

definition all_succeed :: "'w ext \<Rightarrow> bool" where
  "all_succeed ext \<longleftrightarrow> (\<forall>k w. rv (fst (ext k w)) = 0)"

definition quiet_world :: "unit ext" where
  "quiet_world k w = (plain_reply 0, w)"

lemma all_succeed_quiet: "all_succeed quiet_world"
  by (simp add: all_succeed_def quiet_world_def plain_reply_def)

end
