(* ===== verification/Tcp_Demo.thy ===== *)
theory Tcp_Demo
  imports Tcp_System Running
begin

section \<open>A simulated outside world, and concrete runs of the Linux dispatcher\<close>

text \<open>
  \<open>sim\<close> is a concrete outside world: sockets are numbered upwards from 7, the pipe is (4, 5), every call
  succeeds, \<open>epoll_wait\<close> and \<open>recv\<close> answer from two scripts that are the state of the
  world, \<open>send\<close> takes at most two bytes, and nothing is ever destroyed.  The concrete runs
  on it witness that the hypotheses of the properties can hold.
\<close>

definition bytes_reply :: "u8 list \<Rightarrow> reply" where
  "bytes_reply bs = (plain_reply (int (length bs)))\<lparr>r_bytes := bs\<rparr>"

type_synonym sim_world = "fd \<times> epoll_event list list \<times> u8 list list"

fun sim :: "sim_world ext" where
  "sim (Os Socket) (d, w) = (plain_reply d, d + 1, w)"
| "sim (Os Pipe) w = ((plain_reply 0)\<lparr>r_fds := (4, 5)\<rparr>, w)"
| "sim (Os (Accept l)) w = ((plain_reply (-1))\<lparr>err := EAGAIN\<rparr>, w)"
| "sim (Os (Send d bs)) w = (plain_reply (int (min 2 (length bs))), w)"
| "sim (Os (Recv d n)) (d', es, []) = (plain_reply 0, d', es, [])"
| "sim (Os (Recv d n)) (d', es, b # bs) = (bytes_reply b, d', es, bs)"
| "sim (Epoll Epoll_create) w = (plain_reply 6, w)"
| "sim (Epoll (Epoll_wait d n)) (d', [], bs) = (plain_reply 0, d', [], bs)"
| "sim (Epoll (Epoll_wait d n)) (d', e # es, bs) =
     ((plain_reply (int (length e)))\<lparr>r_events := e\<rparr>, d', es, bs)"
| "sim c w = (plain_reply 0, w)"

text \<open>A script: what the threads do, one after the other, as far as it is allowed.\<close>

datatype action = Thread_step | Api_call api

fun play :: "'w ext \<Rightarrow> (double \<Rightarrow> u32) \<Rightarrow> nat \<Rightarrow> action list \<Rightarrow> thread \<times> 'w tcp \<Rightarrow> thread \<times> 'w tcp" where
  "play ext ub fuel [] c = c"
| "play ext ub fuel (Thread_step # acts) c = play ext ub fuel acts (thread_step ext ub fuel c)"
| "play ext ub fuel (Api_call a # acts) c =
     play ext ub fuel acts (if api_allowed a c then api_step ext 1 a c else c)"

lemma play_reachable: "reachable ext ub c \<Longrightarrow> reachable ext ub (play ext ub fuel acts c)"
proof (induction ext ub fuel acts c rule: play.induct)
  case (2 ext ub fuel acts c)
  then show ?case using reachable.next_step [OF 2(2) step.by_thread] by simp
next
  case (3 ext ub fuel a acts c)
  then show ?case using reachable.next_step [OF 3(2) step.by_api] by simp
qed simp

definition boot :: "'w ext \<Rightarrow> u16 \<Rightarrow> 'w \<Rightarrow> thread \<times> 'w tcp" where
  "boot ext port w = (Waiting, snd (new_tcp_dispatcher ext 0 port (Some 9) (empty_base w)))"

lemma boot_reachable:
  assumes "fst (new_tcp_dispatcher ext 0 port (Some 9) (empty_base w)) = Inr ()"
  shows "reachable ext ub (boot ext port w)"
proof (rule reachable.start)
  have "new_tcp_dispatcher ext 0 port (Some 9) (empty_base w) =
      (Inr (), snd (new_tcp_dispatcher ext 0 port (Some 9) (empty_base w)))"
    using assms by (simp add: prod_eq_iff)
  then show "initial ext (boot ext port w)"
    unfolding initial_def boot_def by blast
qed

text \<open>Events: a wake-up through the pipe, and readiness of the connection at \<open>p\<close>.\<close>

definition wake_event :: epoll_event where
  "wake_event = \<lparr>ee_events = EPOLLIN, ee_data = data_of_fd 4\<rparr>"

definition ready_event :: "addr \<Rightarrow> u32 \<Rightarrow> epoll_event" where
  "ready_event p evs = \<lparr>ee_events = evs, ee_data = data_of_ptr p\<rparr>"

definition demo_callbacks :: callbacks where
  "demo_callbacks = \<lparr>cb_read = Some 11, cb_closed = Some 12, cb_connected = Some 13\<rparr>"

text \<open>Connect, established, three bytes received, closed by the user.\<close>

definition demo_world :: "sim_world" where
  "demo_world = (7, [[wake_event], [ready_event 2 EPOLLOUT], [ready_event 2 EPOLLIN], [wake_event]],
     [[1, 2, 3]])"

definition demo_acts :: "action list" where
  "demo_acts = [Api_call (Api_connect 0 80 demo_callbacks), Thread_step, Thread_step, Thread_step,
     Thread_step, Thread_step, Thread_step, Thread_step, Thread_step, Thread_step,
     Api_call (Api_close_conn 2), Thread_step, Thread_step, Thread_step]"

definition demo :: "thread \<times> sim_world tcp" where
  "demo = play sim (\<lambda>_. 0) 1 demo_acts (boot sim 80 demo_world)"

subsection \<open>The runs computed\<close>

lemmas run_reactor = new_linux_reactor_def delete_linux_reactor_def add_conn_def reactor_stop_def
  get_interrupt_def decode_event_def new_interrupt_info_def ready_codes_def int_of_bytes_def
  data_fd_def data_of_fd_def data_ptr_def data_of_ptr_def epoll_defs wake_event_def ready_event_def

lemmas run_interface = new_tcp_dispatcher_def start_listening_def dtor_request_def dtor_finish_def
  make_conn_def connect_conn_def connect_def open_socket_def new_recv_for_def close_conn_def
  close_conn_wait_def close_conn_wait_return_def release_def addref_def release_send_def
  send_req_of_def send_no_callback_def stop_accepting_def get_ip_port_def break_send_def
  break_send_init_def break_send_return_def set_bandwidth_def discard_def
  post_ptr_def post_def wake_def with_mr_def with_messages_def
  push_ptr_def push_code_def message_codes

lemmas run_thread = wait_interrupt_def handle_entry_def handle_wakeup_def handle_message_def
  handle_event_def handle_writable_def handle_readable_def create_connection_def with_ptr_def
  connection_established_def set_connected_def close_connection_def forget_callbacks_def
  close_socket_def drop_connection_def accept_connection_def call_accepted_def call_false_cb_def
  do_recv_def received_def queue_send_def do_send_def send_answered_def sent_some_def send_size_def finish_send_def serve_def
  idle_pass_def limiter_insert_def limiter_recalc_def limiter_update_def

lemmas run_data = empty_base_def new_bwstop_def is_enable_def bw_on_def bw_off_def bw_erase_def
  bw_guess_def bytes_reply_def demo_callbacks_def errno_defs

lemmas run_simps = run_basic run_objects run_reactor run_interface run_thread run_data

lemma boot_ok: "fst (new_tcp_dispatcher sim 0 80 (Some 9) (empty_base (7, es, bs))) = Inr ()"
  by (simp add: run_simps cong: run_cong)

lemma boot_sim_reachable: "reachable sim ub (boot sim 80 (7, es, bs))"
  by (rule boot_reachable [OF boot_ok])

lemma demo_reachable: "reachable sim (\<lambda>_. 0) demo"
  unfolding demo_def demo_world_def by (intro play_reachable boot_sim_reachable)

text \<open>The callbacks the run makes, in order.\<close>

lemma demo_run:
  "fst demo = Waiting"
  "filter conn_call (calls (snd demo)) =
     [User (Cb_connected 2 13 True), User (Cb_read 2 11 [1, 2, 3]), User (Cb_closed 2 12)]"
  by (simp_all add: demo_def boot_def demo_acts_def demo_world_def calls_def run_simps cong: run_cong)

text \<open>
  Connect, established, five bytes queued to be sent, in pieces of two, the last of them
  completing the request.
\<close>

definition demo_send :: "thread \<times> sim_world tcp" where
  "demo_send = play sim (\<lambda>_. 0) 1
     [Api_call (Api_connect 0 80 demo_callbacks), Thread_step, Thread_step, Thread_step,
      Thread_step, Thread_step, Thread_step, Api_call (Api_send 2 [1, 2, 3, 4, 5] (Some 14)),
      Thread_step, Thread_step, Thread_step, Thread_step, Thread_step, Thread_step, Thread_step,
      Thread_step, Thread_step, Thread_step]
     (boot sim 80 (7, [[wake_event], [ready_event 2 EPOLLOUT], [wake_event]], []))"

lemma demo_send_reachable: "reachable sim (\<lambda>_. 0) (fst demo_send, snd demo_send)"
  unfolding prod.collapse demo_send_def by (intro play_reachable boot_sim_reachable)

lemma demo_send_calls: "filter (sent_to 4) (calls (snd demo_send)) = [User (Cb_sent 4 14 True)]"
  by (simp add: demo_send_def boot_def calls_def run_simps cong: run_cong)

end
