(* ===== verification/Tcp_Stream.thy ===== *)
theory Tcp_Stream
  imports Tcp_Sends Tcp_Demo
begin

section \<open>What the Linux dispatcher writes to a socket for a send request\<close>

text \<open>
  One \<open>do_send\<close> hands the next bytes of the request to the kernel and remembers how many
  of them it took; over any number of attempts the socket gets a prefix of the data, and
  the callback is told once, at the end, whether it was all of it.
\<close>

text \<open>What \<open>send\<close> documents of its return value.\<close>

definition kernel_send :: "'w ext \<Rightarrow> bool" where
  "kernel_send ext \<longleftrightarrow> (\<forall>d bs w. rv (fst (ext (Os (Send d bs)) w)) = -1
     \<or> (0 \<le> rv (fst (ext (Os (Send d bs)) w)) \<and> rv (fst (ext (Os (Send d bs)) w)) \<le> int (length bs)))"

definition accepted_bytes :: "fd \<Rightarrow> event list \<Rightarrow> u8 list" where
  "accepted_bytes d es = concat (map (\<lambda>(k, r). case k of
     Os (Send d' bs) \<Rightarrow> if d' = d then take (nat (rv r)) bs else [] | _ \<Rightarrow> []) es)"

lemma accepted_simps [simp]:
  "accepted_bytes d [] = []"
  "accepted_bytes d ((Os (Send d' bs), r) # es) =
     (if d' = d then take (nat (rv r)) bs else []) @ accepted_bytes d es"
  "accepted_bytes d ((Os Ftime, r) # es) = accepted_bytes d es"
  "accepted_bytes d ((User u, r) # es) = accepted_bytes d es"
  "accepted_bytes d ((Release x m, r) # es) = accepted_bytes d es"
  by (simp_all add: accepted_bytes_def)

definition req_ok :: "send_req \<Rightarrow> bool" where
  "req_ok q \<longleftrightarrow> unat (total_bytes q) = length (send_data q) \<and> sent_bytes q \<le> total_bytes q"

definition answer :: "addr \<Rightarrow> send_req \<Rightarrow> bool \<Rightarrow> ext_call list" where
  "answer sr q v = (case sent_cb q of None \<Rightarrow> [] | Some cb \<Rightarrow> [User (Cb_sent sr cb v)])"

lemma answer_sent_bytes [simp]: "answer sr (q\<lparr>sent_bytes := n\<rparr>) v = answer sr q v"
  by (simp add: answer_def)

definition grows :: "fd \<Rightarrow> addr \<Rightarrow> u8 list \<Rightarrow> ext_call list \<Rightarrow> ('w, 'z) outside_scheme \<Rightarrow> ('w, 'z) outside_scheme \<Rightarrow> bool" where
  "grows d sr bs ks s t \<longleftrightarrow> (\<exists>es. trace t = trace s @ es \<and> accepted_bytes d es = bs
     \<and> filter (sent_to sr) (map fst es) = ks)"

lemma grows_refl: "grows d sr [] [] s s"
  by (simp add: grows_def)

lemma grows_trans: "grows d sr bs ks s t \<Longrightarrow> grows d sr bs' ks' t u \<Longrightarrow> grows d sr (bs @ bs') (ks @ ks') s u"
  by (force simp: grows_def accepted_bytes_def)

lemma finish_send_wp:
  fixes s :: "('w, 'z) tcp_scheme"
  assumes "send_heap s sr = Some q"
  shows "wp (finish_send ext sr v m) (\<lambda>_ t. grows d sr [] (answer sr q v) s t) (\<lambda>_ _. True) s"
  using assms
  unfolding finish_send_def send_callback_def send_release_def destroy_send_def conn_release_def destroy_conn_def
  by (auto simp: wp_simps wp_ret_eta grows_def answer_def split: option.split)

lemma limiter_insert_wp:
  fixes s :: "('w, 'z) tcp_scheme"
  shows "wp (limiter_insert ext p n) (\<lambda>_ t. grows d sr [] [] s t \<and> send_heap t = send_heap s
     \<and> conn_heap t = conn_heap s) E s"
  unfolding limiter_insert_def limiter_update_def
  by (auto simp: wp_simps wp_ret_eta grows_def)

lemma grows_heap:
  "grows d sr bs ks s (t\<lparr>send_heap := h\<rparr>) = grows d sr bs ks s t"
  "grows d sr bs ks (s\<lparr>send_heap := h\<rparr>) t = grows d sr bs ks s t"
  by (simp_all add: grows_def)

lemma grows_bws: "grows d sr bs ks s (t\<lparr>bws := b\<rparr>) = grows d sr bs ks s t"
  by (simp add: grows_def)

text \<open>The request after \<open>n\<close> more bytes.\<close>

abbreviation advanced :: "send_req \<Rightarrow> int \<Rightarrow> send_req" where
  "advanced q n \<equiv> q\<lparr>sent_bytes := sent_bytes q + word_of_int n\<rparr>"

lemma advance_wp:
  fixes s :: "('w, 'z) tcp_scheme"
  assumes "sr \<noteq> 0" and "send_heap s sr = Some q"
  shows "wp (whenever (n \<noteq> 0)
       (andthen (set_send sr (\<lambda>q. q\<lparr>sent_bytes := sent_bytes q + word_of_int n\<rparr>))
                (limiter_insert ext p (word_of_int n))))
     (\<lambda>_ t. grows d sr [] [] s t \<and> send_heap t sr = Some (advanced q n) \<and> conn_heap t = conn_heap s)
     (\<lambda>_ _. True) s"
proof (cases "n = 0")
  case False
  let ?s = "s\<lparr>send_heap := (send_heap s)(sr \<mapsto> advanced q n)\<rparr>"
  have "wp (limiter_insert ext p (word_of_int n)) (\<lambda>_ t. grows d sr [] [] s t
      \<and> send_heap t sr = Some (advanced q n) \<and> conn_heap t = conn_heap s) (\<lambda>_ _. True) ?s"
    by (rule wp_mono [OF limiter_insert_wp [where d = d and sr = sr]]) (auto simp: grows_heap)
  with False assms show ?thesis by (simp add: wp_whenever wp_andthen wp_set_send)
qed (use assms in \<open>simp add: wp_whenever grows_refl\<close>)

lemma sent_some_wp:
  fixes s :: "('w, 'z) tcp_scheme"
  assumes "sr \<noteq> 0" and "send_heap s sr = Some q"
  shows "wp (sent_some ext sr p sts n)
     (\<lambda>done t. done = (sent_bytes (advanced q n) = total_bytes q) \<and>
        grows d sr [] (if done then answer sr q True else []) s t \<and>
        (\<not> done \<longrightarrow> send_heap t sr = Some (advanced q n) \<and> conn_heap t = conn_heap s))
     (\<lambda>_ _. True) s"
  unfolding sent_some_def wp_andthen
proof (rule wp_mono [OF advance_wp [OF assms, where d = d]])
  fix t
  assume t: "grows d sr [] [] s t \<and> send_heap t sr = Some (advanced q n) \<and> conn_heap t = conn_heap s"
  define dn where "dn \<longleftrightarrow> sent_bytes (advanced q n) = total_bytes q"
  let ?Q = "\<lambda>x u. x = dn \<and> grows d sr [] (if x then answer sr q True else []) s u \<and>
        (\<not> x \<longrightarrow> send_heap u sr = Some (advanced q n) \<and> conn_heap u = conn_heap s)"
  let ?off = "whenever (n < uint sts)
         (bnd (deref send_heap sr) (\<lambda>q. limiter_update (bw_off (iov_conn (send_iov q)))))"
  have rest: "wp (andthen ?off (ret dn)) ?Q (\<lambda>_ _. True) u" if "?Q dn u" for u
    using that by (auto simp: wp_simps limiter_update_def grows_bws split: option.split)
  have "wp (andthen (whenever dn (finish_send ext sr True ''sending's_done.'')) (andthen ?off (ret dn)))
      ?Q (\<lambda>_ _. True) t"
  proof (cases dn)
    case True
    have "wp (finish_send ext sr True ''sending's_done.'') (\<lambda>_ u. ?Q dn u) (\<lambda>_ _. True) t"
      by (rule wp_mono [OF finish_send_wp [where d = d]])
        (use t True in \<open>auto dest: grows_trans\<close>)
    then have "wp (finish_send ext sr True ''sending's_done.'')
       (\<lambda>_. wp (andthen ?off (ret dn)) ?Q (\<lambda>_ _. True)) (\<lambda>_ _. True) t"
      by (rule wp_mono) (rule rest, assumption, rule TrueI)
    with True show ?thesis unfolding wp_andthen [of "whenever dn _"] wp_whenever [of dn] by simp
  next
    case False
    then have "?Q dn t" using t by simp
    from rest [OF this] False show ?thesis
      unfolding wp_andthen [of "whenever dn _"] wp_whenever [of dn] by simp
  qed
  then show "wp (bnd (deref send_heap sr) (\<lambda>q.
      let done = (sent_bytes q = total_bytes q) in
      andthen (whenever done (finish_send ext sr True ''sending's_done.''))
      (andthen ?off (ret done))))
     (\<lambda>done u. done = (sent_bytes (advanced q n) = total_bytes q) \<and>
        grows d sr [] (if done then answer sr q True else []) s u \<and>
        (\<not> done \<longrightarrow> send_heap u sr = Some (advanced q n) \<and> conn_heap u = conn_heap s))
     (\<lambda>_ _. True) t"
    unfolding dn_def using assms t by (simp add: wp_bnd wp_deref Let_def)
qed simp

lemma send_size_le: "send_size q g \<le> total_bytes q - sent_bytes q"
  by (auto simp: send_size_def Let_def not_less split: option.split)

lemma req_left:
  assumes "req_ok q"
  shows "unat (total_bytes q - sent_bytes q) = length (send_data q) - unat (sent_bytes q)"
    and "unat (sent_bytes q) \<le> length (send_data q)" "length (send_data q) < 2 ^ 32"
proof -
  have "unat (total_bytes q) < 2 ^ 32" using unsigned_less [where 'b = 32, of "total_bytes q"] by simp
  then show "length (send_data q) < 2 ^ 32" using assms by (simp add: req_ok_def)
  show "unat (total_bytes q - sent_bytes q) = length (send_data q) - unat (sent_bytes q)"
    using assms by (simp add: req_ok_def unat_sub)
  show "unat (sent_bytes q) \<le> length (send_data q)"
    using assms by (auto simp: req_ok_def word_le_nat_alt)
qed

lemma advance_unat:
  assumes "req_ok q" and "n \<le> length (send_data q) - unat (sent_bytes q)"
  shows "unat (sent_bytes q + of_nat n) = unat (sent_bytes q) + n"
proof -
  have "unat (sent_bytes q) + n < 2 ^ 32" using req_left(2,3) [OF assms(1)] assms(2) by linarith
  then have "unat (of_nat n :: u32) = n" by (simp add: unat_of_nat)
  then show ?thesis
    using \<open>unat (sent_bytes q) + n < 2 ^ 32\<close> by (simp add: unat_word_ariths(1))
qed

lemma advance_done:
  assumes "req_ok q" and "n \<le> length (send_data q) - unat (sent_bytes q)"
  shows "(sent_bytes q + of_nat n = total_bytes q) = (unat (sent_bytes q) + n = length (send_data q))"
  using advance_unat [OF assms] assms(1) by (metis req_ok_def word_unat_eq_iff)

lemma advance_ok:
  assumes "req_ok q" and "n \<le> length (send_data q) - unat (sent_bytes q)"
  shows "req_ok (q\<lparr>sent_bytes := sent_bytes q + of_nat n\<rparr>)"
  using advance_unat [OF assms] req_left(2) [OF assms(1)] assms
  by (auto simp: req_ok_def word_le_nat_alt)

definition attempted :: "fd \<Rightarrow> addr \<Rightarrow> send_req \<Rightarrow> nat \<Rightarrow> ('w, 'z) tcp_scheme \<Rightarrow> bool \<Rightarrow> ('w, 'z) tcp_scheme \<Rightarrow> bool" where
  "attempted d sr q n s done t \<longleftrightarrow>
      grows d sr (take n (drop (unat (sent_bytes q)) (send_data q)))
        (if done then answer sr q (unat (sent_bytes q) + n = length (send_data q)) else []) s t \<and>
      (unat (sent_bytes q) + n = length (send_data q) \<longrightarrow> done) \<and>
      (\<not> done \<longrightarrow> send_heap t sr = Some (q\<lparr>sent_bytes := sent_bytes q + of_nat n\<rparr>)
         \<and> conn_heap t = conn_heap s)"

lemma do_send_wp:
  fixes s :: "('w, 'z) tcp_scheme"
  assumes k: "kernel_send ext" and sr: "sr \<noteq> 0" "send_heap s sr = Some q"
    and p: "iov_conn (send_iov q) \<noteq> 0" "conn_heap s (iov_conn (send_iov q)) = Some c" "conn_st c \<noteq> Cs_closed"
    and ok: "req_ok q" and size: "send_size q g \<noteq> 0"
  shows "wp (do_send ext sr g) (\<lambda>(done, g') t. \<exists>n \<le> unat (send_size q g).
      attempted (sock c) sr q n s done t \<and> g' = map_option (\<lambda>g. g - of_nat n) g) (\<lambda>_ _. True) s"
proof -
  let ?sts = "send_size q g"
  let ?bs = "take (unat ?sts) (drop (unat (sent_bytes q)) (send_data q))"
  let ?k = "Os (Send (sock c) ?bs)"
  let ?Q = "\<lambda>(done, g') t. \<exists>n \<le> unat ?sts.
      attempted (sock c) sr q n s done t \<and> g' = map_option (\<lambda>g. g - of_nat n) g"
  obtain r w where r: "ext ?k (world s) = (r, w)" by (cases "ext ?k (world s)")
  let ?s1 = "s\<lparr>world := w, trace := trace s @ [(?k, r)]\<rparr>"
  have left: "unat ?sts \<le> length (send_data q) - unat (sent_bytes q)"
    using send_size_le [of q g] req_left(1) [OF ok] by (simp add: word_le_nat_alt)
  have open_end: "unat (sent_bytes q) \<noteq> length (send_data q)"
    using left size by (auto simp: unat_eq_0)
  have g1: "grows (sock c) sr (take (nat (rv r)) ?bs) [] s ?s1"
    by (simp add: grows_def)
  have "wp (send_answered ext sr (iov_conn (send_iov q)) ?sts g r) ?Q (\<lambda>_ _. True) ?s1"
  proof (cases "rv r = -1")
    case True
    let ?s2 = "?s1\<lparr>bws := bw_off (iov_conn (send_iov q)) (bws ?s1)\<rparr>"
    have g2: "grows (sock c) sr [] [] s ?s2" using g1 True by (simp add: grows_bws)
    have "attempted (sock c) sr q 0 s False ?s2"
      using g2 sr open_end by (simp add: attempted_def)
    then have "?Q (False, g) ?s2" by (auto intro!: exI [of _ 0] simp: option.map_ident)
    moreover have "wp (finish_send ext sr False m) (\<lambda>_. ?Q (True, g)) (\<lambda>_ _. True) ?s2" for m
    proof (rule wp_mono [OF finish_send_wp [where d = "sock c" and q = q]])
      fix t assume "grows (sock c) sr [] (answer sr q False) ?s2 t"
      from grows_trans [OF g2 this] have "attempted (sock c) sr q 0 s True t"
        using open_end by (simp add: attempted_def)
      then show "?Q (True, g) t" by (auto intro!: exI [of _ 0] simp: option.map_ident)
    qed (use sr in simp_all)
    ultimately show ?thesis
      using True by (simp add: send_answered_def wp_andthen wp_ret wp_ret_eta limiter_update_def wp_modify)
  next
    case False
    let ?n = "nat (rv r)"
    have "0 \<le> rv r \<and> rv r \<le> int (length ?bs)"
      using k r False unfolding kernel_send_def by (metis fst_conv)
    then have n: "rv r = int ?n" "?n \<le> unat ?sts" using left by (auto simp: nat_le_iff)
    have n': "?n \<le> length (send_data q) - unat (sent_bytes q)" using n left by simp
    have bytes: "take ?n ?bs = take ?n (drop (unat (sent_bytes q)) (send_data q))" using n by simp
    have word: "word_of_int (rv r) = (of_nat ?n :: u32)" by (subst n(1)) simp
    have "wp (sent_some ext sr (iov_conn (send_iov q)) ?sts (rv r))
      (\<lambda>done. ?Q (done, map_option (\<lambda>g. g - word_of_int (rv r)) g)) (\<lambda>_ _. True) ?s1"
    proof (rule wp_mono [OF sent_some_wp [where d = "sock c" and q = q]])
      fix dn t
      assume t: "dn = (sent_bytes (advanced q (rv r)) = total_bytes q) \<and>
        grows (sock c) sr [] (if dn then answer sr q True else []) ?s1 t \<and>
        (\<not> dn \<longrightarrow> send_heap t sr = Some (advanced q (rv r)) \<and> conn_heap t = conn_heap ?s1)"
      have d: "dn = (unat (sent_bytes q) + ?n = length (send_data q))"
        using t advance_done [OF ok n'] by (simp add: word)
      have "grows (sock c) sr (take ?n ?bs @ []) ([] @ (if dn then answer sr q True else [])) s t"
        by (rule grows_trans [OF g1]) (use t in blast)
      then have "attempted (sock c) sr q ?n s dn t"
        using t d bytes unfolding attempted_def word append_Nil append_Nil2 by auto
      then show "?Q (dn, map_option (\<lambda>g. g - word_of_int (rv r)) g) t"
        using n(2) by (auto simp: word)
    qed (use sr in simp_all)
    then show ?thesis
      using False by (simp add: send_answered_def wp_bnd wp_ret_eta)
  qed
  then show ?thesis
    using sr p size r unfolding do_send_def
    by (simp add: wp_bnd wp_deref wp_call Let_def)
qed

text \<open>The attempts of successive passes at one request, with the budgets they were given.\<close>

fun attempts :: "'w ext \<Rightarrow> addr \<Rightarrow> u32 option list \<Rightarrow> (('w, 'z) tcp_scheme, bool) prog" where
  "attempts ext sr [] = ret False"
| "attempts ext sr (g # gs) = bnd (do_send ext sr g) (\<lambda>(done, _).
     if done then ret True else attempts ext sr gs)"

lemma do_send_nothing:
  assumes "sr \<noteq> 0" and "send_heap s sr = Some q" and "iov_conn (send_iov q) \<noteq> 0"
    and "conn_heap s (iov_conn (send_iov q)) = Some c" and "conn_st c \<noteq> Cs_closed"
    and "send_size q g = 0"
  shows "do_send ext sr g s = (Inr (False, g), s)"
  using assms by (simp add: do_send_def run_basic Let_def cong: run_cong)

lemma attempts_wp:
  fixes s :: "('w, 'z) tcp_scheme"
  assumes k: "kernel_send ext" and sr: "sr \<noteq> 0" and p: "iov_conn (send_iov q) \<noteq> 0" "conn_st c \<noteq> Cs_closed"
  shows "send_heap s sr = Some q \<Longrightarrow> conn_heap s (iov_conn (send_iov q)) = Some c \<Longrightarrow> req_ok q \<Longrightarrow>
    wp (attempts ext sr gs) (\<lambda>dn t. \<exists>n \<le> length (send_data q) - unat (sent_bytes q).
      grows (sock c) sr (take n (drop (unat (sent_bytes q)) (send_data q)))
        (if dn then answer sr q (unat (sent_bytes q) + n = length (send_data q)) else []) s t \<and>
      (\<not> dn \<longrightarrow> send_heap t sr = Some (q\<lparr>sent_bytes := sent_bytes q + of_nat n\<rparr>))) (\<lambda>_ _. True) s"
  using p
proof (induction gs arbitrary: s q)
  case Nil
  then show ?case by (auto simp: wp_ret grows_refl intro!: exI [of _ 0])
next
  case (Cons g gs)
  let ?Q = "\<lambda>s q dn t. \<exists>n \<le> length (send_data q) - unat (sent_bytes q).
      grows (sock c) sr (take n (drop (unat (sent_bytes q)) (send_data q)))
        (if dn then answer sr q (unat (sent_bytes q) + n = length (send_data q)) else []) s t \<and>
      (\<not> dn \<longrightarrow> send_heap t sr = Some (q\<lparr>sent_bytes := sent_bytes q + of_nat n\<rparr>))"
  show ?case
  proof (cases "send_size q g = 0")
    case True
    have "wp (attempts ext sr (g # gs)) (?Q s q) (\<lambda>_ _. True) s =
        wp (attempts ext sr gs) (?Q s q) (\<lambda>_ _. True) s"
      using do_send_nothing [OF sr Cons.prems(1) Cons.prems(4) Cons.prems(2) Cons.prems(5) True]
      by (simp add: wp_def bnd_def)
    with Cons.IH [OF Cons.prems] show ?thesis by simp
  next
    case False
    have left: "unat (send_size q g) \<le> length (send_data q) - unat (sent_bytes q)"
      using send_size_le [of q g] req_left(1) [OF Cons.prems(3)] by (simp add: word_le_nat_alt)
    have "wp (do_send ext sr g)
      (\<lambda>(dn, _). wp (if dn then ret True else attempts ext sr gs) (?Q s q) (\<lambda>_ _. True)) (\<lambda>_ _. True) s"
    proof (rule wp_mono [OF do_send_wp [OF k sr Cons.prems(1) Cons.prems(4) Cons.prems(2)
            Cons.prems(5) Cons.prems(3) False]], clarify)
      fix dn g' t n
      assume n: "n \<le> unat (send_size q g)" and t: "attempted (sock c) sr q n s dn t"
      have n': "n \<le> length (send_data q) - unat (sent_bytes q)" using n left by simp
      show "wp (if dn then ret True else attempts ext sr gs) (?Q s q) (\<lambda>_ _. True) t"
      proof (cases dn)
        case True
        with t n' show ?thesis by (auto simp: attempted_def wp_ret)
      next
        case dn: False
        let ?q = "q\<lparr>sent_bytes := sent_bytes q + of_nat n\<rparr>"
        have heap: "send_heap t sr = Some ?q" "conn_heap t = conn_heap s"
          and g1: "grows (sock c) sr (take n (drop (unat (sent_bytes q)) (send_data q))) [] s t"
          using t dn by (auto simp: attempted_def)
        have sent: "unat (sent_bytes ?q) = unat (sent_bytes q) + n"
          using advance_unat [OF Cons.prems(3) n'] by simp
        have "wp (attempts ext sr gs) (?Q t ?q) (\<lambda>_ _. True) t"
          by (rule Cons.IH) (use heap Cons.prems advance_ok [OF Cons.prems(3) n'] in simp_all)
        then have "wp (attempts ext sr gs) (?Q s q) (\<lambda>_ _. True) t"
        proof (rule wp_mono, elim exE conjE)
          fix dn' u m
          assume m: "m \<le> length (send_data ?q) - unat (sent_bytes ?q)"
            and g2: "grows (sock c) sr (take m (drop (unat (sent_bytes ?q)) (send_data ?q)))
              (if dn' then answer sr ?q (unat (sent_bytes ?q) + m = length (send_data ?q)) else []) t u"
            and h: "\<not> dn' \<longrightarrow> send_heap u sr = Some (?q\<lparr>sent_bytes := sent_bytes ?q + of_nat m\<rparr>)"
          have "take (n + m) (drop (unat (sent_bytes q)) (send_data q)) =
              take n (drop (unat (sent_bytes q)) (send_data q)) @
              take m (drop (unat (sent_bytes ?q)) (send_data ?q))"
            unfolding sent take_add by (simp add: add.commute)
          then have "grows (sock c) sr (take (n + m) (drop (unat (sent_bytes q)) (send_data q)))
              (if dn' then answer sr q (unat (sent_bytes q) + (n + m) = length (send_data q)) else []) s u"
            using grows_trans [OF g1 g2] unfolding sent by (simp add: add.assoc cong: if_cong)
          moreover have "n + m \<le> length (send_data q) - unat (sent_bytes q)"
            using m n' unfolding sent by simp
          ultimately show "?Q s q dn' u" using h by (intro exI [of _ "n + m"]) (simp add: add.assoc)
        qed simp
        with dn show ?thesis by simp
      qed
    qed simp
    then show ?thesis by (simp add: wp_bnd case_prod_unfold)
  qed
qed

end
