(* ===== verification/Contract.thy ===== *)
theory Contract
  imports Sends
begin

section \<open>What itcp_dispatcher.h promises of the callbacks\<close>

text \<open>
  The interface between a dispatcher and its user, as far as callbacks go: a set of
  histories, the sequences of calls that runs make.  A dispatcher provides it by showing
  that no history breaks the automaton of \<open>Protocol\<close> and that no send request's callback is
  called twice; the promises follow.
\<close>

locale callback_contract =
  fixes history :: "ext_call list \<Rightarrow> bool"
  assumes unbroken: "history cs \<Longrightarrow> phase_of p cs \<noteq> Broken"
    and sent_once: "history cs \<Longrightarrow> length (filter (sent_to p) cs) \<le> 1"
begin

lemma closed_last:
  assumes "history (before @ k # after)" and "closes p k \<or> fails p k"
  shows "\<forall>a \<in> set after. \<not> callback_of p a"
  by (rule unbroken_after_close [OF unbroken [OF assms(1)] assms(2)])

lemma closed_established:
  assumes "history (before @ k # after)" and "closes p k"
  shows "\<exists>b \<in> set before. establishes p b"
  by (rule unbroken_before_close [OF unbroken [OF assms(1)] assms(2)])

lemma established_first:
  assumes "history (before @ k # after)" and "establishes p k \<or> fails p k" and "b \<in> set before"
  shows "\<not> establishes p b \<and> \<not> fails p b \<and> \<not> closes p b"
  by (rule unbroken_first [OF unbroken [OF assms(1)] assms(2,3)])

lemma established_once:
  assumes "history (before @ k # after)" and "establishes p k \<or> fails p k" and "a \<in> set after"
  shows "\<not> establishes p a \<and> \<not> fails p a"
proof -
  obtain xs ys where a: "after = xs @ a # ys" using split_list [OF assms(3)] by blast
  have "history ((before @ k # xs) @ a # ys)" using assms(1) a by simp
  from established_first [OF this, of p k] assms(2) show ?thesis by auto
qed

lemmas promises = closed_last closed_established established_first established_once

end

end
