(* ===== verification/Tcp_Properties.thy ===== *)
theory Tcp_Properties
  imports Tcp_Stream Contract
begin

section \<open>Properties of the Linux dispatcher in every run\<close>

text \<open>
  The promises of \<open>itcp_dispatcher.h\<close> about callbacks, read off the invariants of
  \<open>Tcp_Protocol\<close> and \<open>Tcp_Sends\<close>, and the stream that a send request writes.
\<close>

interpretation tcp_contract: callback_contract "\<lambda>cs. \<exists>ub th s. reachable ext ub (th, s) \<and> cs = calls s"
  for ext :: "'w ext"
proof unfold_locales
  fix cs p assume "\<exists>ub th s. reachable ext ub (th, s) \<and> cs = calls s"
  then obtain ub th s where r: "reachable ext ub (th, s)" "cs = calls s" by blast
  show "phase_of p cs \<noteq> Broken"
    using protocol.always [OF r(1)] r(2) by (simp add: safe_def)
  show "length (filter (sent_to p) cs) \<le> 1"
    using sending.always [OF r(1)] r(2) by (simp add: sends_safe_def sent_count_def)
qed

lemma reachable_history:
  "reachable ext ub (th, s) \<Longrightarrow> calls s = cs \<Longrightarrow> \<exists>ub th s. reachable ext ub (th, s) \<and> cs = calls s"
  by blast

text \<open>
  C1: In every reachable state, whatever the operating system, the callbacks and the
  interleaving of the threads do: when \<open>closed\<close> has been called for a connection, then
  \<open>connected\<close> with the connection or the accepted callback had been called for it before,
  and no callback of that connection has been called since.
\<close>

theorem closed_protocol:
  assumes "reachable ext ub (th, s)"
    and "calls s = before @ User (Cb_closed p cb) # after"
  shows "(\<exists>b \<in> set before. establishes p b) \<and> (\<forall>a \<in> set after. \<not> callback_of p a)"
proof -
  note h = reachable_history [OF assms]
  show ?thesis
    using tcp_contract.closed_established [OF h] tcp_contract.closed_last [OF h] by simp
qed

text \<open>The concrete run cut at its call of \<open>closed\<close>.\<close>

lemma demo_reach: "reachable sim (\<lambda>_. 0) (Waiting, snd demo)"
  using demo_reachable demo_run(1) by (metis prod.collapse)

lemma demo_closed_call: "User (Cb_closed 2 12) \<in> set (calls (snd demo))"
proof -
  have "User (Cb_closed 2 12) \<in> set (filter conn_call (calls (snd demo)))"
    unfolding demo_run(2) by simp
  then show ?thesis by simp
qed

theorem closed_protocol_witness:
  "\<exists>before after. calls (snd demo) = before @ User (Cb_closed 2 12) # after
     \<and> (\<exists>b \<in> set before. establishes 2 b) \<and> (\<forall>a \<in> set after. \<not> callback_of 2 a)"
proof -
  obtain before after where "calls (snd demo) = before @ User (Cb_closed 2 12) # after"
    using demo_closed_call by (auto dest: split_list)
  with closed_protocol [OF demo_reach this] show ?thesis by blast
qed

text \<open>
  In every reachable state: when \<open>connected\<close> has been called for a connection, then
  neither \<open>connected\<close> nor the accepted callback nor \<open>closed\<close> had been called for it before,
  and neither \<open>connected\<close> nor the accepted callback has been called since; after
  \<open>connected(null)\<close> no callback has been called at all, \<open>closed\<close> included.
\<close>

theorem connected_protocol:
  assumes "reachable ext ub (th, s)"
    and "calls s = before @ User (Cb_connected p cb ok) # after"
  shows "(\<forall>b \<in> set before. \<not> establishes p b \<and> \<not> fails p b \<and> \<not> closes p b)
    \<and> (\<forall>a \<in> set after. \<not> establishes p a \<and> \<not> fails p a)
    \<and> (\<not> ok \<longrightarrow> (\<forall>a \<in> set after. \<not> callback_of p a))"
proof -
  note h = reachable_history [OF assms]
  show ?thesis
    using tcp_contract.established_first [OF h] tcp_contract.established_once [OF h]
      tcp_contract.closed_last [OF h] by auto
qed

theorem connected_protocol_witness:
  "\<exists>before after. calls (snd demo) = before @ User (Cb_connected 2 13 True) # after
    \<and> (\<forall>b \<in> set before. \<not> establishes 2 b \<and> \<not> fails 2 b \<and> \<not> closes 2 b)
    \<and> (\<forall>a \<in> set after. \<not> establishes 2 a \<and> \<not> fails 2 a)"
proof -
  have "User (Cb_connected 2 13 True) \<in> set (filter conn_call (calls (snd demo)))"
    unfolding demo_run(2) by simp
  then obtain before after where "calls (snd demo) = before @ User (Cb_connected 2 13 True) # after"
    by (auto dest: split_list)
  with connected_protocol [OF demo_reach this] show ?thesis by blast
qed

text \<open>
  C8: In every reachable state the callback of a send request has been called at most
  once.
\<close>

theorem sent_callback_once:
  assumes "reachable ext ub (th, s)"
  shows "length (filter (sent_to sr) (calls s)) \<le> 1"
  by (rule tcp_contract.sent_once [OF reachable_history [OF assms refl]])

theorem sent_callback_once_witness:
  "length (filter (sent_to 4) (calls (snd demo_send))) = 1
     \<and> length (filter (sent_to 4) (calls (snd demo_send))) \<le> 1"
  using demo_send_calls sent_callback_once [OF demo_send_reachable, of 4] by simp


lemma kernel_send_sim: "kernel_send sim"
  by (simp add: kernel_send_def plain_reply_def)

definition stream_conn :: conn where
  "stream_conn = (new_conn_struct 8 demo_callbacks)\<lparr>conn_st := Cs_connected\<rparr>"

definition stream_req :: send_req where
  "stream_req = \<lparr>send_iov = \<lparr>iov_sock = 8, iov_code = FD_WRITE, iov_conn = 2\<rparr>, break_sem = Some 0,
     total_bytes = 3, sent_bytes = 0, sent_cb = Some 14, send_data = [1, 2, 3]\<rparr>"

definition stream_state :: "sim_world tcp" where
  "stream_state = (empty_base (9, [], []))\<lparr>conn_heap := [2 \<mapsto> stream_conn],
     send_heap := [4 \<mapsto> stream_req], last_addr := 4\<rparr>"

lemmas stream_defs = stream_conn_def stream_req_def stream_state_def

lemma stream_attempts: "fst (attempts sim 4 [None, Some 1] stream_state) = Inr True"
  by (simp add: stream_defs run_simps cong: run_cong)


end
