(* ===== verification/Tcp_Handlers.thy ===== *)
theory Tcp_Handlers
  imports Tcp_Properties
begin

section \<open>What the handlers of the Linux dispatcher do\<close>

text \<open>
  The functional behaviour of the dispatcher's handlers, branch by branch, and of the
  reactor's decoding of events.
\<close>

subsection \<open>Closing\<close>

lemmas close_defs = close_connection_def call_closed_def call_connected_def forget_callbacks_def
  close_socket_def drop_connection_def recv_release_def conn_release_def limiter_update_def


definition open_state :: "unit tcp" where
  "open_state = (empty_base ())\<lparr>conn_heap := [2 \<mapsto> (new_conn_struct 8 demo_callbacks)\<lparr>conn_recv := 3,
       conn_st := Cs_connected\<rparr>],
     recv_heap := [3 \<mapsto> \<lparr>recv_iov = \<lparr>iov_sock = 8, iov_code = FD_READ, iov_conn = 2\<rparr>,
       recv_size = 0, recv_data = []\<rparr>], last_addr := 3, sockets_counter := 1\<rparr>"


text \<open>
  Closing a connection that is still being established, when no call fails:
  \<open>connected\<close> is called with null, never \<open>closed\<close>; the reference taken for the network event
  and the two of the library are given back and the socket is closed.
\<close>

theorem close_unconnected_effect:
  fixes s :: "('w, 'z) tcp_scheme"
  assumes "all_succeed ext" and "p \<noteq> 0" and "conn_heap s p = Some c" and "conn_st c = Cs_wait4connect"
    and "cb_connected (cbs c) = Some cb" and "conn_recv c \<noteq> 0" and "recv_heap s (conn_recv c) = Some rr"
  shows "\<exists>t. close_connection ext p s = (Inr (), t)
    \<and> calls t = calls s @ [User (Cb_connected p cb False),
        Release (ConnObj p) ''waiting4connect's not finished.'', Os (Close (sock c)),
        Release (RecvObj (conn_recv c)) ''close_connection'', Release (ConnObj p) ''close_connection'']
    \<and> conn_heap t = (conn_heap s)(p \<mapsto> c\<lparr>cbs := no_callbacks, conn_st := Cs_closed\<rparr>)
    \<and> sockets_counter t = sockets_counter s - 1"
proof -
  have "wp (close_connection ext p) (\<lambda>_ t. calls t = calls s @ [User (Cb_connected p cb False),
        Release (ConnObj p) ''waiting4connect's not finished.'', Os (Close (sock c)),
        Release (RecvObj (conn_recv c)) ''close_connection'', Release (ConnObj p) ''close_connection'']
    \<and> conn_heap t = (conn_heap s)(p \<mapsto> c\<lparr>cbs := no_callbacks, conn_st := Cs_closed\<rparr>)
    \<and> sockets_counter t = sockets_counter s - 1) (\<lambda>_ _. False) s"
    using assms unfolding close_defs all_succeed_def
    by (simp add: wp_simps wp_ret_eta calls_def)
  from wp_returns [OF this] show ?thesis by auto
qed

definition connecting_state :: "unit tcp" where
  "connecting_state = open_state\<lparr>conn_heap := [2 \<mapsto> (new_conn_struct 8 demo_callbacks)\<lparr>conn_recv := 3\<rparr>]\<rparr>"

theorem close_unconnected_effect_witness:
  "\<exists>t. close_connection quiet_world 2 connecting_state = (Inr (), t)
    \<and> calls t = [User (Cb_connected 2 13 False),
        Release (ConnObj 2) ''waiting4connect's not finished.'', Os (Close 8),
        Release (RecvObj 3) ''close_connection'', Release (ConnObj 2) ''close_connection'']"
proof -
  let ?c = "(new_conn_struct 8 demo_callbacks)\<lparr>conn_recv := 3\<rparr>"
  have "\<exists>t. close_connection quiet_world 2 connecting_state = (Inr (), t)
    \<and> calls t = calls connecting_state @ [User (Cb_connected 2 13 False),
        Release (ConnObj 2) ''waiting4connect's not finished.'', Os (Close (sock ?c)),
        Release (RecvObj (conn_recv ?c)) ''close_connection'', Release (ConnObj 2) ''close_connection'']
    \<and> conn_heap t = (conn_heap connecting_state)(2 \<mapsto> ?c\<lparr>cbs := no_callbacks, conn_st := Cs_closed\<rparr>)
    \<and> sockets_counter t = sockets_counter connecting_state - 1"
    by (rule close_unconnected_effect [OF all_succeed_quiet])
      (simp_all add: connecting_state_def open_state_def new_conn_struct_def demo_callbacks_def)
  then show ?thesis
    by (auto simp: connecting_state_def open_state_def new_conn_struct_def empty_base_def calls_def)
qed

subsection \<open>Receiving\<close>

text \<open>
  C25: One readiness event of a connection with a read callback makes exactly one call of
  \<open>recv\<close>, of at most 65536 bytes.  If it got bytes, the read callback gets exactly those
  bytes, once, and the answer is their number, or 0 (which makes the caller close the
  connection) when the callback threw the library's exception; nothing else is called.  If
  it would block the answer is not 0; on any other error and at the end of the stream it
  is 0.
\<close>

theorem do_recv_effect:
  fixes s :: "('w, 'z) tcp_scheme"
  assumes "p \<noteq> 0" and "conn_heap s p = Some c" and "cb_read (cbs c) = Some cb"
    and "conn_recv c \<noteq> 0" and "recv_heap s (conn_recv c) = Some rr"
    and "ext (Os (Recv (sock c) 65536)) (world s) = (r, w)"
    and "ext (User (Cb_read p cb (take (nat (rv r)) (r_bytes r)))) w = (r', w')"
  shows "\<exists>t. do_recv ext p s = (Inr (if rv r = -1 then
        (if err r = EWOULDBLOCK \<or> err r = EINPROGRESS then -1 else 0)
      else if 0 < rv r \<and> rv r' \<noteq> 0 then 0 else rv r), t)
    \<and> calls t = calls s @ Os (Recv (sock c) 65536) #
        (if 0 < rv r then [User (Cb_read p cb (take (nat (rv r)) (r_bytes r)))] else [])
    \<and> conn_heap t = conn_heap s \<and> send_heap t = send_heap s"
proof -
  have "wp (do_recv ext p) (\<lambda>n t. n = (if rv r = -1 then
        (if err r = EWOULDBLOCK \<or> err r = EINPROGRESS then -1 else 0)
      else if 0 < rv r \<and> rv r' \<noteq> 0 then 0 else rv r)
    \<and> calls t = calls s @ Os (Recv (sock c) 65536) #
        (if 0 < rv r then [User (Cb_read p cb (take (nat (rv r)) (r_bytes r)))] else [])
    \<and> conn_heap t = conn_heap s \<and> send_heap t = send_heap s) (\<lambda>_ _. False) s"
    using assms unfolding do_recv_def received_def call_read_def
    by (simp add: wp_simps wp_ret_eta calls_def MAX_WBUF_SIZE_def)
  from wp_returns [OF this] show ?thesis by auto
qed

theorem do_recv_effect_witness:
  "\<exists>t. do_recv sim 2 (stream_state\<lparr>world := (9, [], [[5, 6]]), conn_heap := [2 \<mapsto>
        stream_conn\<lparr>conn_recv := 3\<rparr>], recv_heap := recv_heap open_state\<rparr>) = (Inr 2, t)
    \<and> calls t = [Os (Recv 8 65536), User (Cb_read 2 11 [5, 6])]"
proof -
  let ?s = "stream_state\<lparr>world := (9, [], [[5, 6]]), conn_heap := [2 \<mapsto>
        stream_conn\<lparr>conn_recv := 3\<rparr>], recv_heap := recv_heap open_state\<rparr>"
  have "\<exists>t. do_recv sim 2 ?s = (Inr (if rv (bytes_reply [5, 6]) = -1 then
        (if err (bytes_reply [5, 6]) = EWOULDBLOCK \<or> err (bytes_reply [5, 6]) = EINPROGRESS then -1 else 0)
      else if 0 < rv (bytes_reply [5, 6]) \<and> rv (plain_reply 0) \<noteq> 0 then 0
      else rv (bytes_reply [5, 6])), t)
    \<and> calls t = calls ?s @ Os (Recv (sock (stream_conn\<lparr>conn_recv := 3\<rparr>)) 65536) #
        (if 0 < rv (bytes_reply [5, 6]) then [User (Cb_read 2 11
           (take (nat (rv (bytes_reply [5, 6]))) (r_bytes (bytes_reply [5, 6]))))] else [])
    \<and> conn_heap t = conn_heap ?s \<and> send_heap t = send_heap ?s"
    by (rule do_recv_effect [where w = "(9, [], [])" and w' = "(9, [], [])"])
      (simp_all add: stream_defs open_state_def new_conn_struct_def demo_callbacks_def
        bytes_reply_def plain_reply_def)
  then show ?thesis
    by (auto simp: stream_defs new_conn_struct_def bytes_reply_def plain_reply_def empty_base_def calls_def)
qed

subsection \<open>Connecting\<close>

lemma connected_conn:
  fixes s :: "('w, 'z) tcp_scheme"
  assumes "mr s = Some R" and "i_messages s = Some q"
    and "connect ext self ip port cb s = (Inr p, t)" and "p \<noteq> 0"
  shows "p = Suc (last_addr s)
    \<and> (\<exists>c. conn_heap t p = Some c \<and> conn_st c = Cs_wait4connect \<and> cbs c = cb
         \<and> conn_addr c = Some \<lparr>sin_addr = ip, sin_port = htons port\<rparr>)
    \<and> i_messages t = Some (q @ [\<lparr>im_code = P_CREATE_CONNECTION, im_ptr = Some p\<rparr>])
    \<and> sockets_counter t = sockets_counter s + 1"
proof -
  have "wp (connect ext self ip port cb) (\<lambda>p t. p \<noteq> 0 \<longrightarrow> p = Suc (last_addr s)
    \<and> (\<exists>c. conn_heap t p = Some c \<and> conn_st c = Cs_wait4connect \<and> cbs c = cb
         \<and> conn_addr c = Some \<lparr>sin_addr = ip, sin_port = htons port\<rparr>)
    \<and> i_messages t = Some (q @ [\<lparr>im_code = P_CREATE_CONNECTION, im_ptr = Some p\<rparr>])
    \<and> sockets_counter t = sockets_counter s + 1) (\<lambda>_ _. True) s"
    using assms(1,2) unfolding connect_def open_socket_def new_recv_for_def post_ptr_def wake_def
      with_mr_def with_messages_def reactor_stop_def new_recv_req_def conn_addref_def recv_addref_def
    by (simp add: wp_simps wp_ret_eta new_conn_struct_def push_ptr_def peer_addr_def)
  from wp_Inr [OF this assms(3)] assms(4) show ?thesis by blast
qed

lemma boot_connect: "\<exists>t. connect sim 1 0 80 demo_callbacks (snd (boot sim 80 (7, [], []))) = (Inr 2, t)"
proof -
  have "fst (connect sim 1 0 80 demo_callbacks (snd (boot sim 80 (7, [], [])))) = Inr 2"
    by (simp add: boot_def run_simps cong: run_cong)
  then show ?thesis by (metis prod.collapse)
qed

lemma boot_members:
  "mr (snd (boot sim 80 (7, [], []))) = Some \<lparr>pipe_in = 4, pipe_out = 5, epfd = 6, threads = []\<rparr>"
  "i_messages (snd (boot sim 80 (7, [], []))) = Some []"
  by (simp_all add: boot_def run_simps cong: run_cong)

text \<open>
  When \<open>connect(ip,port,cb)\<close> returns a connection, it is a new object, not yet
  connected, with exactly the callbacks given and with the peer's address in network byte
  order; one message to create it has been queued behind those already there; the number
  of open sockets has gone up by one.
\<close>

theorem connect_creates:
  fixes s :: "('w, 'z) tcp_scheme"
  assumes "mr s = Some R" and "i_messages s = Some q"
    and "connect ext self ip port cb s = (Inr p, t)" and "p \<noteq> 0"
  shows "p = Suc (last_addr s)
    \<and> (\<exists>c. conn_heap t p = Some c \<and> conn_st c = Cs_wait4connect \<and> cbs c = cb
         \<and> conn_addr c = Some \<lparr>sin_addr = ip, sin_port = htons port\<rparr>)
    \<and> i_messages t = Some (q @ [\<lparr>im_code = P_CREATE_CONNECTION, im_ptr = Some p\<rparr>])
    \<and> sockets_counter t = sockets_counter s + 1"
  by (rule connected_conn [OF assms])

theorem connect_creates_witness:
  "\<exists>t. connect sim 1 0 80 demo_callbacks (snd (boot sim 80 (7, [], []))) = (Inr 2, t)
    \<and> (\<exists>c. conn_heap t 2 = Some c \<and> conn_addr c = Some \<lparr>sin_addr = 0, sin_port = htons 80\<rparr>)
    \<and> i_messages t = Some [\<lparr>im_code = P_CREATE_CONNECTION, im_ptr = Some 2\<rparr>]"
proof -
  obtain t where t: "connect sim 1 0 80 demo_callbacks (snd (boot sim 80 (7, [], []))) = (Inr 2, t)"
    using boot_connect by blast
  from connect_creates [OF boot_members t] t show ?thesis by auto
qed

subsection \<open>Waiting for events\<close>

text \<open>How often a signal interrupts the wait before it succeeds or fails otherwise.\<close>

fun interrupted :: "'w ext \<Rightarrow> fd \<Rightarrow> nat \<Rightarrow> 'w \<Rightarrow> bool" where
  "interrupted ext ep 0 w = (case ext (Epoll (Epoll_wait ep 128)) w of (r, w') \<Rightarrow>
     \<not> (rv r = -1 \<and> err r = EINTR))"
| "interrupted ext ep (Suc n) w = (case ext (Epoll (Epoll_wait ep 128)) w of (r, w') \<Rightarrow>
     rv r = -1 \<and> err r = EINTR \<and> interrupted ext ep n w')"

text \<open>
  C30: The loop at \<open>lb_ag\<close> ends: if a signal interrupts the wait \<open>n\<close> times in a row, any
  bound above \<open>n\<close> is enough for it to return or to throw \<open>epoll_wait\<close>'s error, and it calls
  \<open>epoll_wait\<close> \<open>n + 1\<close> times.
\<close>

theorem wait_events_ends:
  fixes s :: "('w, 'z) base_scheme"
  assumes "interrupted ext ep n (world s)" and "n < fuel"
  shows "(case wait_events ext ep fuel s of
      (Inl e, t) \<Rightarrow> (\<exists>m. e = Lib_exception ''epoll_wait'' m \<and> m \<noteq> EINTR)
        \<and> calls t = calls s @ replicate (Suc n) (Epoll (Epoll_wait ep 128))
    | (Inr evs, t) \<Rightarrow> calls t = calls s @ replicate (Suc n) (Epoll (Epoll_wait ep 128)))"
  using assms
proof (induction n arbitrary: fuel s)
  case 0
  then obtain f where "fuel = Suc f" by (cases fuel) auto
  with 0 show ?case
    by (auto simp: bnd_run call_run throw_def ret_def calls_def split: prod.splits)
next
  case (Suc n)
  then obtain f where f: "fuel = Suc f" "n < f" by (cases fuel) auto
  obtain r w where r: "ext (Epoll (Epoll_wait ep 128)) (world s) = (r, w)" by fastforce
  let ?t = "s\<lparr>world := w, trace := trace s @ [(Epoll (Epoll_wait ep 128), r)]\<rparr>"
  have i: "rv r = -1" "err r = EINTR" "interrupted ext ep n (world ?t)"
    using Suc.prems(1) r by auto
  have "wait_events ext ep fuel s = wait_events ext ep f ?t"
    using f i r by (simp add: bnd_run call_run)
  with Suc.IH [OF i(3) f(2)] show ?case
    by (auto simp: calls_def split: prod.splits sum.splits)
qed

fun eintr_world :: "nat ext" where
  "eintr_world (Epoll (Epoll_wait d n)) (Suc k) = ((plain_reply (-1))\<lparr>err := EINTR\<rparr>, k)"
| "eintr_world k w = (plain_reply 0, w)"

theorem wait_events_ends_witness:
  "interrupted eintr_world 6 2 (world (empty_base 2))
    \<and> (case wait_events eintr_world 6 5 (empty_base 2) of
        (Inl e, t) \<Rightarrow> False
      | (Inr evs, t) \<Rightarrow> calls t = replicate (Suc 2) (Epoll (Epoll_wait 6 128)))"
proof -
  have i: "interrupted eintr_world 6 2 (world (empty_base 2))"
    by (simp add: numeral_2_eq_2 empty_base_def plain_reply_def)
  have l: "2 < (5 :: nat)" by simp
  have "\<exists>evs. fst (wait_events eintr_world 6 5 (empty_base 2)) = Inr evs"
    by (simp add: eval_nat_numeral empty_base_def plain_reply_def bnd_run call_run ret_def)
  with wait_events_ends [OF i l] i show ?thesis
    by (auto simp: empty_base_def calls_def split: prod.splits sum.splits)
qed

definition event_info :: "epoll_event \<Rightarrow> interrupt_info" where
  "event_info ev = \<lparr>ii_code = ready_codes (ee_events ev), ii_conn = data_ptr (ee_data ev), sreq = 0\<rparr>"

lemma decode_events_fold:
  "(\<And>ev. ev \<in> set evs \<Longrightarrow> data_fd (ee_data ev) \<noteq> pipe_in R \<and> data_ptr (ee_data ev) \<noteq> 0
     \<and> conn_heap s (data_ptr (ee_data ev)) = Some (cn ev)) \<Longrightarrow>
   decode_events ext R evs m s =
     (Inr (fold (\<lambda>ev. map_insert (sock (cn ev)) (event_info ev)) evs m), s)"
proof (induction evs arbitrary: m)
  case (Cons ev evs)
  have "decode_event ext R ev s = (Inr (sock (cn ev), event_info ev), s)"
    using Cons.prems [of ev]
    by (simp add: decode_event_def bnd_run deref_def ret_def new_interrupt_info_def event_info_def)
  with Cons show ?case by (simp add: bnd_run)
qed (simp add: ret_def)

lemma ready_code_bits:
  "and (ready_codes e) FD_READ = 0 \<longleftrightarrow> and e EPOLLIN = 0"
  "and (ready_codes e) FD_WRITE = 0 \<longleftrightarrow> and e EPOLLOUT = 0"
  "and (ready_codes e) FD_CLOSE = 0 \<longleftrightarrow> and e EPOLLERR = 0"
  by (simp_all add: ready_codes_def fd_codes)

text \<open>
  C27: When \<open>epoll_wait\<close> reports ready connections, each on a socket of its own, then
  \<open>get_interrupt\<close> answers with a map that has, under the socket of each of them, that
  connection with the codes of its events: readable, writable and broken exactly when epoll
  said so; it makes no other call and changes no connection.
\<close>

theorem get_interrupt_reports:
  fixes s :: "('w, 'z) base_scheme"
  assumes "ext (Epoll (Epoll_wait (epfd R) 128)) (world s) = (r, w)"
    and "rv r = int (length (r_events r))"
    and "\<And>ev. ev \<in> set (r_events r) \<Longrightarrow> data_fd (ee_data ev) \<noteq> pipe_in R \<and> data_ptr (ee_data ev) \<noteq> 0
      \<and> conn_heap s (data_ptr (ee_data ev)) = Some (cn ev)"
    and "distinct (map (\<lambda>ev. sock (cn ev)) (r_events r))"
  shows "\<exists>m t. get_interrupt ext R (Suc fuel) [] s = (Inr (r_events r \<noteq> [], m), t)
    \<and> calls t = calls s @ [Epoll (Epoll_wait (epfd R) 128)] \<and> conn_heap t = conn_heap s
    \<and> set (map_keys m) = (\<lambda>ev. sock (cn ev)) ` set (r_events r)
    \<and> (\<forall>ev \<in> set (r_events r). \<exists>info. map_find (sock (cn ev)) m = Some info
        \<and> ii_conn info = data_ptr (ee_data ev)
        \<and> (and (ii_code info) FD_READ \<noteq> 0 \<longleftrightarrow> and (ee_events ev) EPOLLIN \<noteq> 0)
        \<and> (and (ii_code info) FD_WRITE \<noteq> 0 \<longleftrightarrow> and (ee_events ev) EPOLLOUT \<noteq> 0)
        \<and> (and (ii_code info) FD_CLOSE \<noteq> 0 \<longleftrightarrow> and (ee_events ev) EPOLLERR \<noteq> 0))"
proof -
  let ?t = "s\<lparr>world := w, trace := trace s @ [(Epoll (Epoll_wait (epfd R) 128), r)]\<rparr>"
  let ?m = "fold (\<lambda>ev. map_insert (sock (cn ev)) (event_info ev)) (r_events r) []"
  have d: "decode_events ext R (r_events r) [] ?t = (Inr ?m, ?t)"
    by (rule decode_events_fold) (use assms(3) in simp)
  have "get_interrupt ext R (Suc fuel) [] s = (Inr (r_events r \<noteq> [], ?m), ?t)"
    using assms(1,2) d by (simp add: get_interrupt_def bnd_run call_run ret_def)
  moreover have "calls ?t = calls s @ [Epoll (Epoll_wait (epfd R) 128)]" by (simp add: calls_def)
  moreover have keys: "set (map_keys (fold (\<lambda>ev. map_insert (sock (cn ev)) (event_info ev)) evs m)) =
      set (map_keys m) \<union> (\<lambda>ev. sock (cn ev)) ` set evs" for evs m
    by (induction evs arbitrary: m) auto
  have "set (map_keys ?m) = (\<lambda>ev. sock (cn ev)) ` set (r_events r)"
    using keys [of "r_events r" "[]"] by simp
  moreover have "map_find (sock (cn ev)) ?m = Some (event_info ev)" if "ev \<in> set (r_events r)" for ev
    using assoc.find_insert_all [of "[]" "\<lambda>ev. sock (cn ev)" "r_events r" ev event_info] assms(4) that
    by simp
  ultimately show ?thesis
    by (intro exI [of _ ?m] exI [of _ ?t]) (auto simp: event_info_def ready_code_bits)
qed

theorem get_interrupt_reports_witness:
  "\<exists>m t. get_interrupt sim \<lparr>pipe_in = 4, pipe_out = 5, epfd = 6, threads = []\<rparr> (Suc 0) []
      (stream_state\<lparr>world := (9, [[ready_event 2 EPOLLIN]], [])\<rparr>) = (Inr (True, m), t)
    \<and> (\<exists>info. map_find 8 m = Some info \<and> ii_conn info = 2
        \<and> and (ii_code info) FD_READ \<noteq> 0 \<and> and (ii_code info) FD_WRITE = 0)"
proof -
  let ?r = "(plain_reply 1)\<lparr>r_events := [ready_event 2 EPOLLIN]\<rparr>"
  let ?s = "stream_state\<lparr>world := (9, [[ready_event 2 EPOLLIN]], [])\<rparr>"
  let ?R = "\<lparr>pipe_in = 4, pipe_out = 5, epfd = 6, threads = []\<rparr>"
  have e: "sim (Epoll (Epoll_wait (epfd ?R) 128)) (world ?s) = (?r, (9, [], []))" by simp
  have "rv ?r = int (length (r_events ?r))" by (simp add: plain_reply_def)
  moreover have "data_fd (ee_data ev) \<noteq> pipe_in ?R \<and> data_ptr (ee_data ev) \<noteq> 0
      \<and> conn_heap ?s (data_ptr (ee_data ev)) = Some stream_conn" if "ev \<in> set (r_events ?r)" for ev
    using that by (simp add: ready_event_def data_fd_def data_ptr_def data_of_ptr_def stream_defs)
  moreover have "distinct (map (\<lambda>ev. sock stream_conn) (r_events ?r))" by simp
  ultimately obtain m t where
    "get_interrupt sim ?R (Suc 0) [] ?s = (Inr (r_events ?r \<noteq> [], m), t)"
    "\<forall>ev \<in> set (r_events ?r). \<exists>info. map_find (sock stream_conn) m = Some info
        \<and> ii_conn info = data_ptr (ee_data ev)
        \<and> (and (ii_code info) FD_READ \<noteq> 0 \<longleftrightarrow> and (ee_events ev) EPOLLIN \<noteq> 0)
        \<and> (and (ii_code info) FD_WRITE \<noteq> 0 \<longleftrightarrow> and (ee_events ev) EPOLLOUT \<noteq> 0)
        \<and> (and (ii_code info) FD_CLOSE \<noteq> 0 \<longleftrightarrow> and (ee_events ev) EPOLLERR \<noteq> 0)"
    using get_interrupt_reports [where ext = sim and R = ?R and s = ?s and r = ?r
        and w = "(9, [], [])" and cn = "\<lambda>_. stream_conn" and fuel = 0] e by blast
  then show ?thesis
    by (auto simp: ready_event_def epoll_defs data_ptr_def data_of_ptr_def stream_conn_def new_conn_struct_def)
qed

text \<open>
  A wake-up handles exactly one message, the oldest one; the others stay queued in
  their order.  Without a message it changes nothing.
\<close>

theorem wakeup_takes_first:
  "handle_wakeup ext (s\<lparr>i_messages := Some []\<rparr>) = (Inr False, s\<lparr>i_messages := Some []\<rparr>)
   \<and> handle_wakeup ext (s\<lparr>i_messages := Some (im # q)\<rparr>) =
       handle_message ext im (s\<lparr>i_messages := Some q\<rparr>)"
  by (simp add: handle_wakeup_def bnd_run gets_def ret_def andthen_run modify_def)

end
