(* ===== verification/Tcp_Findings.thy ===== *)
theory Tcp_Findings
  imports Tcp_Handlers
begin

section \<open>Where the Linux dispatcher departs from its interface's documentation\<close>

text \<open>
  Behaviours of the code that \<open>itcp_dispatcher.h\<close> rules out, or that end the process,
  either for every state they can arise in or as a concrete run of the system.
\<close>

text \<open>
  A queued request whose connection was closed meanwhile is taken out of the queue by
  the next pass without a call of its callback, without a release, without any call at all.
\<close>

theorem closed_request_dropped:
  fixes s :: "('w, 'z) tcp_scheme"
  assumes "sr \<noteq> 0" and "send_heap s sr = Some q" and "iov_conn (send_iov q) \<noteq> 0"
    and "conn_heap s (iov_conn (send_iov q)) = Some c" and "conn_st c = Cs_closed"
  shows "sends_pass ext budget (sr # srs) s = (Inr srs, s)"
  using assms by (simp add: do_send_def run_basic cong: run_cong)

theorem closed_request_dropped_witness:
  "sends_pass quiet_world None [4, 6] (open_state\<lparr>conn_heap := [2 \<mapsto> stream_conn\<lparr>conn_st := Cs_closed\<rparr>],
      send_heap := [4 \<mapsto> stream_req]\<rparr>) =
    (Inr [6], open_state\<lparr>conn_heap := [2 \<mapsto> stream_conn\<lparr>conn_st := Cs_closed\<rparr>],
      send_heap := [4 \<mapsto> stream_req]\<rparr>)"
  by (rule closed_request_dropped [where q = stream_req and c = "stream_conn\<lparr>conn_st := Cs_closed\<rparr>"])
    (simp_all add: stream_req_def)

text \<open>Send and close, both handled, then a pass over the queues.\<close>

definition lost_run :: "thread \<times> sim_world tcp" where
  "lost_run = play sim (\<lambda>_. 0) 1
     [Api_call (Api_connect 0 80 demo_callbacks), Thread_step, Thread_step, Thread_step,
      Thread_step, Thread_step, Thread_step,
      Api_call (Api_send 2 [1, 2, 3] (Some 14)), Api_call (Api_close_conn 2),
      Thread_step, Thread_step, Thread_step, Thread_step, Thread_step, Thread_step,
      Thread_step, Thread_step]
     (boot sim 80 (7, [[wake_event], [ready_event 2 EPOLLOUT], [wake_event], [wake_event]], []))"

text \<open>
  C32: There is a run in which a send request is queued, its connection is closed and
  \<open>closed\<close> is called, no queue holds the request any more, and its callback was never
  called: the interface promises that it is called in any case, before \<open>closed\<close>.
\<close>

theorem sent_callback_lost:
  "reachable sim (\<lambda>_. 0) lost_run \<and> fst lost_run = Waiting
    \<and> User (Cb_closed 2 12) \<in> set (calls (snd lost_run))
    \<and> outgoings (snd lost_run) = [(2, [])] \<and> i_messages (snd lost_run) = Some []
    \<and> (\<exists>q. send_heap (snd lost_run) 4 = Some q \<and> sent_cb q = Some 14)
    \<and> filter (sent_to 4) (calls (snd lost_run)) = []"
proof -
  have "reachable sim (\<lambda>_. 0) lost_run"
    unfolding lost_run_def by (intro play_reachable boot_sim_reachable)
  moreover have "fst lost_run = Waiting \<and> User (Cb_closed 2 12) \<in> set (calls (snd lost_run))
    \<and> outgoings (snd lost_run) = [(2, [])] \<and> i_messages (snd lost_run) = Some []
    \<and> (\<exists>q. send_heap (snd lost_run) 4 = Some q \<and> sent_cb q = Some 14)
    \<and> filter (sent_to 4) (calls (snd lost_run)) = []"
    by (simp add: lost_run_def boot_def calls_def run_simps cong: run_cong)
  ultimately show ?thesis by blast
qed

text \<open>
  A request of no bytes is never done: whatever the budgets and however often it is
  attempted, it stays in the queue, its callback is not called and nothing else is.
\<close>

theorem empty_request_never_done:
  fixes s :: "('w, 'z) tcp_scheme"
  assumes "sr \<noteq> 0" and "send_heap s sr = Some q" and "iov_conn (send_iov q) \<noteq> 0"
    and "conn_heap s (iov_conn (send_iov q)) = Some c" and "conn_st c \<noteq> Cs_closed"
    and "total_bytes q = 0" and "sent_bytes q = 0"
  shows "attempts ext sr budgets s = (Inr False, s)"
proof (induction budgets)
  case (Cons g gs)
  have "send_size q g = 0" using assms(6,7) by (simp add: send_size_def split: option.split)
  from do_send_nothing [OF assms(1-5) this] Cons show ?case by (simp add: bnd_run)
qed (simp add: ret_def)

theorem empty_request_never_done_witness:
  "attempts quiet_world 4 [None, Some 7, None] (open_state\<lparr>send_heap := [4 \<mapsto>
      stream_req\<lparr>total_bytes := 0, send_data := []\<rparr>]\<rparr>) =
    (Inr False, open_state\<lparr>send_heap := [4 \<mapsto> stream_req\<lparr>total_bytes := 0, send_data := []\<rparr>]\<rparr>)"
  by (rule empty_request_never_done [where q = "stream_req\<lparr>total_bytes := 0, send_data := []\<rparr>"
      and c = "(new_conn_struct 8 demo_callbacks)\<lparr>conn_recv := 3, conn_st := Cs_connected\<rparr>"])
    (simp_all add: stream_req_def open_state_def)

text \<open>Two requests of one connection, four and two bytes, and a kernel that takes two at a time.\<close>

definition mixed_run :: "thread \<times> sim_world tcp" where
  "mixed_run = play sim (\<lambda>_. 0) 1
     [Api_call (Api_connect 0 80 demo_callbacks), Thread_step, Thread_step, Thread_step,
      Thread_step, Thread_step, Thread_step,
      Api_call (Api_send 2 [1, 2, 3, 4] (Some 14)), Api_call (Api_send 2 [8, 9] (Some 15)),
      Thread_step, Thread_step, Thread_step, Thread_step, Thread_step, Thread_step,
      Thread_step, Thread_step, Thread_step, Thread_step]
     (boot sim 80 (7, [[wake_event], [ready_event 2 EPOLLOUT], [wake_event], [wake_event]], []))"

text \<open>
  C33: There is a run in which the bytes of two requests of one connection are interleaved
  on its socket, and both requests report success: the interface promises that data of
  multiple sends is not interleaved.
\<close>

theorem requests_interleave:
  "reachable sim (\<lambda>_. 0) mixed_run
    \<and> accepted_bytes 8 (trace (snd mixed_run)) = [1, 2, 8, 9, 3, 4]
    \<and> filter (sent_to 4) (calls (snd mixed_run)) = [User (Cb_sent 4 14 True)]
    \<and> filter (sent_to 5) (calls (snd mixed_run)) = [User (Cb_sent 5 15 True)]"
proof -
  have "reachable sim (\<lambda>_. 0) mixed_run"
    unfolding mixed_run_def by (intro play_reachable boot_sim_reachable)
  moreover have "accepted_bytes 8 (trace (snd mixed_run)) = [1, 2, 8, 9, 3, 4]
    \<and> filter (sent_to 4) (calls (snd mixed_run)) = [User (Cb_sent 4 14 True)]
    \<and> filter (sent_to 5) (calls (snd mixed_run)) = [User (Cb_sent 5 15 True)]"
    by (simp add: mixed_run_def boot_def calls_def accepted_bytes_def run_simps cong: run_cong)
  ultimately show ?thesis by blast
qed

text \<open>A connection made by \<open>make_conn\<close>, connected, closed, and the dispatcher deleted.\<close>

definition counter_run :: "thread \<times> sim_world tcp" where
  "counter_run = play sim (\<lambda>_. 0) 1
     [Api_call Api_make_conn, Api_call (Api_connect_conn 2 0 80 demo_callbacks),
      Thread_step, Thread_step, Thread_step, Thread_step, Thread_step, Thread_step,
      Api_call (Api_close_conn 2), Thread_step, Thread_step, Thread_step,
      Api_call Api_delete, Thread_step, Thread_step, Api_call Api_delete_finish]
     (boot sim 80 (7, [[wake_event], [ready_event 2 EPOLLOUT], [wake_event], [wake_event]], []))"

text \<open>
  There is a run that uses the interface as documented (\<open>make_conn\<close>, one \<open>connect\<close>,
  \<open>close_conn\<close>, delete) and ends in the failed assertion of the destructor: \<open>make_conn\<close>
  does not count the socket that \<open>close_connection\<close> then subtracts, so the counter is
  \<open>2^32 - 1\<close>.
\<close>

theorem make_conn_not_counted:
  "reachable sim (\<lambda>_. 0) counter_run \<and> fst counter_run = Failed Assertion_failed
    \<and> sockets_counter (snd counter_run) = 2 ^ 32 - 1"
proof -
  have "reachable sim (\<lambda>_. 0) counter_run"
    unfolding counter_run_def by (intro play_reachable boot_sim_reachable)
  moreover have "fst counter_run = Failed Assertion_failed
    \<and> sockets_counter (snd counter_run) = 2 ^ 32 - 1"
    by (simp add: counter_run_def boot_def run_simps cong: run_cong)
  ultimately show ?thesis by blast
qed

text \<open>\<open>break_send\<close> while the thread is faster than the caller.\<close>

definition break_run :: "thread \<times> sim_world tcp" where
  "break_run = play sim (\<lambda>_. 0) 1
     [Api_call (Api_connect 0 80 demo_callbacks), Thread_step, Thread_step, Thread_step,
      Thread_step, Thread_step, Thread_step,
      Api_call (Api_send 2 [1, 2, 3] (Some 14)), Thread_step, Thread_step, Thread_step,
      Api_call (Api_break_send 4), Thread_step, Thread_step, Thread_step,
      Api_call (Api_break_send_init 4)]
     (boot sim 80 (7, [[wake_event], [ready_event 2 EPOLLOUT], [wake_event], [wake_event]], []))"


text \<open>
  A dispatcher made with port 0 has no reactor and no queue: its constructor makes no
  call and returns, and its destructor, like every function that queues a message,
  dereferences a null pointer.
\<close>

theorem port_zero_unusable:
  "\<exists>t. new_tcp_dispatcher ext j 0 cb s = (Inr (), t) \<and> calls t = calls s
    \<and> dtor_request ext self t = (Inl Null_deref, t)
    \<and> stop_accepting ext self t = (Inl Null_deref, t)"
  by (simp add: new_tcp_dispatcher_def dtor_request_def stop_accepting_def post_def
      with_messages_def run_basic calls_def)

text \<open>
  \<open>get_ip_port\<close> gives back the port in network byte order: after \<open>connect(ip,port,cb)\<close>
  it answers \<open>htons port\<close>, not \<open>port\<close>.
\<close>

theorem get_ip_port_swapped:
  fixes s :: "('w, 'z) tcp_scheme"
  assumes "mr s = Some R" and "i_messages s = Some q"
    and "connect ext self ip port cb s = (Inr p, t)" and "p \<noteq> 0"
  shows "get_ip_port p t = (Inr (Some (ip, htons port)), t)"
proof -
  obtain c where "conn_heap t p = Some c" "conn_addr c = Some \<lparr>sin_addr = ip, sin_port = htons port\<rparr>"
    using connected_conn [OF assms] by blast
  with assms(4) show ?thesis by (simp add: get_ip_port_def run_basic)
qed

theorem get_ip_port_swapped_witness:
  "\<exists>t. connect sim 1 0 80 demo_callbacks (snd (boot sim 80 (7, [], []))) = (Inr 2, t)
    \<and> get_ip_port 2 t = (Inr (Some (0, 20480)), t)"
proof -
  obtain t where t: "connect sim 1 0 80 demo_callbacks (snd (boot sim 80 (7, [], []))) = (Inr 2, t)"
    using boot_connect by blast
  have "get_ip_port 2 t = (Inr (Some (0, htons 80)), t)"
    by (rule get_ip_port_swapped [OF boot_members t]) simp
  moreover have "htons 80 = 20480" by (simp add: htons_def)
  ultimately show ?thesis using t by simp
qed

subsection \<open>stop_accepting\<close>

text \<open>A world in which one connection waits to be accepted.\<close>

fun accept_sim :: "(sim_world \<times> bool) ext" where
  "accept_sim (Os (Accept l)) (w, True) = (plain_reply 9, w, False)"
| "accept_sim c (w, b) = (case sim c w of (r, w') \<Rightarrow> (r, w', b))"

definition accepted_run :: "thread \<times> (sim_world \<times> bool) tcp" where
  "accepted_run = play accept_sim (\<lambda>_. 0) (Suc (Suc 0))
     [Thread_step, Api_call Api_stop_accepting, Thread_step]
     (boot accept_sim 80 ((7, [[ready_event 1 EPOLLIN]], []), True))"

lemma accepted_run_ends:
  "fst accepted_run = Handling []"
  "i_messages (snd accepted_run) = Some [\<lparr>im_code = P_STOP_ACCEPTING, im_ptr = None\<rparr>]"
  "filter conn_call (calls (snd accepted_run)) = [User (Cb_accepted 2 9)]"
  by (simp_all add: accepted_run_def boot_def calls_def run_simps cong: run_cong)

text \<open>
  There is a run in which \<open>stop_accepting\<close> returns and the accepted callback is called
  afterwards, by the thread that handles an event it had waited for before.
\<close>

theorem accepted_after_stop:
  "reachable accept_sim (\<lambda>_. 0) accepted_run \<and> fst accepted_run = Handling []
    \<and> i_messages (snd accepted_run) = Some [\<lparr>im_code = P_STOP_ACCEPTING, im_ptr = None\<rparr>]
    \<and> filter conn_call (calls (snd accepted_run)) = [User (Cb_accepted 2 9)]"
proof -
  have "reachable accept_sim (\<lambda>_. 0) accepted_run"
    unfolding accepted_run_def
    by (intro play_reachable boot_reachable) (simp add: run_simps cong: run_cong)
  with accepted_run_ends show ?thesis by blast
qed

end
