(* ===== verification/Tcp_Wakeups.thy ===== *)
theory Tcp_Wakeups
  imports Tcp_Demo
begin

section \<open>No message of the Linux dispatcher is left without a wake-up\<close>

text \<open>
  A function of the interface queues a message and writes an \<open>int\<close> to the pipe; the thread
  reads one \<open>int\<close> per wake-up and then takes one message.  So a message could only be
  forgotten if the pipe ran empty before the queue.  This theory shows that it never does.
\<close>

subsection \<open>How many ints are in the pipe\<close>

text \<open>A write adds one; a read that succeeds takes one, if there is one.\<close>

fun level_step :: "nat \<Rightarrow> event \<Rightarrow> nat" where
  "level_step n (Os (Write d i), r) = n + 1"
| "level_step n (Os (Read d), r) = (if 0 < rv r then n - 1 else n)"
| "level_step n e = n"

definition pipe_level :: "('w, 'z) outside_scheme \<Rightarrow> nat" where
  "pipe_level s = foldl level_step 0 (trace s)"

lemma pipe_level_call [simp]:
  "pipe_level (s\<lparr>world := w, trace := trace s @ [e]\<rparr>) = level_step (pipe_level s) e"
  by (simp add: pipe_level_def)

lemma level_step_more: "(\<And>d. c \<noteq> Os (Read d)) \<Longrightarrow> n \<le> level_step n (c, r)"
  by (induction n "(c, r)" rule: level_step.induct) auto

definition queued :: "('w, 'z) tcp_scheme \<Rightarrow> nat" where
  "queued s = (case i_messages s of None \<Rightarrow> 0 | Some q \<Rightarrow> length q)"

text \<open>The reactor's list of threads that need not wake it up stays empty.\<close>

definition all_wake :: "('w, 'z) tcp_scheme \<Rightarrow> bool" where
  "all_wake s \<longleftrightarrow> (\<forall>R. mr s = Some R \<longrightarrow> threads R = [])"

text \<open>
  What the functions do that do not wait: they keep the reactor or give it up, and the
  messages they add are no more than the wake-ups they add.
\<close>

definition posted :: "('w, 'z) tcp_scheme \<Rightarrow> ('w, 'z) tcp_scheme \<Rightarrow> bool" where
  "posted s t \<longleftrightarrow> (all_wake s \<longrightarrow> all_wake t \<and>
     (mr t = None \<or> mr t = mr s \<and> pipe_level s + queued t \<le> pipe_level t + queued s))"

lemma posted_same:
  "mr t = mr s \<Longrightarrow> i_messages t = i_messages s \<Longrightarrow> trace t = trace s \<Longrightarrow> posted s t"
  by (simp add: posted_def all_wake_def pipe_level_def queued_def)

lemma posted_call: "(\<And>d. c \<noteq> Os (Read d)) \<Longrightarrow> posted s (s\<lparr>world := w, trace := trace s @ [(c, r)]\<rparr>)"
  using level_step_more [of c "pipe_level s" r] by (auto simp: posted_def all_wake_def queued_def)

lemma posted_trans: "posted s t \<Longrightarrow> posted t u \<Longrightarrow> posted s u"
  by (auto simp: posted_def)

interpretation poc: conn_frame "posted :: ('w, 'z) tcp_scheme \<Rightarrow> ('w, 'z) tcp_scheme \<Rightarrow> bool"
  by unfold_locales (erule (1) posted_trans | rule posted_call; simp | rule posted_same; simp)+

interpretation pos: send_frame "posted :: ('w, 'z) tcp_scheme \<Rightarrow> ('w, 'z) tcp_scheme \<Rightarrow> bool"
  by unfold_locales (rule posted_call; simp | rule posted_same; simp)+

text \<open>The message and the wake-up together.\<close>

lemma posted_push:
  assumes "\<And>q. length (f q) = Suc (length q)"
  shows "poc.keeps (andthen (with_messages f) (wake ext self))"
proof (rule poc.keepsI)
  fix s :: "('a, 'b) tcp_scheme"
  show "wp (andthen (with_messages f) (wake ext self)) (\<lambda>_. posted s) (\<lambda>_. posted s) s"
    using assms poc.refl [of s]
    by (auto simp: with_messages_def wake_def with_mr_def reactor_stop_def wp_simps posted_def all_wake_def
        queued_def pipe_level_def split: option.split)
qed

lemma posted_posts: "poc.keeps (post_ptr ext self k p)" "poc.keeps (post ext self k)"
  unfolding post_ptr_def post_def by (auto intro!: posted_push simp: push_ptr_def push_code_def)

lemma posted_limiter_update: "poc.keeps (limiter_update f)"
  unfolding limiter_update_def by (intro poc.keeps_modify posted_same) simp_all

lemma posted_limiter: "poc.keeps (limiter_insert ext p n)" "poc.keeps (limiter_recalc ext ub)"
  unfolding limiter_insert_def limiter_recalc_def
  by (intro poc.keeps_basic posted_limiter_update; simp)+

lemma posted_queue_send: "poc.keeps (queue_send sr)"
  unfolding queue_send_def Let_def by (intro poc.keeps_basic poc.keeps_modify posted_same) simp_all

lemma posted_dtor_finish: "poc.keeps (dtor_finish ext)"
proof -
  have "poc.keeps (modify (\<lambda>s. s\<lparr>mr := None\<rparr>))"
    by (rule poc.keeps_modify) (simp add: posted_def all_wake_def)
  then show ?thesis
    unfolding dtor_finish_def assertion_def
    by (intro poc.keeps_basic poc.keeps_reactor) simp_all
qed

interpretation po: tcp_message_frame "posted :: ('w, 'z) tcp_scheme \<Rightarrow> ('w, 'z) tcp_scheme \<Rightarrow> bool"
  by unfold_locales ((rule posted_posts posted_limiter_update posted_limiter posted_queue_send
      posted_dtor_finish | rule posted_same; simp | rule poc.keeps_modify, rule posted_same; simp)+)

lemma posted_api: "poc.keeps (run_api ext self a)"
proof (cases a)
qed (auto simp: discard_def release_def addref_def release_send_def stop_accepting_def
    set_bandwidth_def dtor_request_def intro!: poc.keeps_basic po.keeps_interface po.keeps_sending_interface
    poc.keeps_objects po.keeps_connect_conn po.keeps_post po.keeps_set_limit po.keeps_dtor_finish)

subsection \<open>Waiting\<close>

text \<open>
  What is assumed of the outside world: a wait reports the pipe at most once, and a read
  from the pipe finds what is written to it, which is 0 only.
\<close>

definition read_int :: "reply \<Rightarrow> int" where
  "read_int r = (if rv r \<le> 0 then 0 else int_of_bytes (take (nat (rv r)) (r_bytes r)))"

definition pipe_events :: "fd \<Rightarrow> epoll_event list \<Rightarrow> nat" where
  "pipe_events d evs = length (filter (\<lambda>e. data_fd (ee_data e) = d) evs)"

definition honest_pipe :: "'w ext \<Rightarrow> fd \<Rightarrow> bool" where
  "honest_pipe ext d \<longleftrightarrow> (\<forall>w. read_int (fst (ext (Os (Read d)) w)) = 0) \<and>
     (\<forall>w ep n. pipe_events d (r_events (fst (ext (Epoll (Epoll_wait ep n)) w))) \<le> 1)"

definition wakeups_in :: "interrupt \<Rightarrow> nat" where
  "wakeups_in es = length (filter (\<lambda>e. fst e = 0) es)"

lemma wakeups_in_simps [simp]:
  "wakeups_in [] = 0" "wakeups_in (e # es) = (if fst e = 0 then Suc (wakeups_in es) else wakeups_in es)"
  by (simp_all add: wakeups_in_def)

lemma wakeups_in_insert: "wakeups_in es \<le> wakeups_in (map_insert k i es)"
    "k = 0 \<Longrightarrow> 0 < wakeups_in (map_insert k i es)"
  by (induction k i es rule: map_insert.induct) auto

text \<open>A wait keeps the members, and takes from the pipe at most what it will handle.\<close>

definition waited :: "('w, 'z) tcp_scheme \<Rightarrow> nat \<Rightarrow> ('w, 'z) tcp_scheme \<Rightarrow> bool" where
  "waited s n t \<longleftrightarrow> mr t = mr s \<and> i_messages t = i_messages s \<and> pipe_level s \<le> pipe_level t + n"

lemma decode_event_level:
  fixes s :: "('w, 'z) tcp_scheme"
  assumes "\<forall>w. read_int (fst (ext (Os (Read (pipe_in R))) w)) = 0"
  shows "wp (decode_event ext R ev) (\<lambda>(k, i) t. waited s (pipe_events (pipe_in R) [ev]) t \<and>
     (pipe_events (pipe_in R) [ev] = 1 \<longrightarrow> k = 0)) (\<lambda>_ _. True) s"
  using assms [unfolded read_int_def]
  by (auto simp: decode_event_def wp_simps waited_def pipe_events_def split: option.split)

lemma decode_events_level:
  fixes s :: "('w, 'z) tcp_scheme"
  assumes "\<forall>w. read_int (fst (ext (Os (Read (pipe_in R))) w)) = 0"
    and "pipe_events (pipe_in R) evs \<le> 1"
  shows "wp (decode_events ext R evs result) (\<lambda>res t. waited s (pipe_events (pipe_in R) evs) t \<and>
     pipe_events (pipe_in R) evs \<le> wakeups_in res \<and> wakeups_in result \<le> wakeups_in res) (\<lambda>_ _. True) s"
  using assms(2)
proof (induction evs arbitrary: result s)
  case Nil
  then show ?case by (simp add: wp_simps waited_def pipe_events_def)
next
  case (Cons ev evs)
  let ?P = "pipe_events (pipe_in R)"
  have split: "?P (ev # evs) = ?P [ev] + ?P evs" by (simp add: pipe_events_def)
  have "wp (decode_event ext R ev) (\<lambda>(k, i) t. wp (decode_events ext R evs (map_insert k i result))
      (\<lambda>res t. waited s (?P (ev # evs)) t \<and> ?P (ev # evs) \<le> wakeups_in res \<and>
        wakeups_in result \<le> wakeups_in res) (\<lambda>_ _. True) t) (\<lambda>_ _. True) s"
  proof (rule wp_mono [OF decode_event_level [where ext = ext and R = R, OF assms(1)]])
    fix x :: "fd \<times> interrupt_info" and t :: "('w, 'z) tcp_scheme"
    assume x: "(\<lambda>(k, i) t. waited s (?P [ev]) t \<and> (?P [ev] = 1 \<longrightarrow> k = 0)) x t"
    obtain k i where ki: "x = (k, i)" by (cases x)
    have "?P [ev] = 1 \<and> ?P evs = 0 \<or> ?P [ev] = 0" "?P evs \<le> 1" using Cons.prems split by auto
    then show "(\<lambda>(k, i) t. wp (decode_events ext R evs (map_insert k i result))
      (\<lambda>res t. waited s (?P (ev # evs)) t \<and> ?P (ev # evs) \<le> wakeups_in res \<and>
        wakeups_in result \<le> wakeups_in res) (\<lambda>_ _. True) t) x t"
      using x ki split wakeups_in_insert [where es = result and k = k and i = i]
      by (auto simp: waited_def intro!: wp_mono [OF Cons.IH])
  qed simp
  then show ?case by (simp add: wp_bnd case_prod_beta')
qed

lemma pipe_events_take: "pipe_events d (take n evs) \<le> pipe_events d evs"
  unfolding pipe_events_def
  by (metis append_take_drop_id filter_append le_add1 length_append)

lemma wait_events_level:
  fixes s :: "('w, 'z) tcp_scheme"
  assumes "\<forall>w n. pipe_events d (r_events (fst (ext (Epoll (Epoll_wait ep n)) w))) \<le> 1"
  shows "wp (wait_events ext ep fuel) (\<lambda>evs t. waited s 0 t \<and> pipe_events d evs \<le> 1) (\<lambda>_ _. True) s"
proof (induction fuel arbitrary: s)
  case (Suc fuel)
  let ?c = "Epoll (Epoll_wait ep 128)"
  let ?t = "s\<lparr>world := snd (ext ?c (world s)), trace := trace s @ [(?c, fst (ext ?c (world s)))]\<rparr>"
  have "waited ?t 0 u \<Longrightarrow> waited s 0 u" for u by (simp add: waited_def)
  with Suc [of ?t]
  have "wp (wait_events ext ep fuel) (\<lambda>evs t. waited s 0 t \<and> pipe_events d evs \<le> 1) (\<lambda>_ _. True) ?t"
    by (auto elim!: wp_mono)
  then show ?case using assms by (auto simp: wp_simps waited_def intro: order_trans [OF pipe_events_take])
qed (simp add: wp_simps)

lemma wait_interrupt_level:
  assumes "mr s = Some R" and "honest_pipe ext (pipe_in R)"
  shows "wp (wait_interrupt ext fuel) (\<lambda>result t. waited s (wakeups_in result) t) (\<lambda>_ _. True) s"
proof -
  have "wp (wait_events ext (epfd R) fuel) (\<lambda>evs. wp (decode_events ext R evs [])
      (\<lambda>result t. waited s (wakeups_in result) t) (\<lambda>_ _. True)) (\<lambda>_ _. True) s"
  proof (rule wp_mono [OF wait_events_level [where d = "pipe_in R"]])
    fix evs t assume t: "waited s 0 t \<and> pipe_events (pipe_in R) evs \<le> 1"
    show "wp (decode_events ext R evs []) (\<lambda>result t. waited s (wakeups_in result) t) (\<lambda>_ _. True) t"
      by (rule wp_mono [OF decode_events_level [where ext = ext and R = R]])
        (use t assms(2) in \<open>auto simp: honest_pipe_def waited_def\<close>)
  qed (use assms(2) in \<open>auto simp: honest_pipe_def\<close>)
  then show ?thesis
    using assms(1)
    by (simp add: wait_interrupt_def with_mr_def get_interrupt_def wp_simps wp_eta case_prod_beta)
qed

subsection \<open>The invariant\<close>

fun pending :: "thread \<Rightarrow> nat" where
  "pending (Handling es) = wakeups_in es"
| "pending _ = 0"

definition woken_up :: "'w ext \<Rightarrow> thread \<times> 'w tcp \<Rightarrow> bool" where
  "woken_up ext c \<longleftrightarrow> (case c of (th, s) \<Rightarrow> (\<exists>e. th = Failed e) \<or> th = Ended \<or> all_wake s \<and>
     (\<forall>R. mr s = Some R \<longrightarrow> honest_pipe ext (pipe_in R) \<longrightarrow> queued s \<le> pipe_level s + pending th))"

lemma woken_posted:
  assumes "posted s t" and "woken_up ext (th, s)" and "\<And>e. th \<noteq> Failed e" and "th \<noteq> Ended" and "pending th \<le> pending th'"
  shows "woken_up ext (th', t)"
  using assms unfolding woken_up_def posted_def by fastforce

lemma handle_wakeup_posts:
  "posted (s\<lparr>i_messages := map_option tl (i_messages s)\<rparr>) (snd (handle_wakeup ext s))"
proof (cases "i_messages s")
  case None
  then show ?thesis by (simp add: handle_wakeup_def bnd_def gets_def throw_def posted_same)
next
  case (Some q)
  show ?thesis
  proof (cases q)
    case Nil
    with Some show ?thesis by (simp add: handle_wakeup_def bnd_def gets_def ret_def posted_same)
  next
    case (Cons im q')
    with Some show ?thesis
      using poc.keepsD [OF po.keeps_handle_message, of "s\<lparr>i_messages := Some q'\<rparr>" ext im]
      by (simp add: handle_wakeup_def bnd_def gets_def andthen_def modify_def)
  qed
qed

lemma woken_take:
  assumes "woken_up ext (Handling ((0, i) # rest), s)"
  shows "woken_up ext (Handling rest, s\<lparr>i_messages := map_option tl (i_messages s)\<rparr>)"
  using assms by (auto simp: woken_up_def all_wake_def queued_def pipe_level_def split: option.splits)

interpretation same_reactor: reading_frame "\<lambda>s t :: ('w, 'z) tcp_scheme. mr t = mr s"
  by unfold_locales simp_all

lemma wait_interrupt_reactor: "mr (snd (wait_interrupt ext fuel s)) = mr s"
proof -
  have "same_reactor.keeps (wait_interrupt ext fuel)"
    unfolding wait_interrupt_def with_mr_def
    by (intro same_reactor.keeps_basic same_reactor.keeps_get_interrupt)
  then show ?thesis by (rule same_reactor.keepsD)
qed

lemma woken_waiting:
  assumes "woken_up ext (Waiting, s)"
  shows "woken_up ext (thread_step ext ub fuel (Waiting, s))"
proof (cases "wait_interrupt ext fuel s")
  case (Pair r t)
  have m: "mr t = mr s" using wait_interrupt_reactor [of ext fuel s] Pair by simp
  show ?thesis
  proof (cases r)
    case (Inr result)
    have "queued t \<le> pipe_level t + wakeups_in result"
      if "mr s = Some R" and "honest_pipe ext (pipe_in R)" for R
      using wp_Inr [OF wait_interrupt_level [OF that] Pair [unfolded Inr]] that assms
      by (auto simp: woken_up_def waited_def queued_def)
    then show ?thesis using assms m Pair Inr by (auto simp: woken_up_def all_wake_def)
  qed (simp add: Pair woken_up_def)
qed

lemma woken_entry:
  assumes "woken_up ext (Handling (revent # rest), s)"
  shows "woken_up ext (Handling rest, snd (handle_entry ext fuel revent s))"
proof (cases "fst revent = 0")
  case True
  then obtain i where e: "revent = (0, i)" by (cases revent) simp
  show ?thesis
    using woken_posted [OF handle_wakeup_posts woken_take [OF assms [unfolded e]]] e
    by (simp add: handle_entry_def)
next
  case False
  then have "poc.keeps (handle_entry ext fuel revent)"
    unfolding handle_entry_def by (intro poc.keeps_basic po.keeps_handle_event) simp
  from woken_posted [OF poc.keepsD [OF this] assms] False show ?thesis by simp
qed

lemma woken_idle: "woken_up ext (Idle, s) \<Longrightarrow> woken_up ext (Waiting, snd (idle_pass ext ub s))"
  using woken_posted [OF poc.keepsD [OF po.keeps_idle_pass], of ext Idle s Waiting ext ub] by simp

lemma woken_exempt [simp]: "woken_up ext (Failed e, s)" "woken_up ext (Ended, s)"
  by (simp_all add: woken_up_def)

lemma woken_thread: "woken_up ext (th, s) \<Longrightarrow> woken_up ext (thread_step ext ub fuel (th, s))"
proof (cases th)
  case (Handling es)
  assume w: "woken_up ext (th, s)"
  show ?thesis
  proof (cases es)
    case Nil
    with Handling w show ?thesis by (simp add: woken_up_def)
  next
    case (Cons revent rest)
    with woken_entry [OF w [unfolded Handling Cons], of fuel] Handling show ?thesis
      by (auto split: prod.split sum.split)
  qed
next
  case Idle
  assume "woken_up ext (th, s)"
  with woken_idle [of ext s ub] Idle show ?thesis by (auto split: prod.split sum.split)
qed (use woken_waiting in auto)

lemma woken_api:
  assumes "woken_up ext (th, s)" shows "woken_up ext (api_step ext self a (th, s))"
proof (cases "th = Ended \<or> (\<exists>e. th = Failed e)")
  case False
  then have "woken_up ext (th, snd (run_api ext self a s))"
    by (intro woken_posted [OF poc.keepsD [OF posted_api] assms]) auto
  with False show ?thesis by (cases th) (auto split: prod.split sum.split)
qed (auto split: prod.split sum.split)

text \<open>The constructor starts with an empty queue and a reactor of its own.\<close>

definition fresh_start :: "('w, 'z) tcp_scheme \<Rightarrow> bool" where
  "fresh_start s \<longleftrightarrow> all_wake s \<and> queued s = 0"

lemma start_listening_fresh:
  assumes "fresh_start s"
  shows "wp (start_listening ext port) (\<lambda>_. fresh_start) (\<lambda>_ _. True) s"
  using assms
  by (auto simp: start_listening_def new_linux_reactor_def add_conn_def wp_simps fresh_start_def
      all_wake_def queued_def split: option.split)

lemma new_dispatcher_fresh:
  "wp (new_tcp_dispatcher ext j port cb) (\<lambda>_. fresh_start) (\<lambda>_ _. True) s"
  unfolding new_tcp_dispatcher_def wp_andthen wp_modify wp_whenever wp_try_catch
  by (auto intro!: wp_mono [OF start_listening_fresh] simp: wp_simps wp_throw_eta fresh_start_def
      all_wake_def queued_def delete_linux_reactor_def split: option.split)

lemma woken_start: "initial ext c \<Longrightarrow> woken_up ext c"
proof -
  assume "initial ext c"
  then obtain w j port cb t where n: "new_tcp_dispatcher ext j port cb (empty_base w) = (Inr (), t)"
    "c = (Waiting, t)" by (auto simp: initial_def)
  from wp_Inr [OF new_dispatcher_fresh n(1)] n(2) show ?thesis
    by (auto simp: woken_up_def fresh_start_def)
qed

lemma reachable_woken: "reachable ext ub c \<Longrightarrow> woken_up ext c"
proof (induction rule: reachable.induct)
  case (next_step c d)
  obtain th s where c: "c = (th, s)" by (cases c)
  from next_step.hyps(2) show ?case
    by (cases rule: step.cases) (use next_step.IH woken_thread woken_api c in auto)
qed (rule woken_start)


text \<open>A world whose pipe is always readable, and two calls before the thread waits.\<close>

fun wake_sim :: "sim_world ext" where
  "wake_sim (Epoll (Epoll_wait d n)) w = ((plain_reply 1)\<lparr>r_events := [wake_event]\<rparr>, w)"
| "wake_sim (Os (Read d)) w = ((plain_reply 4)\<lparr>r_bytes := [0, 0, 0, 0]\<rparr>, w)"
| "wake_sim c w = sim c w"

definition demo_wakeups :: "thread \<times> sim_world tcp" where
  "demo_wakeups = play wake_sim (\<lambda>_. 0) 1
     [Api_call (Api_connect 0 80 demo_callbacks), Api_call (Api_close_conn 2), Thread_step]
     (boot wake_sim 80 (7, [], []))"

lemma wake_sim_honest: "honest_pipe wake_sim 4"
  by (simp add: honest_pipe_def read_int_def pipe_events_def int_of_bytes_def plain_reply_def word_rcat_def)

lemma demo_wakeups_reachable: "reachable wake_sim (\<lambda>_. 0) (fst demo_wakeups, snd demo_wakeups)"
proof -
  have "fst (new_tcp_dispatcher wake_sim 0 80 (Some 9) (empty_base (7, [], []))) = Inr ()"
    by (simp add: run_simps cong: run_cong)
  then show ?thesis
    unfolding prod.collapse demo_wakeups_def by (intro play_reachable boot_reachable)
qed

lemma demo_wakeups_run:
  "fst demo_wakeups = Handling [(0, new_interrupt_info)]" "queued (snd demo_wakeups) = 2"
  "map_option pipe_in (mr (snd demo_wakeups)) = Some 4" "pipe_level (snd demo_wakeups) = 1"
  by (simp_all add: demo_wakeups_def boot_def queued_def pipe_level_def word_rcat_def run_simps cong: run_cong)


end
