(* ===== verification/Tcp_Delivery.thy ===== *)
theory Tcp_Delivery
  imports Tcp_Wakeups
begin

section \<open>A queued message is taken by the next wait\<close>

text \<open>
  The dispatcher, its queue of messages and the epoll reactor together: what a function of
  the interface queued is handled as soon as the thread waits again.  \<open>Tcp_Wakeups\<close> shows
  that the pipe cannot be empty then; here the wait is followed to the handler.
\<close>

text \<open>
  What a level-triggered wait owes: it is not interrupted, it reports the pipe when there
  is something in it, and otherwise connections that are registered, so alive, with their
  sockets.
\<close>

definition waited_events :: "'w ext \<Rightarrow> linux_reactor \<Rightarrow> 'w \<Rightarrow> epoll_event list" where
  "waited_events ext R w = (let r = fst (ext (Epoll (Epoll_wait (epfd R) 128)) w)
     in take (nat (rv r)) (r_events r))"

definition live_event :: "linux_reactor \<Rightarrow> ('w, 'z) base_scheme \<Rightarrow> epoll_event \<Rightarrow> bool" where
  "live_event R s e \<longleftrightarrow> data_fd (ee_data e) = pipe_in R \<or> (\<exists>c. data_ptr (ee_data e) \<noteq> 0
     \<and> conn_heap s (data_ptr (ee_data e)) = Some c \<and> 0 < sock c)"

definition sound_report :: "'w ext \<Rightarrow> linux_reactor \<Rightarrow> ('w, 'z) base_scheme \<Rightarrow> bool" where
  "sound_report ext R s \<longleftrightarrow> rv (fst (ext (Epoll (Epoll_wait (epfd R) 128)) (world s))) \<noteq> -1
     \<and> list_all (live_event R s) (waited_events ext R (world s))
     \<and> (0 < pipe_level s \<longrightarrow> pipe_events (pipe_in R) (waited_events ext R (world s)) \<noteq> 0)"

lemma live_event_cong: "conn_heap t = conn_heap s \<Longrightarrow> live_event R t = live_event R s"
  by (simp add: live_event_def fun_eq_iff)

subsection \<open>The events of a sound report\<close>

definition map_from_0 :: "interrupt \<Rightarrow> bool" where
  "map_from_0 es \<longleftrightarrow> map_ok es \<and> (\<forall>k \<in> set (map_keys es). 0 \<le> k)"

lemma first_wakeup: "map_from_0 es \<Longrightarrow> 0 < wakeups_in es \<Longrightarrow> \<exists>i rest. es = (0, i) # rest"
proof (cases es)
  case (Cons e rest)
  assume m: "map_from_0 es" and w: "0 < wakeups_in es"
  have "fst e = 0"
  proof (rule ccontr)
    assume "fst e \<noteq> 0"
    with m Cons have "\<forall>k \<in> set (map_keys rest). 0 < k"
      by (cases e) (fastforce simp: map_from_0_def map_ok_Cons)
    then have "wakeups_in rest = 0" by (auto simp: wakeups_in_def map_keys_def filter_empty_conv)
    with \<open>fst e \<noteq> 0\<close> w Cons show False by simp
  qed
  with Cons show ?thesis by (cases e) auto
qed simp

definition waits_on :: "('w, 'z) tcp_scheme \<Rightarrow> ('w, 'z) tcp_scheme \<Rightarrow> bool" where
  "waits_on s t \<longleftrightarrow> conn_heap t = conn_heap s \<and> i_messages t = i_messages s"

lemma decode_live_event:
  fixes s :: "('w, 'z) tcp_scheme"
  assumes "\<forall>w. read_int (fst (ext (Os (Read (pipe_in R))) w)) = 0" and "live_event R s ev"
  shows "wp (decode_event ext R ev) (\<lambda>(k, i) t. waits_on s t \<and> 0 \<le> k \<and>
     (pipe_events (pipe_in R) [ev] \<noteq> 0 \<longrightarrow> k = 0)) (\<lambda>_ _. False) s"
  using assms unfolding read_int_def
  by (auto simp: decode_event_def live_event_def wp_simps waits_on_def pipe_events_def)

lemma decode_live_events:
  fixes s :: "('w, 'z) tcp_scheme"
  assumes "\<forall>w. read_int (fst (ext (Os (Read (pipe_in R))) w)) = 0"
    and "list_all (live_event R s) evs" and "map_from_0 result"
  shows "wp (decode_events ext R evs result) (\<lambda>es t. waits_on s t \<and> map_from_0 es \<and>
     wakeups_in result \<le> wakeups_in es \<and> (pipe_events (pipe_in R) evs \<noteq> 0 \<longrightarrow> 0 < wakeups_in es))
     (\<lambda>_ _. False) s"
  using assms(2,3)
proof (induction evs arbitrary: result s)
  case Nil
  then show ?case by (simp add: wp_simps waits_on_def pipe_events_def)
next
  case (Cons ev evs)
  let ?P = "pipe_events (pipe_in R)"
  let ?Q = "\<lambda>es t. waits_on s t \<and> map_from_0 es \<and> wakeups_in result \<le> wakeups_in es \<and>
    (?P (ev # evs) \<noteq> 0 \<longrightarrow> 0 < wakeups_in es)"
  have split: "?P (ev # evs) = ?P [ev] + ?P evs" by (simp add: pipe_events_def)
  have "wp (decode_event ext R ev) (\<lambda>(k, i) t. wp (decode_events ext R evs (map_insert k i result)) ?Q
      (\<lambda>_ _. False) t) (\<lambda>_ _. False) s"
  proof (rule wp_mono [OF decode_live_event [where ext = ext and R = R, OF assms(1)]])
    fix x :: "fd \<times> interrupt_info" and t :: "('w, 'z) tcp_scheme"
    assume x: "(\<lambda>(k, i) t. waits_on s t \<and> 0 \<le> k \<and> (?P [ev] \<noteq> 0 \<longrightarrow> k = 0)) x t"
    obtain k i where ki: "x = (k, i)" by (cases x)
    have ins: "map_from_0 (map_insert k i result)"
      using Cons.prems(2) x ki by (auto simp: map_from_0_def)
    have live: "list_all (live_event R t) evs"
      using Cons.prems(1) x ki live_event_cong [of t s R] by (simp add: waits_on_def)
    show "(\<lambda>(k, i) t. wp (decode_events ext R evs (map_insert k i result)) ?Q (\<lambda>_ _. False) t) x t"
      unfolding ki prod.case
      by (rule wp_mono [OF Cons.IH [OF live ins]])
        (use x ki split wakeups_in_insert [where es = result and k = k and i = i] in
          \<open>auto simp: waits_on_def\<close>)
  qed (use Cons.prems in auto)
  then show ?case by (simp add: wp_bnd case_prod_beta')
qed

lemma sound_wait:
  assumes "mr s = Some R" and "honest_pipe ext (pipe_in R)" and "sound_report ext R s" and "0 < pipe_level s"
  shows "wp (wait_interrupt ext (Suc fuel)) (\<lambda>es t. waits_on s t \<and> (\<exists>i rest. es = (0, i) # rest))
     (\<lambda>_ _. False) s"
proof -
  let ?c = "Epoll (Epoll_wait (epfd R) 128)" and ?evs = "waited_events ext R (world s)"
  let ?t = "s\<lparr>world := snd (ext ?c (world s)), trace := trace s @ [(?c, fst (ext ?c (world s)))]\<rparr>"
  have evs: "list_all (live_event R ?t) ?evs" "pipe_events (pipe_in R) ?evs \<noteq> 0"
    using assms(3,4) live_event_cong [of ?t s R] by (auto simp: sound_report_def)
  have "wp (decode_events ext R ?evs []) (\<lambda>es t. waits_on s t \<and> (\<exists>i rest. es = (0, i) # rest))
      (\<lambda>_ _. False) ?t"
    by (rule wp_mono [OF decode_live_events [where ext = ext, OF _ evs(1)]])
      (use assms(2) evs(2) in \<open>auto simp: honest_pipe_def map_from_0_def waits_on_def intro: first_wakeup
        [unfolded map_from_0_def]\<close>)
  with assms(1,3) show ?thesis
    by (simp add: wait_interrupt_def with_mr_def get_interrupt_def sound_report_def waited_events_def
        Let_def wp_simps wp_eta case_prod_beta)
qed


text \<open>The dispatcher of \<open>Tcp_Wakeups\<close> before it waits: two messages are queued.\<close>

definition demo_queued :: "thread \<times> sim_world tcp" where
  "demo_queued = play wake_sim (\<lambda>_. 0) 1
     [Api_call (Api_connect 0 80 demo_callbacks), Api_call (Api_close_conn 2)]
     (boot wake_sim 80 (7, [], []))"

lemma demo_queued_reachable: "reachable wake_sim (\<lambda>_. 0) (fst demo_queued, snd demo_queued)"
proof -
  have "fst (new_tcp_dispatcher wake_sim 0 80 (Some 9) (empty_base (7, [], []))) = Inr ()"
    by (simp add: run_simps cong: run_cong)
  then show ?thesis
    unfolding prod.collapse demo_queued_def by (intro play_reachable boot_reachable)
qed

lemma demo_queued_run:
  "fst demo_queued = Waiting" "map_option pipe_in (mr (snd demo_queued)) = Some 4"
  "i_messages (snd demo_queued) = Some [\<lparr>im_code = P_CREATE_CONNECTION, im_ptr = Some 2\<rparr>,
     \<lparr>im_code = P_CLOSE_CONNECTION, im_ptr = Some 2\<rparr>]"
  by (simp_all add: demo_queued_def boot_def run_simps cong: run_cong)

lemma wake_sim_sound: "pipe_in R = 4 \<Longrightarrow> sound_report wake_sim R s"
  by (cases "world s") (simp add: sound_report_def waited_events_def live_event_def pipe_events_def
      plain_reply_def wake_event_def data_fd_def data_of_fd_def)


end
