(* ===== verification/Tcp_Order.thy ===== *)
theory Tcp_Order
  imports Tcp_Demo
begin

section \<open>The Linux dispatcher keeps send requests in the order of the calls of send\<close>

text \<open>
  A request is first a message of the queue and then an entry in the list of its
  connection.  Every call of \<open>send\<close> allocates a request at an address above all earlier
  ones, so the order of the calls is the order of the addresses.
\<close>

subsection \<open>Lists of requests and queued requests\<close>

definition send_ptr :: "internal_message \<Rightarrow> addr list" where
  "send_ptr im = (if im_code im = P_SEND_REQUEST then (case im_ptr im of None \<Rightarrow> [] | Some p \<Rightarrow> [p]) else [])"

definition send_ptrs :: "('w, 'z) tcp_scheme \<Rightarrow> addr list" where
  "send_ptrs s = (case i_messages s of None \<Rightarrow> [] | Some q \<Rightarrow> concat (map send_ptr q))"

text \<open>
  The lists of the connections \<open>og\<close> and the requests \<open>ps\<close> that are still in the message
  queue, none of them above the address \<open>n\<close>.
\<close>

definition ordered :: "(addr, addr list) std_map \<Rightarrow> addr list \<Rightarrow> addr \<Rightarrow> bool" where
  "ordered og ps n \<longleftrightarrow> map_ok og \<and> sorted_wrt (<) (ps @ [Suc n])
     \<and> (\<forall>p srs. map_find p og = Some srs \<longrightarrow> sorted_wrt (<) (srs @ ps @ [Suc n]))
     \<and> (\<forall>p p' srs srs'. map_find p og = Some srs \<longrightarrow> map_find p' og = Some srs' \<longrightarrow> p \<noteq> p'
          \<longrightarrow> set srs \<inter> set srs' = {})"

lemma ordered_parts:
  assumes "ordered og ps n"
  shows "map_ok og" and "sorted_wrt (<) (ps @ [Suc n])"
    and "map_find p og = Some srs \<Longrightarrow> sorted_wrt (<) (srs @ ps @ [Suc n])"
    and "map_find p og = Some srs \<Longrightarrow> map_find p' og = Some srs' \<Longrightarrow> p \<noteq> p' \<Longrightarrow> x \<in> set srs \<Longrightarrow> x \<notin> set srs'"
  using assms unfolding ordered_def by blast+

lemma above_end: "sorted_wrt (<) (xs @ [Suc n]) \<Longrightarrow> n \<le> m \<Longrightarrow> sorted_wrt (<) (xs @ [Suc m])"
  by (auto simp: sorted_wrt_append)

lemma above_push:
  "sorted_wrt (<) (xs @ [Suc n]) \<Longrightarrow> n < sr \<Longrightarrow> sr \<le> m \<Longrightarrow> sorted_wrt (<) ((xs @ [sr]) @ [Suc m])"
  by (fastforce simp: sorted_wrt_append)

lemma ordered_later: "ordered og ps n \<Longrightarrow> n \<le> m \<Longrightarrow> ordered og ps m"
  using above_end [of "_ @ ps" n m] above_end [of ps n m] by (auto simp: ordered_def)

lemma ordered_push: "ordered og ps n \<Longrightarrow> n < sr \<Longrightarrow> sr \<le> m \<Longrightarrow> ordered og (ps @ [sr]) m"
  using above_push [of "_ @ ps" n sr m] above_push [of ps n sr m] by (auto simp: ordered_def)

lemma ordered_drop: "ordered og (sr # ps) n \<Longrightarrow> ordered og ps n"
  by (auto simp: ordered_def sorted_wrt_append)

lemma orderedI:
  assumes "map_ok og" and "sorted_wrt (<) (ps @ [Suc n])"
    and "\<And>p srs. map_find p og = Some srs \<Longrightarrow> sorted_wrt (<) (srs @ ps @ [Suc n])"
    and "\<And>p p' srs srs' x. map_find p og = Some srs \<Longrightarrow> map_find p' og = Some srs' \<Longrightarrow> p \<noteq> p' \<Longrightarrow>
      x \<in> set srs \<Longrightarrow> x \<in> set srs' \<Longrightarrow> False"
  shows "ordered og ps n"
  using assms unfolding ordered_def by blast

lemma ordered_insert: "ordered og ps n \<Longrightarrow> ordered (map_insert p [] og) ps n"
  by (auto simp: ordered_def map_find_insert split: if_splits option.splits)

lemma find_modified: "map_find q (map_modify p f og) = Some srs \<Longrightarrow>
    \<exists>old. map_find q og = Some old \<and> (srs = old \<and> q \<noteq> p \<or> q = p \<and> srs = f old)"
  by (auto simp: map_find_modify split: if_splits)

lemma ordered_take:
  assumes "ordered og (sr # ps) n"
  shows "ordered (map_modify p (\<lambda>srs. srs @ [sr]) (map_insert p [] og)) ps n"
proof -
  let ?og = "map_insert p [] og"
  have o: "ordered ?og (sr # ps) n" by (rule ordered_insert [OF assms])
  note parts = ordered_parts [OF o]
  have fresh: "sr \<notin> set srs" if "map_find q ?og = Some srs" for q srs
    using parts(3) [OF that] by (auto simp: sorted_wrt_append)
  show ?thesis
  proof (rule orderedI)
    fix q srs assume "map_find q (map_modify p (\<lambda>srs. srs @ [sr]) ?og) = Some srs"
    from find_modified [OF this] show "sorted_wrt (<) (srs @ ps @ [Suc n])"
      by (auto simp: sorted_wrt_append dest!: parts(3))
  next
    fix q q' srs srs' x
    assume q: "map_find q (map_modify p (\<lambda>srs. srs @ [sr]) ?og) = Some srs"
      and q': "map_find q' (map_modify p (\<lambda>srs. srs @ [sr]) ?og) = Some srs'"
      and n: "q \<noteq> q'" and x: "x \<in> set srs" "x \<in> set srs'"
    obtain l l' where l: "map_find q ?og = Some l" "x \<in> set l \<or> x = sr \<and> q = p"
      and l': "map_find q' ?og = Some l'" "x \<in> set l' \<or> x = sr \<and> q' = p"
      using find_modified [OF q] find_modified [OF q'] x by fastforce
    show False
      using l(2) l'(2) n parts(4) [OF l(1) l'(1) n] fresh [OF l(1)] fresh [OF l'(1)] by blast
  qed (use parts(1,2) in \<open>auto simp: sorted_wrt_append\<close>)
qed

definition less_one :: "'a list \<Rightarrow> 'a list \<Rightarrow> bool" where
  "less_one xs ys \<longleftrightarrow> ys = xs \<or> (\<exists>as x bs. xs = as @ x # bs \<and> ys = as @ bs)"

lemma less_one_subset: "less_one xs ys \<Longrightarrow> set ys \<subseteq> set xs"
  by (auto simp: less_one_def)

lemma less_one_sorted: "less_one xs ys \<Longrightarrow> sorted_wrt (<) (xs @ zs) \<Longrightarrow> sorted_wrt (<) (ys @ zs)"
  by (auto simp: less_one_def sorted_wrt_append)

lemma less_one_Cons: "less_one xs ys \<Longrightarrow> less_one (x # xs) (x # ys)"
  unfolding less_one_def by (metis append_Cons)

lemma ordered_rest:
  assumes "ordered og ps n" and "map_find p og = Some srs" and "less_one srs rest"
  shows "ordered (map_modify p (\<lambda>_. rest) og) ps n"
proof (rule orderedI)
  note parts = ordered_parts [OF assms(1)]
  fix q l assume "map_find q (map_modify p (\<lambda>_. rest) og) = Some l"
  from find_modified [OF this] show "sorted_wrt (<) (l @ ps @ [Suc n])"
    using parts(3) less_one_sorted [OF assms(3)] assms(2) by auto
next
  note parts = ordered_parts [OF assms(1)]
  fix q q' l l' x
  assume q: "map_find q (map_modify p (\<lambda>_. rest) og) = Some l"
    and q': "map_find q' (map_modify p (\<lambda>_. rest) og) = Some l'"
    and n: "q \<noteq> q'" and x: "x \<in> set l" "x \<in> set l'"
  obtain k k' where k: "map_find q og = Some k" "x \<in> set k" "map_find q' og = Some k'" "x \<in> set k'"
    using find_modified [OF q] find_modified [OF q'] x assms(2) less_one_subset [OF assms(3)] by fastforce
  show False using parts(4) [OF k(1,3) n k(2)] k(4) by blast
qed (use ordered_parts [OF assms(1)] in auto)

subsection \<open>What does not touch the queues\<close>

definition same_queues :: "('w, 'z) tcp_scheme \<Rightarrow> ('w, 'z) tcp_scheme \<Rightarrow> bool" where
  "same_queues s t \<longleftrightarrow> outgoings t = outgoings s \<and> send_ptrs t = send_ptrs s \<and> last_addr s \<le> last_addr t"

lemma same_queues_members:
  "outgoings t = outgoings s \<Longrightarrow> i_messages t = i_messages s \<Longrightarrow> last_addr s \<le> last_addr t \<Longrightarrow> same_queues s t"
  by (simp add: same_queues_def send_ptrs_def)

interpretation ord: conn_frame "same_queues :: ('w, 'z) tcp_scheme \<Rightarrow> ('w, 'z) tcp_scheme \<Rightarrow> bool"
  by unfold_locales (auto simp: same_queues_def send_ptrs_def)

interpretation ors: send_frame "same_queues :: ('w, 'z) tcp_scheme \<Rightarrow> ('w, 'z) tcp_scheme \<Rightarrow> bool"
  by unfold_locales (auto simp: same_queues_def send_ptrs_def)

interpretation orp: close_frame "same_queues :: ('w, 'z) tcp_scheme \<Rightarrow> ('w, 'z) tcp_scheme \<Rightarrow> bool"
  by unfold_locales (auto simp: same_queues_def send_ptrs_def)

interpretation orr: reading_frame "same_queues :: ('w, 'z) tcp_scheme \<Rightarrow> ('w, 'z) tcp_scheme \<Rightarrow> bool"
  by unfold_locales (auto simp: same_queues_def send_ptrs_def)

lemma order_wake: "ord.keeps (wake ext self)"
  unfolding wake_def with_mr_def by (intro ord.keeps_basic ord.keeps_reactor_stop)

lemma order_messages:
  "(\<And>q. concat (map send_ptr (f q)) = concat (map send_ptr q)) \<Longrightarrow> ord.keeps (with_messages f)"
  unfolding with_messages_def
  by (rule ord.keepsI) (auto simp: wp_simps same_queues_def send_ptrs_def split: option.split)

lemma order_posts: "k \<noteq> P_SEND_REQUEST \<Longrightarrow> ord.keeps (post_ptr ext self k p)" "ord.keeps (post ext self k)"
  unfolding post_ptr_def post_def
  by (intro ord.keeps_andthen order_messages order_wake; simp add: push_ptr_def push_code_def send_ptr_def)+

lemma order_limiter_update: "ord.keeps (limiter_update f)"
  unfolding limiter_update_def by (intro ord.keeps_modify same_queues_members) simp_all

lemma order_limiter: "ord.keeps (limiter_insert ext p n)" "ord.keeps (limiter_recalc ext ub)"
  unfolding limiter_insert_def limiter_recalc_def
  by (intro ord.keeps_basic order_limiter_update; simp)+

lemma order_dtor_finish: "ord.keeps (dtor_finish ext)"
  unfolding dtor_finish_def assertion_def
  by (intro ord.keeps_basic ord.keeps_reactor ord.keeps_modify same_queues_members) simp_all

interpretation oc: tcp_conn_frame "same_queues :: ('w, 'z) tcp_scheme \<Rightarrow> ('w, 'z) tcp_scheme \<Rightarrow> bool"
  by unfold_locales ((rule order_posts order_limiter_update order_limiter order_dtor_finish; assumption?
      | rule same_queues_members; simp)+)

interpretation os: tcp_request_frame "same_queues :: ('w, 'z) tcp_scheme \<Rightarrow> ('w, 'z) tcp_scheme \<Rightarrow> bool"
  by unfold_locales

interpretation ow: tcp_wait_frame "same_queues :: ('w, 'z) tcp_scheme \<Rightarrow> ('w, 'z) tcp_scheme \<Rightarrow> bool"
  by unfold_locales

subsection \<open>The functions that do\<close>

definition in_order :: "('w, 'z) tcp_scheme \<Rightarrow> bool" where
  "in_order s \<longleftrightarrow> ordered (outgoings s) (send_ptrs s) (last_addr s)"

text \<open>A new request at the address \<open>sr\<close> that is not queued yet.\<close>

definition new_request :: "addr \<Rightarrow> ('w, 'z) tcp_scheme \<Rightarrow> bool" where
  "new_request sr s \<longleftrightarrow> ordered (outgoings s) (send_ptrs s) (sr - 1) \<and> 0 < sr \<and> sr \<le> last_addr s"

lemma new_in_order: "new_request sr s \<Longrightarrow> in_order s"
  by (auto simp: new_request_def in_order_def intro: ordered_later)

lemma same_in_order: "same_queues s t \<Longrightarrow> in_order s \<Longrightarrow> in_order t"
  by (auto simp: same_queues_def in_order_def intro: ordered_later)

lemma same_new_request: "same_queues s t \<Longrightarrow> new_request sr s \<Longrightarrow> new_request sr t"
  by (auto simp: same_queues_def new_request_def)

lemma keeps_triple:
  assumes "ord.keeps m" and "\<And>s t. same_queues s t \<Longrightarrow> I s \<Longrightarrow> I t" and "\<And>s. I s \<Longrightarrow> J s"
  shows "triple I m (\<lambda>_. I) J"
proof (rule tripleI)
  fix s assume s: "I s"
  have "wp m (\<lambda>_ t. same_queues s t) (\<lambda>_ t. same_queues s t) s"
    using ord.keepsD [OF assms(1), of s] by (simp add: wp_snd)
  then show "wp m (\<lambda>_. I) (\<lambda>_. J) s" by (rule wp_mono) (use s assms(2,3) in blast)+
qed

lemma order_keeps: "ord.keeps m \<Longrightarrow> triple in_order m (\<lambda>_. in_order) in_order"
  by (rule keeps_triple) (auto intro: same_in_order)

lemma new_keeps: "ord.keeps m \<Longrightarrow> triple (new_request sr) m (\<lambda>_. new_request sr) in_order"
  by (rule keeps_triple) (auto intro: same_new_request new_in_order)

lemma new_send_req_order: "triple in_order (new_send_req ext p) new_request in_order"
proof (rule tripleI)
  fix s :: "('a, 'b) tcp_scheme" assume s: "in_order s"
  let ?p = "Suc (last_addr s)"
  have "new_request ?p (s\<lparr>send_heap := h, last_addr := ?p\<rparr>)" for h
    using s by (simp add: new_request_def in_order_def send_ptrs_def)
  from tripleD [OF new_keeps [OF ord.keeps_conn_addref] this]
  show "wp (new_send_req ext p) new_request (\<lambda>_. in_order) s"
    using s by (simp add: new_send_req_def alloc_send_req_def wp_simps wp_eta split: option.split)
qed

lemma post_send_request: "triple (new_request sr) (post_ptr ext self P_SEND_REQUEST sr) (\<lambda>_. in_order) in_order"
proof -
  have "in_order (s\<lparr>i_messages := Some (push_ptr P_SEND_REQUEST sr q)\<rparr>)"
    if "new_request sr s" "i_messages s = Some q" for s :: "('a, 'b) tcp_scheme" and q
    using that ordered_push [of "outgoings s" "send_ptrs s" "sr - 1" sr "last_addr s"]
    by (simp add: in_order_def new_request_def send_ptrs_def push_ptr_def send_ptr_def)
  then have "triple (new_request sr) (with_messages (push_ptr P_SEND_REQUEST sr)) (\<lambda>_. in_order)
      (in_order :: ('a, 'b) tcp_scheme \<Rightarrow> bool)"
    by (auto simp: triple_def with_messages_def wp_simps intro: new_in_order split: option.split)
  then show ?thesis unfolding post_ptr_def by (rule triple_seq [OF _ order_keeps [OF order_wake]])
qed

lemma order_send_req_of: "triple in_order (send_req_of ext self p buf cb) (\<lambda>_. in_order) in_order"
  unfolding send_req_of_def
  by (rule triple_try_catch [where I = in_order], rule triple_bnd [OF new_send_req_order],
      rule triple_bnd [OF new_keeps [OF ord.keeps_deref]])
    (intro triple_ret triple_seq [OF new_keeps [OF ors.keeps_set_send]]
      triple_seq [OF new_keeps [OF ord.keeps_send_addref]] triple_seq [OF post_send_request], simp_all add: triple_ret)

lemma order_send_no_callback: "triple in_order (send_no_callback ext self p buf) (\<lambda>_. in_order) in_order"
  unfolding send_no_callback_def
  by (intro triple_bnd_inv triple_if triple_andthen triple_ret order_send_req_of order_keeps
      ord.keeps_send_release)

text \<open>One pass takes at most one request out of a list.\<close>

lemma sends_pass_less_one: "sends_pass ext g srs s = (Inr rest, t) \<Longrightarrow> less_one srs rest"
proof (induction srs arbitrary: g s rest)
  case (Cons sr srs)
  then show ?case
    by (auto simp: bnd_def ret_def less_one_def [of _ srs] split: prod.splits sum.splits if_splits
        intro: less_one_Cons) (fastforce simp: less_one_def)+
qed (simp add: ret_def less_one_def)

lemma order_serve: "triple in_order (serve ext g p) (\<lambda>_. in_order) in_order"
proof (rule tripleI)
  fix s :: "('a, 'b) tcp_scheme" assume s: "in_order s"
  show "wp (serve ext g p) (\<lambda>_. in_order) (\<lambda>_. in_order) s"
  proof (cases "map_find p (outgoings s)")
    case None
    with s show ?thesis by (simp add: serve_def wp_simps)
  next
    case (Some srs)
    obtain r t where pass: "sends_pass ext g srs s = (r, t)" by (cases "sends_pass ext g srs s")
    have st: "same_queues s t" using ord.keepsD [OF os.keeps_sends_pass, of s ext g srs] pass by simp
    have "in_order (t\<lparr>outgoings := map_modify p (\<lambda>_. rest) (outgoings t)\<rparr>)" if "r = Inr rest" for rest
      using ordered_rest [OF _ _ sends_pass_less_one [OF pass [unfolded that]]] same_in_order [OF st s] st Some
      by (simp add: in_order_def send_ptrs_def same_queues_def)
    then show ?thesis
      using same_in_order [OF st s]
      by (simp add: serve_def Some wp_simps wp_eta) (auto simp: wp_def pass split: sum.split)
  qed
qed

lemma order_idle_pass: "triple in_order (idle_pass ext ub) (\<lambda>_. in_order) in_order"
  unfolding idle_pass_def
  by (intro triple_bnd_inv triple_prod triple_andthen triple_whenever triple_for_each order_serve
      order_keeps ord.keeps_gets order_limiter)

lemma order_queue_send:
  assumes "ordered (outgoings s) (sr # send_ptrs s) (last_addr s)"
  shows "wp (queue_send sr) (\<lambda>_. in_order) (\<lambda>_. in_order) s"
proof -
  have "in_order s" using ordered_drop [OF assms] by (simp add: in_order_def)
  moreover have "in_order (s\<lparr>outgoings := map_modify p (\<lambda>srs. srs @ [sr]) (map_insert p [] (outgoings s))\<rparr>)" for p
    using ordered_take [OF assms, of p] by (simp add: in_order_def send_ptrs_def)
  ultimately show ?thesis
    by (auto simp: queue_send_def Let_def wp_simps split: option.split)
qed

lemma order_other_message:
  "im_code im \<noteq> P_SEND_REQUEST \<Longrightarrow> ord.keeps (handle_message ext im)"
  unfolding handle_message_def with_ptr_def
  by (intro ord.keeps_basic ord.keeps_modify oc.accepted_any ord.keeps_objects oc.keeps_thread
      oc.keeps_close_connection os.keeps_call_false_cb orp.keeps_close_post) simp_all

lemma order_handle_wakeup: "triple in_order (handle_wakeup ext) (\<lambda>_. in_order) in_order"
proof (rule tripleI)
  fix s :: "('a, 'b) tcp_scheme" assume s: "in_order s"
  have "wp (handle_message ext im) (\<lambda>_. in_order) (\<lambda>_. in_order) (s\<lparr>i_messages := Some q\<rparr>)"
    if q: "i_messages s = Some (im # q)" for im q
  proof (cases "im_code im = P_SEND_REQUEST")
    case True
    then show ?thesis
    proof (cases "im_ptr im")
      case (Some sr)
      with True q s have "ordered (outgoings (s\<lparr>i_messages := Some q\<rparr>)) (sr # send_ptrs (s\<lparr>i_messages := Some q\<rparr>))
          (last_addr (s\<lparr>i_messages := Some q\<rparr>))"
        by (simp add: in_order_def send_ptrs_def send_ptr_def)
      from order_queue_send [OF this] True Some show ?thesis
        by (simp add: handle_message_def with_ptr_def wp_simps wp_eta message_codes)
    qed (use q s in \<open>simp add: handle_message_def with_ptr_def wp_simps wp_eta message_codes in_order_def
        send_ptrs_def send_ptr_def\<close>)
  next
    case False
    with q s have "in_order (s\<lparr>i_messages := Some q\<rparr>)" by (simp add: in_order_def send_ptrs_def send_ptr_def)
    from tripleD [OF order_keeps [OF order_other_message [OF False]] this] show ?thesis .
  qed
  then show "wp (handle_wakeup ext) (\<lambda>_. in_order) (\<lambda>_. in_order) s"
    using s by (auto simp: handle_wakeup_def wp_simps wp_eta split: option.split list.split
        elim: pop_message.elims)
qed

lemma order_handle_entry: "triple in_order (handle_entry ext fuel revent) (\<lambda>_. in_order) in_order"
  unfolding handle_entry_def handle_event_def handle_writable_def
  by (intro triple_if triple_andthen triple_bnd_inv triple_whenever triple_ret order_handle_wakeup order_serve
      order_keeps oc.keeps_close_connection oc.keeps_connection_established oc.keeps_handle_readable
      ord.keeps_gets ord.keeps_deref ord.keeps_conn_release oc.keeps_limiter)

lemma order_api: "triple in_order (run_api ext self a) (\<lambda>_. in_order) in_order"
  unfolding discard_def
proof (cases a)
qed (simp_all only: run_api.simps release_def addref_def release_send_def stop_accepting_def
    set_bandwidth_def dtor_request_def discard_def, (intro triple_bnd_inv triple_ret order_send_req_of order_send_no_callback
    order_keeps oc.keeps_interface oc.keeps_connect_conn os.keeps_break_send ord.keeps_objects
    oc.keeps_post oc.keeps_limiter oc.keeps_dtor_finish)+)

subsection \<open>Every run\<close>

definition no_requests :: "('w, 'z) tcp_scheme \<Rightarrow> bool" where
  "no_requests s \<longleftrightarrow> outgoings s = [] \<and> send_ptrs s = []"

lemma none_in_order: "no_requests s \<Longrightarrow> in_order s"
  by (simp add: no_requests_def in_order_def ordered_def)

lemma start_without_requests:
  assumes "outgoings s = []" and "i_messages s = None"
  shows "wp (start_listening ext port) (\<lambda>_. no_requests) (\<lambda>_. no_requests) s"
  using assms
  by (auto simp: start_listening_def new_linux_reactor_def add_conn_def wp_simps no_requests_def
      send_ptrs_def split: option.split)

lemma new_dispatcher_in_order:
  "wp (new_tcp_dispatcher ext j port cb) (\<lambda>_. in_order) (\<lambda>_. in_order) (empty_base w)"
  unfolding new_tcp_dispatcher_def wp_andthen wp_modify wp_whenever wp_try_catch
  by (auto intro!: wp_mono [OF start_without_requests] none_in_order simp: wp_simps wp_throw_eta no_requests_def
      send_ptrs_def delete_linux_reactor_def empty_base_def split: option.split)

interpretation order: system_invariant ext "in_order :: 'w tcp \<Rightarrow> bool" in_order
  for ext :: "'w ext"
  by unfold_locales (auto intro: order_keeps [OF ow.keeps_wait_interrupt] order_handle_entry order_idle_pass
      tripleD [OF order_api] new_dispatcher_in_order)

text \<open>
  C16: Send requests keep the order of the calls of \<open>send\<close>, and none is queued twice: in every
  reachable configuration the requests of a connection, followed by those that are still
  messages, are strictly in the order in which they were made, and no request is in the
  lists of two connections.
\<close>

theorem requests_in_order:
  assumes "reachable ext ub (th, s)" and "map_find p (outgoings s) = Some srs"
  shows "sorted_wrt (<) (srs @ send_ptrs s) \<and> (\<forall>sr \<in> set srs. sr \<le> last_addr s)
    \<and> (\<forall>p' srs'. p' \<noteq> p \<longrightarrow> map_find p' (outgoings s) = Some srs' \<longrightarrow> set srs \<inter> set srs' = {})"
proof -
  have o: "ordered (outgoings s) (send_ptrs s) (last_addr s)"
    using order.always [OF assms(1)] by (simp add: in_order_def)
  show ?thesis
    using ordered_parts(3) [OF o assms(2)] ordered_parts(4) [OF o assms(2)]
    by (auto simp: sorted_wrt_append)
qed

text \<open>A run in which one request is in the list of its connection and two are messages.\<close>

definition demo_sending :: "thread \<times> sim_world tcp" where
  "demo_sending = play sim (\<lambda>_. 0) 1
     [Api_call (Api_connect 0 80 demo_callbacks), Thread_step, Thread_step, Thread_step, Thread_step, Thread_step,
      Thread_step, Api_call (Api_send 2 [1, 2, 3] (Some 14)), Thread_step, Thread_step, Thread_step,
      Api_call (Api_send 2 [4] (Some 14)), Api_call (Api_send 2 [5] None)]
     (boot sim 80 (7, [[wake_event], [ready_event 2 EPOLLOUT], [wake_event]], []))"

lemma demo_sending_reachable: "reachable sim (\<lambda>_. 0) (fst demo_sending, snd demo_sending)"
  unfolding prod.collapse demo_sending_def by (intro play_reachable boot_sim_reachable)

lemma demo_sending_run:
  "outgoings (snd demo_sending) = [(2, [4])]" "send_ptrs (snd demo_sending) = [5, 6]"
  by (simp_all add: demo_sending_def boot_def send_ptrs_def send_ptr_def run_simps cong: run_cong)

theorem requests_in_order_witness:
  "map_find 2 (outgoings (snd demo_sending)) = Some [4] \<and> send_ptrs (snd demo_sending) = [5, 6]
    \<and> sorted_wrt (<) ([4] @ send_ptrs (snd demo_sending))"
proof -
  have "map_find 2 (outgoings (snd demo_sending)) = Some [4]" by (simp add: demo_sending_run)
  with requests_in_order [OF demo_sending_reachable this] show ?thesis by (simp add: demo_sending_run(2))
qed

end
