(* ===== verification/Tcp_Types.thy ===== *)
theory Tcp_Types
  imports Tcp_Demo Bwstop_Runs
begin

section \<open>The Linux dispatcher keeps its limiter and its queues well formed\<close>

text \<open>
  Every operation of the limiter keeps it well formed as long as its clock does not run
  backwards (\<open>Bwstop_Runs\<close>).  Here the dispatcher is shown to call nothing else on it,
  and to keep the map of queued requests a map: whatever the threads, the users and the
  outside world do, the state has the shape that the lemmas on both rely on.
\<close>

subsection \<open>The clock in the trace\<close>

fun clock_of :: "event \<Rightarrow> timeb list" where
  "clock_of (Os Ftime, r) = [r_time r]"
| "clock_of e = []"

definition clock :: "('w, 'z) outside_scheme \<Rightarrow> timeb list" where
  "clock s = concat (map clock_of (trace s))"

definition clock_forward :: "timeb list \<Rightarrow> bool" where
  "clock_forward ts \<longleftrightarrow> sorted (map time_key ts)"

definition after_clock :: "timeb \<Rightarrow> timeb list \<Rightarrow> bool" where
  "after_clock now ts \<longleftrightarrow> (\<forall>t \<in> set ts. time_key t \<le> time_key now)"

lemma clock_forward_append: "clock_forward (ts @ us) \<Longrightarrow> clock_forward ts"
  by (simp add: clock_forward_def sorted_append)

lemma clock_forward_last: "clock_forward (ts @ [t]) \<Longrightarrow> after_clock t ts"
  by (auto simp: clock_forward_def after_clock_def sorted_append)

lemma clock_trace [simp]:
  "clock (s\<lparr>world := w, trace := trace s @ [e]\<rparr>) = clock s @ clock_of e"
  by (simp add: clock_def)

lemma clock_of_user [simp]: "clock_of (User u, r) = []"
  by simp

subsection \<open>The invariant\<close>

definition tcp_typed :: "('w, 'z) tcp_scheme \<Rightarrow> bool" where
  "tcp_typed s \<longleftrightarrow> map_ok (outgoings s) \<and>
     (clock_forward (clock s) \<longrightarrow> (\<forall>now. after_clock now (clock s) \<longrightarrow> limiter_ok now (bws s)))"

definition typed :: "('w, 'z) tcp_scheme \<Rightarrow> ('w, 'z) tcp_scheme \<Rightarrow> bool" where
  "typed s t \<longleftrightarrow> (tcp_typed s \<longrightarrow> tcp_typed t)"

lemma typed_same: "outgoings t = outgoings s \<Longrightarrow> bws t = bws s \<Longrightarrow> clock t = clock s \<Longrightarrow> typed s t"
  by (simp add: typed_def tcp_typed_def)

lemma typed_call: "typed s (s\<lparr>world := w, trace := trace s @ [e]\<rparr>)"
  by (auto simp: typed_def tcp_typed_def after_clock_def dest: clock_forward_append)

lemma typed_limiter:
  "(\<And>now. limiter_ok now b \<Longrightarrow> limiter_ok now b') \<Longrightarrow> bws s = b \<Longrightarrow> typed s (s\<lparr>bws := b'\<rparr>)"
  by (auto simp: typed_def tcp_typed_def clock_def)

lemma typed_op: "typed s (s\<lparr>bws := f (bws s)\<rparr>)" if "\<And>now b. f b = bw_step ub now op b"
  using bw_step_ok that [symmetric] by (intro typed_limiter [OF _ refl]) metis

text \<open>An operation that reads the clock first.\<close>

lemma typed_timed_op:
  assumes "\<And>b. f b = bw_step ub (r_time r) op b"
  shows "typed s (s\<lparr>world := w, trace := trace s @ [(Os Ftime, r)], bws := f (bws s)\<rparr>)"
  unfolding typed_def tcp_typed_def
proof (intro impI conjI allI)
  let ?t = "s\<lparr>world := w, trace := trace s @ [(Os Ftime, r)], bws := f (bws s)\<rparr>"
  fix now
  assume s: "map_ok (outgoings s) \<and>
     (clock_forward (clock s) \<longrightarrow> (\<forall>now. after_clock now (clock s) \<longrightarrow> limiter_ok now (bws s)))"
  assume fwd: "clock_forward (clock ?t)" and now: "after_clock now (clock ?t)"
  have c: "clock ?t = clock s @ [r_time r]" by (simp add: clock_def)
  have "limiter_ok (r_time r) (bws s)"
    using s fwd c clock_forward_append clock_forward_last by fastforce
  then have "limiter_ok (r_time r) (f (bws s))" unfolding assms by (rule bw_step_ok)
  moreover have "time_key (r_time r) \<le> time_key now" using now c by (simp add: after_clock_def)
  ultimately show "limiter_ok now (bws ?t)" by (auto intro: limiter_ok_later)
qed simp

lemma typed_outgoings: "(map_ok (outgoings s) \<Longrightarrow> map_ok og) \<Longrightarrow> typed s (s\<lparr>outgoings := og\<rparr>)"
  by (auto simp: typed_def tcp_typed_def clock_def)

subsection \<open>Every function keeps it\<close>

interpretation tyc: conn_frame "typed :: ('w, 'z) tcp_scheme \<Rightarrow> ('w, 'z) tcp_scheme \<Rightarrow> bool"
  by unfold_locales (auto simp: typed_call, (auto simp: typed_def tcp_typed_def clock_def)+)

interpretation tys: send_frame "typed :: ('w, 'z) tcp_scheme \<Rightarrow> ('w, 'z) tcp_scheme \<Rightarrow> bool"
  by unfold_locales (simp_all add: typed_call typed_same clock_def)

interpretation tyr: reading_frame "typed :: ('w, 'z) tcp_scheme \<Rightarrow> ('w, 'z) tcp_scheme \<Rightarrow> bool"
  by unfold_locales (rule typed_call)

lemma typed_with_messages: "tyc.keeps (with_messages f)"
  unfolding with_messages_def
  by (intro tyc.keeps_basic tyc.keeps_modify typed_same) (simp_all add: clock_def)

lemma typed_wake: "tyc.keeps (wake ext self)"
  unfolding wake_def with_mr_def by (intro tyc.keeps_basic tyc.keeps_reactor_stop)

lemma typed_update: "(\<And>now b. f b = bw_step ub now op b) \<Longrightarrow> tyc.keeps (limiter_update f)"
  unfolding limiter_update_def by (intro tyc.keeps_modify typed_op)

lemma typed_updates:
  "tyc.keeps (limiter_update (bw_on p))" "tyc.keeps (limiter_update (bw_off p))"
  "tyc.keeps (limiter_update (bw_erase p))" "tyc.keeps (limiter_update (set_limit n))"
  by (rule typed_update [where op = "Op_on p"] typed_update [where op = "Op_off p"]
      typed_update [where op = "Op_erase p"] typed_update [where op = "Op_limit n"], simp)+

lemma typed_insert: "tyc.keeps (limiter_insert ext p n)"
proof (rule tyc.keepsI)
  fix s :: "('a, 'b) tcp_scheme"
  show "wp (limiter_insert ext p n) (\<lambda>_. typed s) (\<lambda>_. typed s) s"
    using tyc.refl
    by (auto intro: typed_timed_op [where op = "Op_insert p n"] simp: limiter_insert_def limiter_update_def wp_simps)
qed

lemma typed_recalc: "tyc.keeps (limiter_recalc ext ub)"
proof (rule tyc.keepsI)
  fix s :: "('a, 'b) tcp_scheme"
  show "wp (limiter_recalc ext ub) (\<lambda>_. typed s) (\<lambda>_. typed s) s"
    using tyc.refl
    by (auto intro: typed_timed_op [where op = Op_recalc and ub = ub] simp: limiter_recalc_def limiter_update_def wp_simps)
qed

lemma typed_queue_send: "tyc.keeps (queue_send sr)"
  unfolding queue_send_def Let_def
  by (intro tyc.keeps_basic tyc.keeps_modify typed_outgoings) simp

lemma typed_requests: "tyc.keeps (modify (\<lambda>s. s\<lparr>outgoings := map_modify p (\<lambda>_. rest) (outgoings s)\<rparr>))"
  by (intro tyc.keeps_modify typed_outgoings) simp

lemma typed_dtor_finish: "tyc.keeps (dtor_finish ext)"
  unfolding dtor_finish_def assertion_def
  by (intro tyc.keeps_basic tyc.keeps_reactor tyc.keeps_modify typed_same) (simp_all add: clock_def)

lemma typed_posts: "tyc.keeps (post_ptr ext self k p)" "tyc.keeps (post ext self k)"
  unfolding post_ptr_def post_def
  by (intro tyc.keeps_basic typed_with_messages typed_wake)+

interpretation ty: tcp_all_frame "typed :: ('w, 'z) tcp_scheme \<Rightarrow> ('w, 'z) tcp_scheme \<Rightarrow> bool"
  by unfold_locales ((rule typed_posts typed_updates typed_insert typed_recalc typed_queue_send
      typed_requests typed_dtor_finish | rule typed_same; simp add: clock_def)+)

lemma typed_api: "tyc.keeps (run_api ext self a)"
  unfolding discard_def
proof (cases a)
qed (auto simp: discard_def release_def addref_def release_send_def stop_accepting_def
    set_bandwidth_def dtor_request_def intro!: tyc.keeps_basic ty.keeps_interface ty.keeps_sending_interface
    tyc.keeps_objects ty.keeps_connect_conn ty.keeps_post ty.keeps_set_limit ty.keeps_dtor_finish)

lemma keeps_typed:
  assumes "tyc.keeps m" and "tcp_typed s"
  shows "wp m (\<lambda>_. tcp_typed) (\<lambda>_. tcp_typed) s"
  using tyc.keepsD [OF assms(1), of s] assms(2) by (simp add: wp_snd typed_def)

lemma new_dispatcher_typed:
  "wp (new_tcp_dispatcher ext j port cb) (\<lambda>_. tcp_typed) (\<lambda>_. tcp_typed) (empty_base w)"
  unfolding new_tcp_dispatcher_def wp_andthen wp_modify
  by (rule keeps_typed [OF ty.keeps_constructor_rest])
    (simp add: tcp_typed_def new_limiter_ok empty_base_def)

interpretation types: system_invariant ext "tcp_typed :: 'w tcp \<Rightarrow> bool" tcp_typed
  for ext :: "'w ext"
  by unfold_locales (auto intro!: tripleI keeps_typed ty.keeps_wait_interrupt ty.keeps_handle_entry
      ty.keeps_idle_pass typed_api new_dispatcher_typed)


text \<open>A run with a limit, in which a connection was established and so entered the limiter.\<close>

definition demo_limited :: "thread \<times> sim_world tcp" where
  "demo_limited = play sim (\<lambda>_. 0) 1
     [Api_call (Api_set_bandwidth 1000), Api_call (Api_connect 0 80 demo_callbacks), Thread_step, Thread_step,
      Thread_step, Thread_step, Thread_step]
     (boot sim 80 (7, [[wake_event], [ready_event 2 EPOLLOUT]], []))"

lemma demo_limited_reachable: "reachable sim (\<lambda>_. 0) (fst demo_limited, snd demo_limited)"
  unfolding prod.collapse demo_limited_def by (intro play_reachable boot_sim_reachable)

lemma demo_limited_clock: "clock (snd demo_limited) = [\<lparr>tb_time = 0, tb_millitm = 0\<rparr>]"
  by (simp add: demo_limited_def boot_def clock_def set_limit_def run_simps cong: run_cong)

lemma demo_limited_states:
  "bw_known 2 (bws (snd demo_limited))"
  by (simp add: demo_limited_def boot_def run_simps bw_known_def bw_insert_def bw_find_def set_limit_def
      cong: run_cong)


end
