(* ===== verification/Tcp_Limits.thy ===== *)
theory Tcp_Limits
  imports Tcp_Types Tcp_Stream
begin

section \<open>The dispatcher sends no more than the limit allows\<close>

text \<open>
  The limiter divides what is left of the limit among the connections; the dispatcher
  reads each budget and gives it to the requests of the connection.  Here the two are put
  together: all that a pass over the queued requests makes the kernel take, with what was
  sent in the last second, is within the limit.
\<close>

subsection \<open>What the kernel took\<close>

fun taken :: "event \<Rightarrow> nat" where
  "taken (Os (Send d bs), r) = nat (rv r)"
| "taken e = 0"

definition sent_total :: "('w, 'z) outside_scheme \<Rightarrow> nat" where
  "sent_total s = (\<Sum>e\<leftarrow>trace s. taken e)"

lemma sent_total_call [simp]:
  "sent_total (s\<lparr>world := w, trace := trace s @ [e]\<rparr>) = sent_total s + taken e"
  by (simp add: sent_total_def)

text \<open>Budgets of the connections \<open>K\<close>, which the limiter knows, stay as they are.\<close>

definition all_known :: "addr set \<Rightarrow> bwstop \<Rightarrow> bool" where
  "all_known K b \<longleftrightarrow> map_ok (states b) \<and> (\<forall>k \<in> K. bw_known k b)"

definition budgets_kept :: "addr set \<Rightarrow> bwstop \<Rightarrow> bwstop \<Rightarrow> bool" where
  "budgets_kept K b b' \<longleftrightarrow> (all_known K b \<longrightarrow>
     all_known K b' \<and> (\<forall>k \<in> K. bw_guess k b' = bw_guess k b))"

lemma budgets_refl [simp]: "budgets_kept K b b"
  by (simp add: budgets_kept_def)

lemma budgets_trans: "budgets_kept K a b \<Longrightarrow> budgets_kept K b c \<Longrightarrow> budgets_kept K a c"
  by (simp add: budgets_kept_def)

lemma budgets_off: "budgets_kept K b (bw_off p b)"
  by (auto simp: budgets_kept_def all_known_def bw_known_def bw_guess_def bw_off_def map_find_modify
      split: option.splits)

lemma budgets_insert: "budgets_kept K b (bw_insert p n now b)"
proof -
  have "bw_known k b \<Longrightarrow> map_ok (states b) \<Longrightarrow>
      map_find k (states (bw_find p b)) = map_find k (states b)" for k
    by (auto simp: bw_known_def bw_find_def map_find_insert)
  moreover have "map_ok (states b) \<Longrightarrow> map_ok (states (bw_find p b))"
    by (simp add: bw_find_def)
  ultimately show ?thesis
    by (auto simp: budgets_kept_def all_known_def bw_known_def bw_guess_def bw_insert_def Let_def
        map_find_modify split: option.splits)
qed

definition calm :: "addr set \<Rightarrow> ('w, 'z) tcp_scheme \<Rightarrow> ('w, 'z) tcp_scheme \<Rightarrow> bool" where
  "calm K s t \<longleftrightarrow> sent_total t = sent_total s \<and> budgets_kept K (bws s) (bws t)"

lemma calm_trans: "calm K s t \<Longrightarrow> calm K t u \<Longrightarrow> calm K s u"
  unfolding calm_def using budgets_trans by fastforce

lemma calm_same: "trace t = trace s \<Longrightarrow> bws t = bws s \<Longrightarrow> calm K s t"
  by (simp add: calm_def sent_total_def)

lemma finish_send_calm: "wp (finish_send ext sr v m) (\<lambda>_. calm K s) (\<lambda>_. calm K s) s"
  for s :: "('w, 'z) tcp_scheme"
  unfolding finish_send_def send_callback_def send_release_def destroy_send_def conn_release_def destroy_conn_def
  by (auto simp: wp_simps wp_eta calm_def sent_total_def split: option.split)

lemma limiter_calm:
  fixes s :: "('w, 'z) tcp_scheme"
  shows "wp (limiter_insert ext p n) (\<lambda>_. calm K s) (\<lambda>_. calm K s) s"
    and "wp (limiter_update (bw_off p)) (\<lambda>_. calm K s) (\<lambda>_. calm K s) s"
  using budgets_insert budgets_off
  by (auto simp: limiter_insert_def limiter_update_def wp_simps calm_def sent_total_def)

text \<open>Composition: what is calm from the state reached is calm from the start.\<close>

lemma calm_wp:
  assumes "calm K s t" and "wp m (\<lambda>_. calm K t) (\<lambda>_. calm K t) t"
  shows "wp m (\<lambda>_. calm K s) (\<lambda>_. calm K s) t"
  using assms by (auto intro: wp_mono calm_trans)

lemma calm_seq:
  assumes "wp m (\<lambda>_. calm K s) (\<lambda>_. calm K s) s"
    and "\<And>x t. wp (f x) (\<lambda>_. calm K t) (\<lambda>_. calm K t) t"
  shows "wp (bnd m f) (\<lambda>_. calm K s) (\<lambda>_. calm K s) s"
  unfolding wp_bnd using assms by (auto intro: wp_mono calm_wp)

lemma calm_ret: "wp (ret x) (\<lambda>_. calm K s) (\<lambda>_. calm K s) s"
  by (simp add: wp_simps calm_same)

lemma calm_whenever:
  "wp m (\<lambda>_. calm K s) (\<lambda>_. calm K s) s \<Longrightarrow> wp (whenever b m) (\<lambda>_. calm K s) (\<lambda>_. calm K s) s"
  by (simp add: wp_simps calm_same)

lemma calm_deref: "wp (deref h p) (\<lambda>_. calm K s) (\<lambda>_. calm K s) s"
  by (simp add: wp_simps calm_same split: option.split)

lemma calm_set_send: "wp (set_send p f) (\<lambda>_. calm K s) (\<lambda>_. calm K s) s"
  for s :: "('w, 'z) tcp_scheme"
  by (simp add: wp_simps calm_same split: option.split)

lemmas calm_intros = calm_seq calm_ret calm_whenever calm_deref calm_set_send finish_send_calm limiter_calm

lemma sent_some_calm: "wp (sent_some ext sr p sts n) (\<lambda>_. calm K s) (\<lambda>_. calm K s) s"
  for s :: "('w, 'z) tcp_scheme"
  unfolding sent_some_def andthen_def Let_def by (intro calm_intros)

subsection \<open>Budgets are spent once\<close>

definition spends :: "addr set \<Rightarrow> nat \<Rightarrow> ('w, 'z) tcp_scheme \<Rightarrow> ('w, 'z) tcp_scheme \<Rightarrow> bool" where
  "spends K n s t \<longleftrightarrow> sent_total t \<le> sent_total s + n \<and> budgets_kept K (bws s) (bws t)"

definition spent :: "addr set \<Rightarrow> u32 \<Rightarrow> ('w, 'z) tcp_scheme \<Rightarrow> u32 option \<Rightarrow> ('w, 'z) tcp_scheme \<Rightarrow> bool" where
  "spent K g s g' t \<longleftrightarrow> (\<exists>h. g' = Some h \<and> sent_total t + unat h \<le> sent_total s + unat g)
     \<and> budgets_kept K (bws s) (bws t)"

lemma spends_refl: "spends K n s s"
  by (simp add: spends_def)

lemma send_failed_calm:
  fixes s :: "('w, 'z) tcp_scheme"
  assumes "rv r = -1"
  shows "wp (send_answered ext sr p sts budget r) (\<lambda>(_, g') t. g' = budget \<and> calm K s t) (\<lambda>_. calm K s) s"
proof -
  have fin: "wp (finish_send ext sr False ''sending's_not_finished.'')
      (\<lambda>_. calm K s) (\<lambda>_. calm K s) t" if "calm K s t" for t
    by (rule calm_wp [OF that finish_send_calm])
  show ?thesis
    unfolding send_answered_def using assms
    by (auto simp: wp_andthen wp_if wp_ret_eta intro!: wp_mono [OF limiter_calm(2)] wp_mono [OF fin])
qed

lemma send_took_calm:
  fixes s :: "('w, 'z) tcp_scheme"
  assumes "rv r \<noteq> -1"
  shows "wp (send_answered ext sr p sts budget r)
     (\<lambda>(_, g') t. g' = map_option (\<lambda>g. g - word_of_int (rv r)) budget \<and> calm K s t) (\<lambda>_. calm K s) s"
  unfolding send_answered_def using assms
  by (simp add: wp_bnd wp_ret_eta wp_mono [OF sent_some_calm])

lemma send_answered_spent:
  fixes s :: "('w, 'z) tcp_scheme"
  assumes "rv r = -1 \<or> 0 \<le> rv r \<and> rv r \<le> int (unat g)"
    and "sent_total s = sent_total s0 + nat (rv r)" and "bws s = bws s0"
  shows "wp (send_answered ext sr p sts (Some g) r) (\<lambda>(_, g') t. spent K g s0 g' t)
     (\<lambda>_. spends K (unat g) s0) s"
proof (cases "rv r = -1")
  case True
  show ?thesis
    by (rule wp_mono [OF send_failed_calm [OF True]])
      (use assms(2,3) True in \<open>auto simp: spent_def spends_def calm_def\<close>)
next
  case False
  with assms(1) have n: "0 \<le> rv r" "rv r \<le> int (unat g)" by auto
  define k where "k = nat (rv r)"
  have k: "k \<le> unat g" using n(2) unfolding k_def by (simp only: nat_le_iff)
  have w: "word_of_int (rv r) = (of_nat k :: u32)" using n by (simp add: k_def)
  have "unat (of_nat k :: u32) = k"
    using k unsigned_less [where 'b = 32 and 'a = nat, of g] by (simp add: unat_of_nat)
  then have "unat (g - word_of_int (rv r)) + nat (rv r) = unat g"
    using k w by (simp add: unat_sub word_le_nat_alt flip: k_def)
  then show ?thesis
    by (intro wp_mono [OF send_took_calm [OF False]])
      (use assms(2,3) n in \<open>auto simp: spent_def spends_def calm_def\<close>)
qed

lemma send_size_budget: "unat (send_size q (Some g)) \<le> unat g"
  by (auto simp: send_size_def Let_def not_less word_le_nat_alt)

lemma do_send_spent:
  fixes s :: "('w, 'z) tcp_scheme"
  assumes "kernel_send ext"
  shows "wp (do_send ext sr (Some g)) (\<lambda>(_, g') t. spent K g s g' t) (\<lambda>_. spends K (unat g) s) s"
proof -
  have "wp (bnd (call ext (Os (Send d (take (unat sts) bs)))) (send_answered ext sr p sts (Some g)))
      (\<lambda>(_, g') t. spent K g s g' t) (\<lambda>_. spends K (unat g) s) s"
    if "unat sts \<le> unat g" for d sts bs p
  proof -
    let ?c = "Os (Send d (take (unat sts) bs))"
    let ?r = "fst (ext ?c (world s))"
    have "int (length (take (unat sts) bs)) \<le> int (unat g)"
      using that by (simp add: of_nat_le_iff del: of_nat_unat)
    with assms [unfolded kernel_send_def, rule_format, of d "take (unat sts) bs" "world s"]
    have "rv ?r = -1 \<or> 0 \<le> rv ?r \<and> rv ?r \<le> int (unat g)" by linarith
    then show ?thesis unfolding wp_bnd wp_call by (rule send_answered_spent) simp_all
  qed
  moreover have "spent K g s (Some g) s" by (simp add: spent_def)
  moreover have "spends K (unat g) s s" by (simp add: spends_def)
  ultimately show ?thesis
    by (simp add: do_send_def Let_def wp_bnd wp_deref wp_if wp_ret send_size_budget split: option.split)
qed

lemma sends_pass_spends:
  fixes s :: "('w, 'z) tcp_scheme"
  assumes "kernel_send ext"
  shows "wp (sends_pass ext (Some g) srs) (\<lambda>_. spends K (unat g) s) (\<lambda>_. spends K (unat g) s) s"
proof (induction srs arbitrary: g s)
  case Nil
  then show ?case by (simp add: wp_simps spends_def)
next
  case (Cons sr srs)
  have "wp (do_send ext sr (Some g)) (\<lambda>(done, g'). wp (if done then ret srs
        else bnd (sends_pass ext g' srs) (\<lambda>rest. ret (sr # rest)))
      (\<lambda>_. spends K (unat g) s) (\<lambda>_. spends K (unat g) s)) (\<lambda>_. spends K (unat g) s) s"
  proof (rule wp_mono [OF do_send_spent [OF assms]])
    fix x :: "bool \<times> u32 option" and t :: "('w, 'z) tcp_scheme"
    assume x: "(\<lambda>(_, g') t. spent K g s g' t) x t"
    obtain dn g' where e: "x = (dn, g')" by (cases x)
    from x e obtain h where h: "g' = Some h" "sent_total t + unat h \<le> sent_total s + unat g"
      "budgets_kept K (bws s) (bws t)" by (auto simp: spent_def)
    have "spends K (unat h) t u \<Longrightarrow> spends K (unat g) s u" for u
      using h budgets_trans by (fastforce simp: spends_def)
    with Cons [of h t] h
    show "(\<lambda>(done, g'). wp (if done then ret srs
        else bnd (sends_pass ext g' srs) (\<lambda>rest. ret (sr # rest)))
      (\<lambda>_. spends K (unat g) s) (\<lambda>_. spends K (unat g) s)) x t"
      using e by (auto simp: wp_simps wp_ret_eta spends_def elim!: wp_mono)
  qed
  then show ?case by (simp add: wp_bnd case_prod_beta')
qed

lemma serve_spends:
  fixes s :: "('w, 'z) tcp_scheme"
  assumes "kernel_send ext"
  shows "wp (serve ext (Some g) p) (\<lambda>_. spends K (unat g) s) (\<lambda>_. spends K (unat g) s) s"
proof -
  have "wp (sends_pass ext (Some g) srs) (\<lambda>rest t. spends K (unat g) s
      (t\<lparr>outgoings := map_modify p (\<lambda>_. rest) (outgoings t)\<rparr>)) (\<lambda>_. spends K (unat g) s) s" for srs
    by (rule wp_mono [OF sends_pass_spends [OF assms]]) (simp_all add: spends_def sent_total_def)
  then show ?thesis
    by (simp add: serve_def wp_bnd wp_gets wp_ret wp_modify_eta spends_refl split: option.split)
qed

lemma serve_all_spends:
  fixes s :: "('w, 'z) tcp_scheme"
  assumes "kernel_send ext" and "set ps \<subseteq> K" and "all_known K (bws s)"
  shows "wp (for_each (\<lambda>p. bnd (gets (\<lambda>s. bw_guess p (bws s))) (\<lambda>g. serve ext (Some g) p)) ps)
     (\<lambda>_. spends K (\<Sum>p\<leftarrow>ps. unat (bw_guess p (bws s))) s)
     (\<lambda>_. spends K (\<Sum>p\<leftarrow>ps. unat (bw_guess p (bws s))) s) s"
  using assms(2,3)
proof (induction ps arbitrary: s)
  case (Cons p ps)
  let ?n = "\<Sum>p\<leftarrow>p # ps. unat (bw_guess p (bws s))"
  have "wp (serve ext (Some (bw_guess p (bws s))) p) (\<lambda>_. wp (for_each (\<lambda>p. bnd (gets (\<lambda>s. bw_guess p (bws s)))
      (\<lambda>g. serve ext (Some g) p)) ps) (\<lambda>_. spends K ?n s) (\<lambda>_. spends K ?n s)) (\<lambda>_. spends K ?n s) s"
  proof (rule wp_mono [OF serve_spends [OF assms(1)]])
    fix t :: "('w, 'z) tcp_scheme"
    assume t: "spends K (unat (bw_guess p (bws s))) s t"
    then have k: "all_known K (bws t)" "\<And>q. q \<in> set ps \<Longrightarrow> bw_guess q (bws t) = bw_guess q (bws s)"
      using Cons.prems by (auto simp: spends_def budgets_kept_def)
    have "(\<Sum>p\<leftarrow>ps. unat (bw_guess p (bws t))) = (\<Sum>p\<leftarrow>ps. unat (bw_guess p (bws s)))"
      using k(2) by (simp cong: map_cong)
    then have "spends K (\<Sum>p\<leftarrow>ps. unat (bw_guess p (bws t))) t u \<Longrightarrow> spends K ?n s u" for u
      using t budgets_trans by (fastforce simp: spends_def)
    then show "wp (for_each (\<lambda>p. bnd (gets (\<lambda>s. bw_guess p (bws s)))
        (\<lambda>g. serve ext (Some g) p)) ps) (\<lambda>_. spends K ?n s) (\<lambda>_. spends K ?n s) t"
      using Cons.IH [of t] Cons.prems(1) k(1) by (auto elim!: wp_mono)
  qed (auto simp: spends_def)
  then show ?case by (simp add: wp_simps)
qed (simp add: wp_simps spends_def)

subsection \<open>A whole pass\<close>

lemma map_ok_distinct: "map_ok m \<Longrightarrow> distinct (map_keys m)"
  by (simp add: map_ok_def strict_sorted_iff)

lemma sum_found_le:
  fixes f :: "'v \<Rightarrow> nat" and m :: "(addr, 'v) std_map"
  assumes "map_ok m" and "distinct ks"
  shows "(\<Sum>k\<leftarrow>ks. case map_find k m of Some v \<Rightarrow> f v | None \<Rightarrow> 0) \<le> (\<Sum>v\<leftarrow>map snd m. f v)"
proof -
  define g where "g k = (case map_find k m of Some v \<Rightarrow> f v | None \<Rightarrow> 0)" for k
  have d: "distinct (map_keys m)" using assms(1) by (rule map_ok_distinct)
  have z: "g k = 0" if "k \<notin> set (map_keys m)" for k
    using that by (simp add: g_def map_find_None_iff [symmetric])
  have "(\<Sum>k\<leftarrow>ks. g k) = sum g (set ks)" using assms(2) by (simp add: sum_list_distinct_conv_sum_set)
  also have "\<dots> = sum g (set ks \<inter> set (map_keys m))"
    by (rule sum.mono_neutral_right) (auto simp: z)
  also have "\<dots> \<le> sum g (set (map_keys m))" by (rule sum_mono2) auto
  also have "\<dots> = (\<Sum>k\<leftarrow>map_keys m. g k)" using d by (simp add: sum_list_distinct_conv_sum_set)
  also have "\<dots> = (\<Sum>v\<leftarrow>map snd m. f v)"
  proof -
    have "g (fst e) = f (snd e)" if "e \<in> set m" for e
      using map_find_in [OF assms(1), of "fst e" "snd e"] that by (simp add: g_def)
    then have "map (g \<circ> fst) m = map (f \<circ> snd) m" by (intro map_cong) auto
    then show ?thesis by (simp only: map_keys_def map_map)
  qed
  finally show ?thesis by (simp add: g_def)
qed

lemma budgets_sum:
  assumes "map_ok (states b)" and "distinct ks"
  shows "(\<Sum>k\<leftarrow>ks. unat (bw_guess k b)) \<le> (\<Sum>st\<leftarrow>map snd (states b). unat (guess st))"
proof -
  have "unat (bw_guess k b) = (case map_find k (states b) of Some st \<Rightarrow> unat (guess st) | None \<Rightarrow> 0)" for k
    by (simp add: bw_guess_def split: option.split)
  with sum_found_le [OF assms, of "\<lambda>st. unat (guess st)"] show ?thesis by simp
qed

lemma recalc_known:
  assumes "all_known K b" shows "all_known K (snd (recalc ub now b))"
proof -
  have k: "map_keys (states (snd (recalc ub now b))) = map_keys (states b)"
    by (rule recalc_states_shape(1) [OF prod.collapse [symmetric]])
  with assms show ?thesis
    unfolding all_known_def bw_known_def map_ok_def map_find_None_iff by simp
qed

lemma recalc_over:
  assumes "max_bw b \<noteq> 0" and "total_bytes_in (since_of now) b < 2 ^ 32"
    and "unat (max_bw b) < total_bytes_in (since_of now) b"
  shows "fst (recalc ub now b)"
proof -
  obtain mb mc where f: "fold min_step (refreshed (since_of now) b) (max_bw b, 0) = (mb, mc)"
    by (cases "fold min_step (refreshed (since_of now) b) (max_bw b, 0)")
  have "unat (window_total (since_of now) b) = total_bytes_in (since_of now) b"
    using assms(2) by (simp add: window_total_nat unat_of_nat)
  with assms(3) show ?thesis
    by (simp add: recalc_eq [OF assms(1) refl refl f refl refl] word_less_nat_alt)
qed

lemma shared_budgets:
  assumes "all_known (set ks) b" and "distinct ks" and "max_bw b \<noteq> 0"
    and "0 < total_bytes_in (since_of now) b" and "length (states b) < 2 ^ 19"
    and "total_bytes_in (since_of now) b < 2 ^ 32" and "\<not> fst (recalc ub now b)"
  shows "(\<Sum>k\<leftarrow>ks. unat (bw_guess k (snd (recalc ub now b))))
    \<le> unat (max_bw b) - total_bytes_in (since_of now) b"
proof -
  have "total_bytes_in (since_of now) b \<le> unat (max_bw b)"
    using recalc_over [OF assms(3,6)] assms(7) by (meson not_less)
  from recalc_within_limit(2) [OF refl assms(4) this assms(5), of ub]
  have "(\<Sum>st\<leftarrow>map snd (states (snd (recalc ub now b))). unat (guess st))
    \<le> unat (max_bw b) - total_bytes_in (since_of now) b" by linarith
  with budgets_sum [OF _ assms(2), of "snd (recalc ub now b)"] recalc_known [OF assms(1), of ub now]
  show ?thesis by (fastforce simp: all_known_def)
qed

lemma idle_pass_spends:
  fixes s :: "('w, 'z) tcp_scheme"
  assumes "kernel_send ext" and "map_ok (outgoings s)"
    and known: "all_known (set (map_keys (outgoings s))) (bws s)"
    and now: "now = r_time (fst (ext (Os Ftime) (world s)))" and lim: "max_bw (bws s) \<noteq> 0"
    and "0 < total_bytes_in (since_of now) (bws s)" and "total_bytes_in (since_of now) (bws s) < 2 ^ 32"
    and "length (states (bws s)) < 2 ^ 19"
    and n: "n = unat (max_bw (bws s)) - total_bytes_in (since_of now) (bws s)"
  shows "wp (idle_pass ext ub) (\<lambda>_ t. sent_total t \<le> sent_total s + n)
     (\<lambda>_ t. sent_total t \<le> sent_total s + n) s"
proof -
  let ?ks = "map_keys (outgoings s)" and ?b = "snd (recalc ub now (bws s))"
  let ?s = "s\<lparr>world := snd (ext (Os Ftime) (world s)),
      trace := trace s @ [(Os Ftime, fst (ext (Os Ftime) (world s)))], bws := ?b\<rparr>"
  have same: "sent_total ?s = sent_total s" by (simp add: sent_total_def)
  have "wp (for_each (\<lambda>p. bnd (gets (\<lambda>s. bw_guess p (bws s))) (\<lambda>g. serve ext (Some g) p)) ?ks)
      (\<lambda>_ t. sent_total t \<le> sent_total s + n) (\<lambda>_ t. sent_total t \<le> sent_total s + n) ?s"
    if "\<not> fst (recalc ub now (bws s))"
  proof -
    have "(\<Sum>k\<leftarrow>?ks. unat (bw_guess k (bws ?s))) \<le> n"
      using shared_budgets [OF known map_ok_distinct [OF assms(2)] lim assms(6,8,7) that] n by simp
    then show ?thesis
      using recalc_known [OF known, of ub now] same
      by (intro wp_mono [OF serve_all_spends [OF assms(1) subset_refl]]) (auto simp: spends_def)
  qed
  then show ?thesis
    using lim same now
    by (auto simp: idle_pass_def is_enable_def limiter_recalc_def limiter_update_def wp_simps)
qed


text \<open>A connection with a request of five bytes, and a limit of which 40 of 100 bytes are used.\<close>

fun late_sim :: "sim_world ext" where
  "late_sim (Os Ftime) w = ((plain_reply 0)\<lparr>r_time := \<lparr>tb_time = 10, tb_millitm = 5\<rparr>\<rparr>, w)"
| "late_sim c w = sim c w"

definition limited_state :: "sim_world tcp" where
  "limited_state = (empty_base (9, [], []))\<lparr>
     trace := [(Os Ftime, (plain_reply 0)\<lparr>r_time := \<lparr>tb_time = 10, tb_millitm = 0\<rparr>\<rparr>)],
     conn_heap := [7 \<mapsto> (new_conn_struct 8 demo_callbacks)\<lparr>conn_st := Cs_connected\<rparr>],
     send_heap := [8 \<mapsto> \<lparr>send_iov = \<lparr>iov_sock = 8, iov_code = FD_WRITE, iov_conn = 7\<rparr>, break_sem = Some 0,
       total_bytes = 5, sent_bytes = 0, sent_cb = None, send_data = [1, 2, 3, 4, 5]\<rparr>],
     last_addr := 8, outgoings := [(7, [8])], bws := sample_bwstop\<rparr>"

lemma late_sim_kernel: "kernel_send late_sim"
  by (simp add: kernel_send_def plain_reply_def)

lemma limited_typed: "tcp_typed limited_state"
  by (auto simp: tcp_typed_def limited_state_def sample_bwstop_def limiter_ok_def state_ok_def map_ok_def
      in_time_order_def clock_def after_clock_def)


subsection \<open>A connection older than the limit\<close>

text \<open>The requests of a connection that is still open, in the queue.\<close>

definition waiting_requests :: "addr list \<Rightarrow> ('w, 'z) tcp_scheme \<Rightarrow> bool" where
  "waiting_requests srs s \<longleftrightarrow> (\<forall>sr \<in> set srs. sr \<noteq> 0 \<and> (\<exists>q c. send_heap s sr = Some q \<and>
     iov_conn (send_iov q) \<noteq> 0 \<and> conn_heap s (iov_conn (send_iov q)) = Some c \<and> conn_st c \<noteq> Cs_closed))"

lemma no_budget_nothing:
  assumes "waiting_requests srs s"
  shows "sends_pass ext (Some 0) srs s = (Inr srs, s)"
  using assms
proof (induction srs)
  case (Cons sr srs)
  then obtain q c where q: "sr \<noteq> 0" "send_heap s sr = Some q" "iov_conn (send_iov q) \<noteq> 0"
    "conn_heap s (iov_conn (send_iov q)) = Some c" "conn_st c \<noteq> Cs_closed"
    by (auto simp: waiting_requests_def)
  have "send_size q (Some 0) = 0" using word_neq_0_conv by (fastforce simp: send_size_def Let_def)
  from do_send_nothing [OF q this, of ext] Cons show ?case
    by (simp add: bnd_def ret_def waiting_requests_def)
qed (simp add: ret_def)

lemma map_modify_same: "map_find p m = Some v \<Longrightarrow> map_modify p (\<lambda>_. v) m = m"
  by (induction m) (auto split: if_splits)

text \<open>
  C31: A connection that the limiter does not know, because it was established before the
  limit was set, never sends again while there is a limit: its budget is 0, a pass over
  its requests does nothing and calls nothing, and neither readiness of its socket nor
  the recalculation before a pass makes it known.
\<close>

theorem unknown_connection_starves:
  fixes s :: "('w, 'z) tcp_scheme"
  assumes "\<not> bw_known p (bws s)" and "map_find p (outgoings s) = Some srs" and "waiting_requests srs s"
  shows "serve ext (Some (bw_guess p (bws s))) p s = (Inr (), s)
    \<and> \<not> bw_known p (bw_on p (bws s)) \<and> \<not> bw_known p (snd (recalc ub now (bws s)))"
proof -
  have g: "bw_guess p (bws s) = 0" using assms(1) by (simp add: bw_known_def bw_guess_def)
  have "map_keys (states (snd (recalc ub now (bws s)))) = map_keys (states (bws s))"
    by (rule recalc_states_shape(1) [OF prod.collapse [symmetric]])
  then have "\<not> bw_known p (snd (recalc ub now (bws s)))"
    using assms(1) by (simp add: bw_known_def map_find_None_iff)
  moreover have "\<not> bw_known p (bw_on p (bws s))"
    using assms(1) by (simp add: bw_known_def bw_on_def map_find_modify)
  moreover have "s\<lparr>outgoings := map_modify p (\<lambda>_. srs) (outgoings s)\<rparr> = s"
    using map_modify_same [OF assms(2)] by simp
  ultimately show ?thesis
    using no_budget_nothing [OF assms(3), of ext] assms(2) g
    by (simp add: serve_def bnd_def gets_def modify_def)
qed

theorem unknown_connection_starves_witness:
  "serve late_sim (Some 0) 7 (limited_state\<lparr>bws := set_limit 100 (new_bwstop 0 \<lparr>tb_time = 0, tb_millitm = 0\<rparr> 0)\<rparr>)
     = (Inr (), limited_state\<lparr>bws := set_limit 100 (new_bwstop 0 \<lparr>tb_time = 0, tb_millitm = 0\<rparr> 0)\<rparr>)"
  using unknown_connection_starves [of 7 "limited_state\<lparr>bws := set_limit 100 (new_bwstop 0 \<lparr>tb_time = 0, tb_millitm = 0\<rparr> 0)\<rparr>"
      "[8]" late_sim "\<lambda>_. 0" "\<lparr>tb_time = 10, tb_millitm = 5\<rparr>"]
  by (simp add: limited_state_def waiting_requests_def set_limit_def new_bwstop_def bw_known_def bw_guess_def)

end
