(* ===== verification/Lifecycle.thy ===== *)
theory Lifecycle
  imports Contract
begin

section \<open>The life of a connection, as itcp_dispatcher.h tells it\<close>

text \<open>
  The abstract specification of what a user sees of a connection: the scenarios at the top
  of \<open>itcp_dispatcher.h\<close> and the comments of \<open>callbacks_t\<close> as a machine with three states,
  whose steps are calls of the user's callbacks.  A dispatcher implements it when the
  state it keeps of a connection, mapped to the machine, moves along the callbacks that
  each of its steps makes.
\<close>

datatype life = Unborn | Alive | Dead

inductive life_step :: "addr \<Rightarrow> life \<Rightarrow> ext_call \<Rightarrow> life \<Rightarrow> bool" for p :: addr where
  connects: "life_step p Unborn (User (Cb_connected p cb True)) Alive"
| fails: "life_step p Unborn (User (Cb_connected p cb False)) Dead"
| accepts: "life_step p Unborn (User (Cb_accepted p cb)) Alive"
| reads: "l \<noteq> Dead \<Longrightarrow> life_step p l (User (Cb_read p cb data)) l"
| closes: "life_step p Alive (User (Cb_closed p cb)) Dead"

fun life_path :: "addr \<Rightarrow> life \<Rightarrow> ext_call list \<Rightarrow> life \<Rightarrow> bool" where
  "life_path p l [] l' \<longleftrightarrow> l = l'"
| "life_path p l (k # ks) l' \<longleftrightarrow> (\<exists>m. life_step p l k m \<and> life_path p m ks l')"

inductive_cases dead_stepE [elim!]: "life_step p Dead k l"
inductive_cases alive_stepE: "life_step p Alive k l"

lemma alive_step: "life_step p Alive k l \<Longrightarrow>
    (\<exists>cb d. k = User (Cb_read p cb d)) \<and> l = Alive \<or> (\<exists>cb. k = User (Cb_closed p cb)) \<and> l = Dead"
  by (auto elim: alive_stepE)

text \<open>The scenarios the machine allows, written out.\<close>

lemma dead_path: "life_path p Dead ks l \<Longrightarrow> ks = [] \<and> l = Dead"
  by (cases ks) auto

lemma alive_path:
  "life_path p Alive ks l \<Longrightarrow> \<exists>rs. (\<forall>r \<in> set rs. \<exists>cb d. r = User (Cb_read p cb d)) \<and>
     (ks = rs \<and> l = Alive \<or> (\<exists>cb. ks = rs @ [User (Cb_closed p cb)] \<and> l = Dead))"
proof (induction ks)
  case Nil
  then show ?case by (intro exI [of _ "[]"]) auto
next
  case (Cons k ks)
  then obtain m where m: "life_step p Alive k m" "life_path p m ks l" by auto
  from alive_step [OF m(1)] show ?case
  proof
    assume k: "(\<exists>cb d. k = User (Cb_read p cb d)) \<and> m = Alive"
    with m(2) Cons.IH obtain rs where rs: "\<forall>r \<in> set rs. \<exists>cb d. r = User (Cb_read p cb d)"
      "ks = rs \<and> l = Alive \<or> (\<exists>cb. ks = rs @ [User (Cb_closed p cb)] \<and> l = Dead)" by auto
    then show ?thesis using k by (intro exI [of _ "k # rs"]) auto
  next
    assume "(\<exists>cb. k = User (Cb_closed p cb)) \<and> m = Dead"
    with m(2) dead_path [of p ks l] show ?thesis by (intro exI [of _ "[]"]) auto
  qed
qed

subsection \<open>The automaton of the protocol implements it\<close>

fun life_of :: "phase \<Rightarrow> life" where
  "life_of Fresh = Unborn"
| "life_of Up = Alive"
| "life_of ph = Dead"

lemma phase_step_life:
  "callback_of p k \<Longrightarrow> phase_step p ph k \<noteq> Broken \<Longrightarrow>
     life_step p (life_of ph) k (life_of (phase_step p ph k))"
  by (induction p ph k rule: phase_step.induct)
    (auto intro: life_step.intros split: if_splits)

lemma phases_life:
  "foldl (phase_step p) ph ks \<noteq> Broken \<Longrightarrow>
     life_path p (life_of ph) (filter (callback_of p) ks) (life_of (foldl (phase_step p) ph ks))"
proof (induction ks arbitrary: ph)
  case (Cons k ks)
  have "phase_step p ph k \<noteq> Broken" using Cons.prems broken_stays [of p ks] by auto
  with Cons phase_step_life [of p k ph] show ?case
    by (cases "callback_of p k") (auto simp: phase_step_other)
qed simp

text \<open>What a connection object says of its life.\<close>

definition conn_life :: "conn \<Rightarrow> life" where
  "conn_life c = (case conn_st c of Cs_wait4connect \<Rightarrow> Unborn | Cs_connected \<Rightarrow> Alive | Cs_closed \<Rightarrow> Dead)"

lemma agrees_life: "agrees c ph \<Longrightarrow> life_of ph = conn_life c"
  by (auto simp: conn_life_def split: conn_state.splits)

lemma proto_simulates:
  assumes "proto s" and "proto t" and "calls t = calls s @ ks"
    and "conn_heap s p = Some c" and "conn_heap t p = Some c'"
  shows "life_path p (conn_life c) (filter (callback_of p) ks) (conn_life c')"
proof -
  have a: "agrees c (phase_of p (calls s))" "agrees c' (phase_of p (calls t))"
    "phase_of p (calls t) \<noteq> Broken"
    using assms(1,2,4,5) by (auto simp: proto_def safe_def)
  have "phase_of p (calls t) = foldl (phase_step p) (phase_of p (calls s)) ks"
    using assms(3) by (simp add: phase_of_def)
  with phases_life [of p "phase_of p (calls s)" ks] a show ?thesis by (simp add: agrees_life)
qed

lemma proto_born:
  assumes "proto s" and "conn_heap s p = Some c"
  shows "life_path p Unborn (filter (callback_of p) (calls s)) (conn_life c)"
proof -
  have "agrees c (phase_of p (calls s))" "phase_of p (calls s) \<noteq> Broken"
    using assms by (auto simp: proto_def safe_def)
  with phases_life [of p Fresh "calls s"] show ?thesis by (simp add: agrees_life phase_of_def)
qed

end
