(* ===== verification/Tcp_Lifecycle.thy ===== *)
theory Tcp_Lifecycle
  imports Tcp_Properties Lifecycle
begin

section \<open>The Linux dispatcher implements the life of a connection\<close>

text \<open>What a run has called is never taken back: every step extends the trace.\<close>

definition extends :: "('w, 'z) outside_scheme \<Rightarrow> ('w, 'z) outside_scheme \<Rightarrow> bool" where
  "extends s t \<longleftrightarrow> (\<exists>es. trace t = trace s @ es)"

interpretation exa: tcp_any_frame "extends :: ('w, 'z) tcp_scheme \<Rightarrow> ('w, 'z) tcp_scheme \<Rightarrow> bool"
  by unfold_locales (auto simp: extends_def)

interpretation exs: send_frame "extends :: ('w, 'z) tcp_scheme \<Rightarrow> ('w, 'z) tcp_scheme \<Rightarrow> bool"
  by unfold_locales (auto simp: extends_def)

interpretation exc: conn_frame "extends :: ('w, 'z) tcp_scheme \<Rightarrow> ('w, 'z) tcp_scheme \<Rightarrow> bool"
  by unfold_locales (auto simp: extends_def)

interpretation exr: reading_frame "extends :: ('w, 'z) tcp_scheme \<Rightarrow> ('w, 'z) tcp_scheme \<Rightarrow> bool"
  by unfold_locales (auto simp: extends_def)

interpretation ex: tcp_all_frame "extends :: ('w, 'z) tcp_scheme \<Rightarrow> ('w, 'z) tcp_scheme \<Rightarrow> bool"
  by unfold_locales (auto simp: extends_def)

lemma api_extends: "exa.keeps (run_api ext self a)"
proof (cases a)
qed (auto simp: discard_def release_def addref_def release_send_def stop_accepting_def
    set_bandwidth_def dtor_request_def intro!: exa.keeps_basic exa.keeps_interface ex.keeps_sending_interface
    exa.keeps_objects ex.keeps_connect_conn exa.keeps_post exa.keeps_set_limit exa.keeps_dtor_finish)

lemma thread_extends: "extends s (snd (thread_step ext ub fuel (th, s)))"
  using exa.keepsD [OF ex.keeps_wait_interrupt, of s ext fuel] exa.keepsD [OF ex.keeps_idle_pass, of s ext ub]
    exa.keepsD [OF ex.keeps_handle_entry, of s ext fuel] exa.refl [of s]
  by (cases "(ext, ub, fuel, th, s)" rule: thread_step.cases)
    (auto split: prod.splits sum.splits, (metis snd_conv)+)

lemma api_step_extends: "extends s (snd (api_step ext self a (th, s)))"
  using exa.keepsD [OF api_extends, of s ext self a] exa.refl [of s]
  by (cases th) (auto split: prod.split sum.split)

lemma step_extends:
  assumes "step ext ub (th, s) (th', t)"
  obtains ks where "calls t = calls s @ ks"
proof -
  from assms have "(\<exists>fuel. (th', t) = thread_step ext ub fuel (th, s)) \<or>
      (\<exists>self a. (th', t) = api_step ext self a (th, s))" by (cases rule: step.cases) auto
  then have "extends s t" using thread_extends api_step_extends by (metis snd_conv)
  with that show ?thesis by (auto simp: extends_def calls_def)
qed

lemma failed_stays: "step ext ub (Failed e, s) (th, t) \<Longrightarrow> th = Failed e"
  by (erule step.cases) auto

lemma running_proto:
  "reachable ext ub (th, s) \<Longrightarrow> (\<And>e. th \<noteq> Failed e) \<Longrightarrow> proto s"
  using protocol.reachable_holds [of ext ub "(th, s)"] by (auto simp: protocol.holds_def split: thread.splits)


text \<open>The step of a run in which a connection gets established.\<close>

definition demo_before :: "thread \<times> sim_world tcp" where
  "demo_before = play sim (\<lambda>_. 0) 1
     [Api_call (Api_connect 0 80 demo_callbacks), Thread_step, Thread_step, Thread_step, Thread_step]
     (boot sim 80 (7, [[wake_event], [ready_event 2 EPOLLOUT]], []))"

lemma demo_before_reachable: "reachable sim (\<lambda>_. 0) (fst demo_before, snd demo_before)"
  unfolding prod.collapse demo_before_def by (intro play_reachable boot_sim_reachable)

lemma demo_before_run:
  "map_option conn_st (conn_heap (snd demo_before) 2) = Some Cs_wait4connect"
  "fst (thread_step sim (\<lambda>_. 0) 1 demo_before) = Handling []"
  "map_option conn_st (conn_heap (snd (thread_step sim (\<lambda>_. 0) 1 demo_before)) 2) = Some Cs_connected"
  by (simp_all add: demo_before_def boot_def run_simps cong: run_cong)


end
