(* ===== verification/Closing.thy ===== *)
theory Closing
  imports Contract
begin

section \<open>The promise of close_conn_wait\<close>

text \<open>
  \<open>close_conn_wait\<close> returns after \<open>closed\<close> was called.  The semaphore that it waits for is
  posted by the dispatcher thread only, after the connection was closed: the invariant speaks
  about the semaphore and the history of calls; the relation \<open>unposted\<close> between states holds
  along everything that does not post a semaphore; what posts one closes the connection
  before.  The theories of the dispatchers use this for their steps.
\<close>

subsection \<open>Everything else posts no semaphore\<close>

definition unposted :: "('w, 'z) base_scheme \<Rightarrow> ('w, 'z) base_scheme \<Rightarrow> bool" where
  "unposted s t \<longleftrightarrow> (\<exists>ks. calls t = calls s @ ks) \<and>
     (\<forall>p c'. conn_heap t p = Some c' \<longrightarrow> 0 < close_sem c' \<longrightarrow>
       (\<exists>c. conn_heap s p = Some c \<and> 0 < close_sem c))"

lemma unpostedI:
  assumes "calls t = calls s @ ks"
    and "\<And>p c'. conn_heap t p = Some c' \<Longrightarrow> 0 < close_sem c' \<Longrightarrow>
      \<exists>c. conn_heap s p = Some c \<and> 0 < close_sem c"
  shows "unposted s t"
  using assms unfolding unposted_def by blast

lemma unposted_same: "trace t = trace s \<Longrightarrow> conn_heap t = conn_heap s \<Longrightarrow> unposted s t"
  by (rule unpostedI [where ks = "[]"]) (simp_all add: calls_def)

lemma unposted_call: "unposted s (s\<lparr>world := w, trace := trace s @ [(k, r)]\<rparr>)"
  by (rule unpostedI [where ks = "[k]"]) (simp_all add: calls_def)

lemma unposted_conn:
  "conn_heap s p = Some c \<Longrightarrow> close_sem c' \<le> close_sem c \<Longrightarrow>
   unposted s (s\<lparr>conn_heap := (conn_heap s)(p \<mapsto> c')\<rparr>)"
  by (rule unpostedI [where ks = "[]"]) (auto simp: calls_def split: if_splits)

interpretation up: conn_frame "unposted :: ('w, 'z) base_scheme \<Rightarrow> ('w, 'z) base_scheme \<Rightarrow> bool"
proof unfold_locales
  fix s t u :: "('w, 'z) base_scheme"
  assume "unposted s t" and "unposted t u"
  then show "unposted s u" unfolding unposted_def by (metis append.assoc)
next
  fix s :: "('w, 'z) base_scheme" and p
  show "unposted s (s\<lparr>conn_heap := (conn_heap s)(p := None)\<rparr>)"
    by (rule unpostedI [where ks = "[]"]) (auto simp: calls_def split: if_splits)
next
  fix s :: "('w, 'z) base_scheme" and d cb
  show "unposted s (s\<lparr>conn_heap := (conn_heap s)(Suc (last_addr s) \<mapsto> new_conn_struct d cb),
      last_addr := Suc (last_addr s)\<rparr>)"
    by (rule unpostedI [where ks = "[]"]) (auto simp: calls_def new_conn_struct_def split: if_splits)
qed (simp_all add: unposted_same unposted_call unposted_conn)

interpretation ups: send_frame "unposted :: ('w, 'z) base_scheme \<Rightarrow> ('w, 'z) base_scheme \<Rightarrow> bool"
  by unfold_locales (simp_all add: unposted_same unposted_call)

interpretation upr: reading_frame "unposted :: ('w, 'z) base_scheme \<Rightarrow> ('w, 'z) base_scheme \<Rightarrow> bool"
  by unfold_locales (rule unposted_call)

subsection \<open>The invariant\<close>

text \<open>A semaphore with a positive count belongs to a connection that was closed.\<close>

definition sems_down :: "('w, 'z) base_scheme \<Rightarrow> bool" where
  "sems_down s \<longleftrightarrow>
     (\<forall>p c. conn_heap s p = Some c \<longrightarrow> 0 < close_sem c \<longrightarrow> phase_of p (calls s) = Down)"

definition closing_ok :: "('w, 'z) base_scheme \<Rightarrow> bool" where
  "closing_ok s \<longleftrightarrow> proto s \<and> sems_down s"

lemma down_or_broken: "phase_of p cs = Down \<Longrightarrow> phase_of p (cs @ ks) \<noteq> Broken \<Longrightarrow> phase_of p (cs @ ks) = Down"
proof (induction ks rule: rev_induct)
  case (snoc k ks)
  have "phase_of p (cs @ ks) \<noteq> Broken"
    using phase_of_prefix [of p "cs @ ks" "[k]"] snoc.prems(2) by simp
  with snoc have d: "phase_of p (cs @ ks) = Down" by simp
  have s: "phase_of p (cs @ ks @ [k]) = phase_step p Down k"
    using phase_of_snoc [of p "cs @ ks" k] d by simp
  show ?case
  proof (cases "callback_of p k")
    case True
    with phase_step_callback(1) [OF True, of Down] s snoc.prems(2) show ?thesis by simp
  qed (simp add: s phase_step_other)
qed simp

lemma unposted_ok:
  assumes "unposted s t" and "proto t" and "sems_down s"
  shows "sems_down t"
proof -
  from assms(1) obtain ks where ks: "calls t = calls s @ ks" by (auto simp: unposted_def)
  have "phase_of p (calls t) = Down" if "conn_heap t p = Some c" "0 < close_sem c" for p c
  proof -
    have "phase_of p (calls s) = Down" using assms(1,3) that unfolding unposted_def sems_down_def by blast
    moreover have "phase_of p (calls t) \<noteq> Broken" using proto_safe [OF assms(2)] by (simp add: safe_def)
    ultimately show ?thesis using down_or_broken by (simp add: ks)
  qed
  then show ?thesis by (simp add: sems_down_def)
qed

lemma closing_keeps:
  fixes m :: "(('w, 'z) base_scheme, 'a) prog"
  assumes "triple proto m (\<lambda>_. proto) safe" and "up.keeps m"
  shows "triple closing_ok m (\<lambda>_. closing_ok) (\<lambda>_. True)"
proof (rule tripleI)
  fix s :: "('w, 'z) base_scheme" assume "closing_ok s"
  then have s: "proto s" "sems_down s" by (simp_all add: closing_ok_def)
  have "closing_ok t" if "m s = (Inr x, t)" for x t
  proof -
    have t: "proto t" using wp_Inr [OF tripleD [OF assms(1) s(1)] that] .
    moreover have "unposted s t" using up.keepsD [OF assms(2), of s] that by simp
    ultimately show ?thesis using unposted_ok s(2) by (auto simp: closing_ok_def)
  qed
  then show "wp m (\<lambda>_. closing_ok) (\<lambda>_. \<lambda>_. True) s" by (auto simp: wp_def split: prod.split sum.split)
qed

subsection \<open>Closing, and then posting\<close>

text \<open>What closing leads to: the connection is closed, if it is still there.\<close>

definition closed_at :: "addr \<Rightarrow> ('w, 'z) base_scheme \<Rightarrow> bool" where
  "closed_at p s \<longleftrightarrow> p \<le> last_addr s \<and> (\<forall>c. conn_heap s p = Some c \<longrightarrow> conn_st c = Cs_closed)"

lemma closed_keeps:
  assumes "qt.keeps m"
  shows "triple (closed_at p) m (\<lambda>_. closed_at p) (\<lambda>_. True)"
proof (rule tripleI)
  fix s :: "('a, 'b) base_scheme" assume s: "closed_at p s"
  have "quiet s (snd (m s))" by (rule qt.keepsD [OF assms])
  then have "closed_at p (snd (m s))" using s
    unfolding quiet_def closed_at_def by (fastforce dest: leD)
  then show "wp m (\<lambda>_. closed_at p) (\<lambda>_ _. True) s" by (auto simp: wp_def split: prod.split sum.split)
qed

lemma closed_calls:
  "triple (\<lambda>s. p \<le> last_addr s) (call_connected ext p ok) (\<lambda>_ s. p \<le> last_addr s) (\<lambda>_. True)"
  "triple (\<lambda>s. p \<le> last_addr s) (call_closed ext p) (\<lambda>_ s. p \<le> last_addr s) (\<lambda>_. True)"
  by (rule tripleI, auto simp: call_connected_def call_closed_def wp_simps wp_eta split: option.split)+

lemma closed_set_conn:
  assumes "\<And>c. conn_st (f c) = Cs_closed"
  shows "triple (\<lambda>s. p \<le> last_addr s) (set_conn p f) (\<lambda>_. closed_at p) (\<lambda>_. True)"
  by (rule tripleI) (auto simp: closed_at_def assms wp_simps split: option.split)

lemma close_post_ok:
  assumes "closing_ok s" and "closed_at p s"
  shows "wp (close_post p) (\<lambda>_. closing_ok) (\<lambda>_ _. True) s"
proof -
  have "phase_of p (calls s) = Down" if "conn_heap s p = Some c" for c
  proof -
    have "agrees c (phase_of p (calls s))" using assms(1) that unfolding closing_ok_def proto_def by blast
    moreover have "conn_st c = Cs_closed" using assms(2) that by (simp add: closed_at_def)
    ultimately show ?thesis by simp
  qed
  with assms(1) have "wp (close_post p) (\<lambda>_. sems_down) (\<lambda>_ _. True) s"
    by (auto simp: close_post_def wp_simps closing_ok_def sems_down_def calls_def split: option.split)
  moreover have "wp (close_post p) (\<lambda>_. proto) (\<lambda>_. proto) s"
    using assms(1) by (intro tripleD [OF quiet_triple [OF qtp.keeps_close_post]]) (simp add: closing_ok_def)
  ultimately show ?thesis by (auto simp: wp_def closing_ok_def split: prod.splits sum.splits)
qed

lemma closing_both:
  assumes "triple closing_ok m (\<lambda>_. closing_ok) (\<lambda>_. True)" and "triple A m (\<lambda>_. B) (\<lambda>_. True)"
  shows "triple (\<lambda>s. closing_ok s \<and> A s) m (\<lambda>_ s. closing_ok s \<and> B s) (\<lambda>_. True)"
  using assms unfolding triple_def wp_def by (fastforce split: prod.splits sum.splits)

lemma closing_closes:
  fixes m :: "(('w, 'z) base_scheme, 'a) prog"
  assumes "triple proto m (\<lambda>_. proto) safe" and "up.keeps m"
    and "triple (\<lambda>s. p \<le> last_addr s) m (\<lambda>_. closed_at p) (\<lambda>_. True)"
    and "\<And>s. conn_heap s p = None \<Longrightarrow> wp m (\<lambda>_ _. False) (\<lambda>_ _. True) s"
  shows "triple closing_ok m (\<lambda>_ s. closing_ok s \<and> closed_at p s) (\<lambda>_. True)"
proof (rule tripleI)
  fix s :: "('w, 'z) base_scheme" assume s: "closing_ok s"
  show "wp m (\<lambda>_ s. closing_ok s \<and> closed_at p s) (\<lambda>_ _. True) s"
  proof (cases "conn_heap s p")
    case None
    from assms(4) [OF this] show ?thesis by (rule wp_mono) simp_all
  next
    case (Some c)
    with s have "p \<le> last_addr s" by (simp add: closing_ok_def proto_def)
    with s show ?thesis
      by (intro tripleD [OF closing_both [OF closing_keeps [OF assms(1,2)] assms(3)]]) simp
  qed
qed

lemma closing_posts:
  "triple (\<lambda>s. closing_ok s \<and> closed_at p s) (close_post p) (\<lambda>_. closing_ok) (\<lambda>_. True)"
  by (rule tripleI) (simp add: close_post_ok)

lemma closing_quiet:
  "qt.keeps m \<Longrightarrow> up.keeps m \<Longrightarrow> triple (\<lambda>s. closing_ok s \<and> closed_at p s) m
     (\<lambda>_ s. closing_ok s \<and> closed_at p s) (\<lambda>_. True)"
  by (rule closing_both [OF closing_keeps [OF quiet_keeps] closed_keeps])

subsection \<open>The promise\<close>

lemma down_needs: "phase_of p cs = Down \<Longrightarrow> \<exists>xs k ys. cs = xs @ k # ys \<and> (closes p k \<or> fails p k)"
proof (induction cs rule: rev_induct)
  case (snoc c cs)
  show ?case
  proof (cases "closes p c \<or> fails p c")
    case False
    then have "phase_of p cs = Down"
      using snoc.prems phase_step_callback(2) [of p c "phase_of p cs"]
      by (cases "callback_of p c") (auto simp: phase_step_other split: if_splits)
    with snoc.IH obtain xs k ys where "cs = xs @ k # ys" "closes p k \<or> fails p k" by blast
    then have "cs @ [c] = xs @ k # (ys @ [c])" by simp
    with \<open>closes p k \<or> fails p k\<close> show ?thesis by blast
  qed blast
qed simp

lemma close_wait_runs:
  "p \<noteq> 0 \<Longrightarrow> map_option close_sem (conn_heap s p) = Some (Suc n) \<Longrightarrow> \<exists>t. close_wait p s = (Inr True, t)"
  by (auto simp: close_wait_def deref_def set_conn_def bnd_def andthen_def gets_def modify_def ret_def)

text \<open>The contract of a dispatcher whose running states keep the invariant.\<close>

locale waiting_contract = callback_contract +
  fixes running :: "('w, 'z) base_scheme \<Rightarrow> bool"
  assumes running_history: "running s \<Longrightarrow> history (calls s)"
    and running_closing: "running s \<Longrightarrow> closing_ok s"
begin

lemma wait_ends:
  assumes "running s" and "close_wait p s = (Inr True, t)"
  shows "\<exists>before k after. calls t = before @ k # after
    \<and> (if \<exists>b \<in> set before. establishes p b then closes p k else fails p k)
    \<and> (\<forall>a \<in> set after. \<not> callback_of p a)"
proof -
  have "wp (close_wait p) (\<lambda>b u. (b \<longrightarrow> (\<exists>c. conn_heap s p = Some c \<and> 0 < close_sem c)) \<and> calls u = calls s)
      (\<lambda>_ _. True) s"
    by (auto simp: close_wait_def wp_simps calls_def split: option.split)
  from wp_Inr [OF this assms(2)]
  obtain c where c: "conn_heap s p = Some c" "0 < close_sem c" and t: "calls t = calls s" by blast
  with running_closing [OF assms(1)] have "phase_of p (calls s) = Down" by (auto simp: closing_ok_def sems_down_def)
  then obtain xs k ys where cs: "calls s = xs @ k # ys" and k: "closes p k \<or> fails p k"
    using down_needs by blast
  have h: "history (xs @ k # ys)" using running_history [OF assms(1)] cs by simp
  show ?thesis
  proof (intro exI conjI)
    show "calls t = xs @ k # ys" using cs t by simp
    show "if \<exists>b \<in> set xs. establishes p b then closes p k else fails p k"
    proof (cases "closes p k")
      case True
      with closed_established [OF h] show ?thesis by simp
    next
      case False
      with k have f: "fails p k" by simp
      with established_first [OF h] have "\<not> (\<exists>b \<in> set xs. establishes p b)" by blast
      with f show ?thesis by simp
    qed
    show "\<forall>a \<in> set ys. \<not> callback_of p a" by (rule closed_last [OF h k])
  qed
qed

end

end
