(* ===== verification/Tcp_Closing.thy ===== *)
theory Tcp_Closing
  imports Tcp_Lifecycle Closing
begin

section \<open>close_conn_wait of the Linux dispatcher\<close>

text \<open>Every step of the Linux dispatcher keeps the invariant of \<open>Closing\<close>.\<close>

interpretation upa: tcp_any_frame "unposted :: ('w, 'z) tcp_scheme \<Rightarrow> ('w, 'z) tcp_scheme \<Rightarrow> bool"
  by unfold_locales (simp_all add: unposted_same)

interpretation upw: tcp_work_frame "unposted :: ('w, 'z) tcp_scheme \<Rightarrow> ('w, 'z) tcp_scheme \<Rightarrow> bool"
  by unfold_locales

interpretation upt: tcp_wait_frame "unposted :: ('w, 'z) tcp_scheme \<Rightarrow> ('w, 'z) tcp_scheme \<Rightarrow> bool"
  by unfold_locales

lemma api_unposted: "up.keeps (run_api ext self a)"
proof (cases a)
qed (auto simp: discard_def release_def addref_def release_send_def stop_accepting_def
    set_bandwidth_def dtor_request_def intro!: up.keeps_basic upa.keeps_interface
    upw.keeps_sending_interface up.keeps_objects upw.keeps_connect_conn upa.keeps_post
    upa.keeps_limiter upa.keeps_dtor_finish)

subsection \<open>The message of close_conn_wait\<close>

lemma close_connection_closed:
  "triple (\<lambda>s. p \<le> last_addr s) (close_connection ext p) (\<lambda>_. closed_at p) (\<lambda>_. True)"
proof (rule tripleI)
  fix s :: "('a, 'b) tcp_scheme" assume s: "p \<le> last_addr s"
  have rest: "triple (\<lambda>s. p \<le> last_addr s) (andthen (forget_callbacks p) m) (\<lambda>_. closed_at p) (\<lambda>_. True)"
    if "qt.keeps m" for m :: "(('a, 'b) tcp_scheme, unit) prog"
    unfolding forget_callbacks_def by (rule triple_seq [OF closed_set_conn closed_keeps [OF that]]) simp
  have "triple (\<lambda>s :: ('a, 'b) tcp_scheme. p \<le> last_addr s) (block [call_connected ext p False, forget_callbacks p,
        conn_release ext p ''waiting4connect's not finished.'', close_socket ext p, drop_connection ext p])
      (\<lambda>_. closed_at p) (\<lambda>_. True)"
    "triple (\<lambda>s :: ('a, 'b) tcp_scheme. p \<le> last_addr s) (block [call_closed ext p, forget_callbacks p, close_socket ext p,
        drop_connection ext p]) (\<lambda>_. closed_at p) (\<lambda>_. True)"
    unfolding block.simps
    by (intro triple_seq [OF closed_calls(1)] triple_seq [OF closed_calls(2)] rest qt.keeps_basic
        qt.keeps_objects tq.keeps_thread)+
  from this [THEN tripleD, OF s] show "wp (close_connection ext p) (\<lambda>_. closed_at p) (\<lambda>_ _. True) s"
    unfolding close_connection_def
    using s by (simp add: closed_at_def wp_bnd wp_deref wp_ret split: option.split conn_state.split)
qed

lemma closing_message:
  "triple closing_ok (andthen (close_connection ext p) (andthen (conn_release ext p mark) (close_post p)))
     (\<lambda>_. closing_ok) (\<lambda>_. True)"
  by (intro triple_seq [OF closing_closes [OF close_connection_triple upw.keeps_close_connection
        close_connection_closed]] triple_seq [OF closing_quiet [OF qt.keeps_conn_release up.keeps_conn_release]]
      closing_posts)
    (simp add: close_connection_def wp_simps)

lemma closing_handle_message: "triple closing_ok (handle_message ext im) (\<lambda>_. closing_ok) (\<lambda>_. True)"
proof (cases "im_code im = P_CLOSE_CONNECTION_WAIT")
  case True
  then show ?thesis
    unfolding handle_message_def with_ptr_def
    by (simp add: message_codes) (intro triple_andthen triple_option closing_message triple_ret
        closing_keeps [OF quiet_keeps up.keeps_throw] qt.keeps_throw)
next
  case False
  show ?thesis
    by (rule closing_keeps [OF handle_message_triple upw.keeps_other_message [OF False]])
qed

lemma closing_handle_entry: "triple closing_ok (handle_entry ext fuel revent) (\<lambda>_. closing_ok) (\<lambda>_. True)"
  unfolding handle_entry_def handle_wakeup_def
  by (intro triple_if triple_andthen triple_bnd_inv triple_option triple_prod triple_ret
      closing_handle_message closing_keeps [OF handle_event_triple upw.keeps_handle_event]
      closing_keeps [OF quiet_keeps up.keeps_throw] qt.keeps_throw
      closing_keeps [OF quiet_keeps up.keeps_gets] qt.keeps_gets
      closing_keeps [OF quiet_keeps up.keeps_modify] qt.keeps_modify upa.messages_any tq.messages_any)

lemma new_dispatcher_unposted: "up.keeps (new_tcp_dispatcher ext j port cb)"
  unfolding new_tcp_dispatcher_def
  by (intro up.keeps_basic upa.keeps_start_listening up.keeps_delete_linux_reactor up.keeps_modify unposted_same)
    simp_all

lemma closing_start: "wp (new_tcp_dispatcher ext j port cb) (\<lambda>_. closing_ok) (\<lambda>_ _. True) (empty_base w)"
  by (rule tripleD [OF closing_keeps [OF quiet_keeps [OF new_tcp_dispatcher_quiet] new_dispatcher_unposted]])
    (simp add: closing_ok_def sems_down_def empty_proto, simp add: empty_base_def)

interpretation closing: system_invariant ext "closing_ok :: 'w tcp \<Rightarrow> bool" "\<lambda>_. True"
  for ext :: "'w ext"
proof unfold_locales
  show "wp (run_api ext self a) (\<lambda>_. closing_ok) (\<lambda>_ _. True) s"
    if "closing_ok s" "api_allowed a (th, s)" for s :: "'w tcp" and self a th
    using run_api_proto [OF _ that(2), of ext self] up.keepsD [OF api_unposted, of s ext self a] that(1)
    by (auto simp: wp_def closing_ok_def intro: unposted_ok split: prod.split sum.split)
qed (auto intro: closing_handle_entry closing_start closing_keeps [OF protocol.wait_triple upt.keeps_wait_interrupt]
    closing_keeps [OF protocol.idle_triple upw.keeps_idle_pass])

subsection \<open>The promise\<close>

interpretation tcp_waits: waiting_contract "\<lambda>cs. \<exists>ub th s. reachable ext ub (th, s) \<and> cs = calls s"
    "\<lambda>s. \<exists>ub th. reachable ext ub (th, s) \<and> (\<forall>e. th \<noteq> Failed e)"
  for ext :: "'w ext"
proof unfold_locales
  fix s :: "'w tcp" assume s: "\<exists>ub th. reachable ext ub (th, s) \<and> (\<forall>e. th \<noteq> Failed e)"
  then show "\<exists>ub th t. reachable ext ub (th, t) \<and> calls s = calls t" by blast
  from s obtain ub th where "reachable ext ub (th, s)" "\<And>e. th \<noteq> Failed e" by blast
  with closing.reachable_holds [of ext ub "(th, s)"] show "closing_ok s"
    by (auto simp: closing.holds_def split: thread.splits)
qed

text \<open>
  C9: The promise of \<open>close_conn_wait\<close>, whatever the operating system, the callbacks and the
  interleaving of the threads do: when the wait for the semaphore of a connection ends, then
  the last callback of the connection has been called: \<open>closed\<close> if the connection had been
  established, otherwise \<open>connected(null)\<close>.
\<close>

theorem close_wait_returns_closed:
  assumes "reachable ext ub (th, s)" and "\<And>e. th \<noteq> Failed e"
    and "close_conn_wait_return p s = (Inr True, t)"
  shows "\<exists>before k after. calls t = before @ k # after
    \<and> (if \<exists>b \<in> set before. establishes p b then closes p k else fails p k)
    \<and> (\<forall>a \<in> set after. \<not> callback_of p a)"
  using assms(1,2) by (intro tcp_waits.wait_ends [OF _ assms(3) [unfolded close_conn_wait_return_def]]) blast

text \<open>A run in which a user waits until an established connection is closed.\<close>

definition demo_waiting :: "thread \<times> sim_world tcp" where
  "demo_waiting = play sim (\<lambda>_. 0) 1
     [Api_call (Api_connect 0 80 demo_callbacks), Thread_step, Thread_step, Thread_step, Thread_step, Thread_step,
      Thread_step, Api_call (Api_close_conn_wait 2), Thread_step, Thread_step]
     (boot sim 80 (7, [[wake_event], [ready_event 2 EPOLLOUT], [wake_event]], []))"

lemma demo_waiting_reachable: "reachable sim (\<lambda>_. 0) (fst demo_waiting, snd demo_waiting)"
  unfolding prod.collapse demo_waiting_def by (intro play_reachable boot_sim_reachable)

lemma demo_waiting_run:
  "fst demo_waiting = Handling []"
  "map_option close_sem (conn_heap (snd demo_waiting) 2) = Some 1"
  by (simp_all add: demo_waiting_def boot_def run_simps cong: run_cong)

theorem close_wait_returns_closed_witness:
  "\<exists>t before k after. close_conn_wait_return 2 (snd demo_waiting) = (Inr True, t)
    \<and> calls t = before @ k # after
    \<and> (if \<exists>b \<in> set before. establishes 2 b then closes 2 k else fails 2 k)
    \<and> (\<forall>a \<in> set after. \<not> callback_of 2 a)"
proof -
  obtain t where t: "close_conn_wait_return 2 (snd demo_waiting) = (Inr True, t)"
    using close_wait_runs [of 2 "snd demo_waiting" 0] demo_waiting_run(2)
    by (auto simp: close_conn_wait_return_def)
  with close_wait_returns_closed [OF demo_waiting_reachable _ t] demo_waiting_run(1) show ?thesis by force
qed

end
