(* ===== verification/Tcp_Breaking.thy ===== *)
theory Tcp_Breaking
  imports Tcp_Properties
begin

section \<open>break_send returns when the callback has been called\<close>

text \<open>
  The promise of \<open>break_send\<close>: it returns only after the request's callback was called.  The
  invariant of \<open>Sends\<close>, taken for the set that holds the request, says it: the semaphore is
  posted only when the request has no callback left, and a request that had one loses it by a
  call only.
\<close>

interpretation breaking: step_invariant ext "sends_ok A :: 'w tcp \<Rightarrow> bool" sends_safe
  for ext :: "'w ext" and A
  by unfold_locales (auto intro: sends_ok_safe sends_handle_entry idle_pass_triple
      tripleD [OF sends_weak [OF run_api_triple]]
      sends_weak [OF sends_keeps [OF stqw.keeps_wait_interrupt]])

text \<open>
  C10: The promise of \<open>break_send\<close>, whatever the operating system, the callbacks and the
  interleaving of the threads do: when a request had a callback in some reachable
  configuration and the wait for its semaphore ends in a later one, then the callback has been
  called, exactly once, and the request has none left to call.
\<close>

theorem break_send_returns_answered:
  assumes "reachable ext ub (th\<^sub>0, s\<^sub>0)" and "\<And>e. th\<^sub>0 \<noteq> Failed e"
    and "send_heap s\<^sub>0 sr = Some q" and "sent_cb q = Some cb"
    and "(step ext ub)\<^sup>*\<^sup>* (th\<^sub>0, s\<^sub>0) (th, s)" and "\<And>e. th \<noteq> Failed e"
    and "break_send_return sr s = (Inr True, t)"
  shows "length (filter (sent_to sr) (calls t)) = 1
    \<and> (\<forall>q. send_heap t sr = Some q \<longrightarrow> sent_cb q = None)"
proof -
  have "sends_ok {} s\<^sub>0"
    using sending.reachable_holds [OF assms(1)] assms(2) by (auto simp: sending.holds_def split: thread.splits)
  from sends_ok_pledge [OF this assms(3,4)] assms(2) have "breaking.holds {sr} (th\<^sub>0, s\<^sub>0)"
    by (auto simp: breaking.holds_def split: thread.splits)
  from breaking.steps_holds [OF assms(5) this] assms(6) have "sends_ok {sr} s"
    by (auto simp: breaking.holds_def split: thread.splits)
  from break_wait_answered [OF this assms(7) [unfolded break_send_return_def]] show ?thesis .
qed

text \<open>A run in which a request is queued, broken and waited for.\<close>

lemma play_steps: "(step ext ub)\<^sup>*\<^sup>* c (play ext ub fuel acts c)"
proof (induction ext ub fuel acts c rule: play.induct)
  case (2 ext ub fuel acts c)
  then show ?case using converse_rtranclp_into_rtranclp [of "step ext ub", OF step.by_thread] by simp
next
  case (3 ext ub fuel a acts c)
  then show ?case using converse_rtranclp_into_rtranclp [of "step ext ub", OF step.by_api]
    by (cases "api_allowed a c") (simp_all del: One_nat_def)
qed simp

definition demo_asked :: "thread \<times> sim_world tcp" where
  "demo_asked = play sim (\<lambda>_. 0) 1
     [Api_call (Api_connect 0 80 demo_callbacks), Thread_step, Thread_step, Thread_step, Thread_step, Thread_step,
      Thread_step, Api_call (Api_send 2 [1, 2, 3] (Some 14))]
     (boot sim 80 (7, [[wake_event], [ready_event 2 EPOLLOUT], [wake_event], [wake_event]], []))"

definition demo_broken :: "thread \<times> sim_world tcp" where
  "demo_broken = play sim (\<lambda>_. 0) 1
     [Api_call (Api_break_send 4), Api_call (Api_break_send_init 4), Thread_step, Thread_step, Thread_step,
      Thread_step, Thread_step]
     demo_asked"

lemma demo_asked_reachable: "reachable sim (\<lambda>_. 0) (fst demo_asked, snd demo_asked)"
  unfolding prod.collapse demo_asked_def by (intro play_reachable boot_sim_reachable)

lemma demo_broken_run:
  "fst demo_asked = Waiting" "map_option sent_cb (send_heap (snd demo_asked) 4) = Some (Some 14)"
  "fst demo_broken = Handling []" "map_option break_sem (send_heap (snd demo_broken) 4) = Some (Some 1)"
  by (simp_all add: demo_broken_def demo_asked_def boot_def run_simps cong: run_cong)

theorem break_send_returns_answered_witness:
  "\<exists>t. break_send_return 4 (snd demo_broken) = (Inr True, t) \<and> length (filter (sent_to 4) (calls t)) = 1"
proof -
  obtain t where t: "break_send_return 4 (snd demo_broken) = (Inr True, t)" 
    using break_wait_runs [of 4 "snd demo_broken" 0] demo_broken_run(4) by (auto simp: break_send_return_def)
  obtain q where q: "send_heap (snd demo_asked) 4 = Some q" "sent_cb q = Some 14"
    using demo_broken_run(2) by auto
  have steps: "(step sim (\<lambda>_. 0))\<^sup>*\<^sup>* (fst demo_asked, snd demo_asked) (fst demo_broken, snd demo_broken)"
    unfolding prod.collapse demo_broken_def by (rule play_steps)
  have "length (filter (sent_to 4) (calls t)) = 1"
    using break_send_returns_answered [OF demo_asked_reachable _ q steps _ t] demo_broken_run(1,3) by simp
  with t show ?thesis by blast
qed

end
