(* ===== verification/Simulated.thy ===== *)
theory Simulated
  imports Running Cp_Reactor
begin

section \<open>Parts of the simulated Windows worlds\<close>

text \<open>
  What the concrete outside worlds of \<open>Win_Demo\<close> and \<open>Biocp_Demo\<close> share: the count of the
  references to each object, answers of the system, and a set of callbacks.
\<close>

fun count_of :: "obj \<Rightarrow> (obj \<times> nat) list \<Rightarrow> nat" where
  "count_of x [] = 0"
| "count_of x ((y, n) # cs) = (if x = y then n else count_of x cs)"

definition pending_reply :: reply where
  "pending_reply = (plain_reply (-1))\<lparr>err := WSA_IO_PENDING\<rparr>"

text \<open>Completions: a wake-up, and the end of an operation on an object.\<close>

definition woken :: reply where
  "woken = plain_reply 1"

definition completed :: "obj \<Rightarrow> u8 list \<Rightarrow> reply" where
  "completed x bs = (plain_reply 1)\<lparr>r_done := Some x, r_bytes := bs, r_size := of_nat (length bs)\<rparr>"

definition win_callbacks :: callbacks where
  "win_callbacks = \<lparr>cb_read = Some 11, cb_closed = Some 12, cb_connected = Some 13\<rparr>"

lemmas run_sim_data = pending_reply_def woken_def completed_def win_callbacks_def

lemma filter_via: "(\<And>x. P x \<Longrightarrow> Q x) \<Longrightarrow> filter P (filter Q xs) = filter P xs"
  by (induction xs) auto

end
