(* ===== verification/Tcp_Lifetimes.thy ===== *)
theory Tcp_Lifetimes
  imports Tcp_Handlers Simulated
begin

section \<open>A connection that is gone when its event comes up\<close>

text \<open>
  The runs of \<open>Tcp_Demo\<close> never release a connection to the end.  Here the outside world counts
  the references, and says of a release whether it was the last one, as the library of the
  counted objects does.
\<close>

type_synonym counted = "sim_world \<times> (obj \<times> nat) list"

fun count_sim :: "counted ext" where
  "count_sim (Addref x m) (w, cs) = (plain_reply 0, w, (x, count_of x cs + 1) # cs)"
| "count_sim (Release x m) (w, cs) =
     (plain_reply (if count_of x cs = 1 then 1 else 0), w, (x, count_of x cs - 1) # cs)"
| "count_sim c (w, cs) = (case sim c w of (r, w') \<Rightarrow> (r, w', cs))"

definition counted_world :: "epoll_event list list \<Rightarrow> counted" where
  "counted_world evs = ((7, evs, []), [])"

text \<open>
  The scenario of \<open>itcp_dispatcher.h\<close> of a connection that its user closes: \<open>connect\<close>,
  \<open>connected\<close>, \<open>close_conn\<close>, \<open>closed\<close>, \<open>release\<close>.  The wait that reports the message of
  \<open>close_conn\<close> reports data of the connection, too, and the user releases the connection
  before the thread gets to that event.
\<close>

definition stale_run :: "thread \<times> counted tcp" where
  "stale_run = play count_sim (\<lambda>_. 0) 1
     [Api_call (Api_connect 0 80 demo_callbacks), Thread_step, Thread_step, Thread_step, Thread_step,
      Thread_step, Thread_step, Api_call (Api_close_conn 2), Thread_step, Thread_step,
      Api_call (Api_release 2), Thread_step]
     (boot count_sim 80 (counted_world
        [[wake_event], [ready_event 2 EPOLLOUT], [wake_event, ready_event 2 EPOLLIN]]))"

text \<open>The calls of the scenario.\<close>

fun in_scenario :: "addr \<Rightarrow> ext_call \<Rightarrow> bool" where
  "in_scenario p (Release (ConnObj q) m) = (q = p \<and> m = ''tcp_dispatcher::release'')"
| "in_scenario p k = callback_of p k"

lemma boot_counted: "reachable count_sim ub (boot count_sim 80 (counted_world evs))"
  by (rule boot_reachable) (simp add: counted_world_def run_simps cong: run_cong)

lemma stale_run_ends:
  "fst stale_run = Failed Dangling"
  "filter (in_scenario 2) (calls (snd stale_run)) = [User (Cb_connected 2 13 True),
     User (Cb_closed 2 12), Release (ConnObj 2) ''tcp_dispatcher::release'']"
  by (simp_all add: stale_run_def boot_def counted_world_def calls_def run_simps cong: run_cong)

text \<open>
  C40: A user who follows the documented scenario can make the dispatcher use a destroyed
  connection: there is a run, with references counted as the library counts them, in which
  the connection is connected, \<open>closed\<close> is called and the user then releases the connection,
  once, and in which the thread's next step, the event of the connection that the same wait
  had reported, dereferences the connection that is no more.
\<close>

theorem stale_event_dangling:
  "reachable count_sim (\<lambda>_. 0) stale_run \<and> fst stale_run = Failed Dangling
    \<and> filter (in_scenario 2) (calls (snd stale_run)) = [User (Cb_connected 2 13 True),
        User (Cb_closed 2 12), Release (ConnObj 2) ''tcp_dispatcher::release'']
    \<and> conn_heap (snd stale_run) 2 = None"
proof -
  have "reachable count_sim (\<lambda>_. 0) stale_run"
    unfolding stale_run_def by (intro play_reachable boot_counted)
  moreover have "conn_heap (snd stale_run) 2 = None"
    by (simp add: stale_run_def boot_def counted_world_def run_simps cong: run_cong)
  ultimately show ?thesis using stale_run_ends by blast
qed

end
