(* ===== verification/Win_Dispatcher.thy ===== *)
theory Win_Dispatcher
  imports Bwstop Messages Cp_Reactor
begin

section \<open>The Windows dispatcher (win_tcp_dispatcher.h, win_tcp_dispatcher.cpp)\<close>

text \<open>
  One thread takes completions and messages from a completion port.  Operations that have
  been started and not completed are kept in vectors, so that their objects can be
  released at the end.  The functions have the names of the sources with the prefix
  \<open>win_\<close>.
\<close>

subsection \<open>State\<close>

text \<open>
  The members of \<open>class win_tcp_dispatcher\<close>; a \<open>scoped_ptr\<close> that is null is \<^const>\<open>None\<close>,
  a semaphore its count.  The two extension functions are found before any use.
\<close>

record 'w win = "'w base" +
  w_listening :: fd
  w_accepted :: "cbid option"
  w_stop_sem :: nat
  w_cp :: "cp_reactor option"
  w_messages :: "internal_messages option"
  w_bws :: bwstop
  w_transfered :: u32
  w_overlaps :: "addr list"
  w_accepts :: "addr list"
  w_conns :: "addr list"
  w_recvs :: "addr list"
  w_sends :: "addr list"

definition with_cp :: "(cp_reactor \<Rightarrow> (('w, 'z) win_scheme, 'a) prog) \<Rightarrow> (('w, 'z) win_scheme, 'a) prog" where
  "with_cp f = bnd (gets w_cp) (\<lambda>m. case m of None \<Rightarrow> throw Null_deref | Some R \<Rightarrow> f R)"

definition win_messages :: "(internal_messages \<Rightarrow> internal_messages) \<Rightarrow> (('w, 'z) win_scheme, unit) prog" where
  "win_messages f = bnd (gets w_messages) (\<lambda>m. case m of None \<Rightarrow> throw Null_deref
     | Some q \<Rightarrow> modify (\<lambda>s. s\<lparr>w_messages := Some (f q)\<rparr>))"

definition win_post :: "'w ext \<Rightarrow> u8 \<Rightarrow> (('w, 'z) win_scheme, unit) prog" where
  "win_post ext code = andthen (win_messages (push_code code)) (with_cp (cp_stop ext))"

definition win_post_ptr :: "'w ext \<Rightarrow> u8 \<Rightarrow> addr \<Rightarrow> (('w, 'z) win_scheme, unit) prog" where
  "win_post_ptr ext code p = andthen (win_messages (push_ptr code p)) (with_cp (cp_stop ext))"

definition win_limiter :: "(bwstop \<Rightarrow> bwstop) \<Rightarrow> (('w, 'z) win_scheme, unit) prog" where
  "win_limiter f = modify (\<lambda>s. s\<lparr>w_bws := f (w_bws s)\<rparr>)"

definition win_limiter_insert :: "'w ext \<Rightarrow> addr \<Rightarrow> u32 \<Rightarrow> (('w, 'z) win_scheme, unit) prog" where
  "win_limiter_insert ext p n = bnd (gets w_bws) (\<lambda>b. whenever (max_bw b \<noteq> 0)
     (bnd (call ext (Os Ftime)) (\<lambda>r. win_limiter (bw_insert p n (r_time r)))))"

definition win_recalc :: "'w ext \<Rightarrow> (double \<Rightarrow> u32) \<Rightarrow> (('w, 'z) win_scheme, bool) prog" where
  "win_recalc ext ub = bnd (gets w_bws) (\<lambda>b. if max_bw b = 0 then ret False
     else bnd (call ext (Os Ftime)) (\<lambda>r.
       andthen (win_limiter (\<lambda>b. snd (recalc ub (r_time r) b))) (ret (fst (recalc ub (r_time r) b)))))"

subsection \<open>The vectors of operations\<close>

text \<open>\<open>free_completed_..\<close>: the first occurrence is erased, then the object is released.\<close>

definition free_completed_conn :: "'w ext \<Rightarrow> addr \<Rightarrow> string \<Rightarrow> (('w, 'z) win_scheme, unit) prog" where
  "free_completed_conn ext p rmark = andthen (modify (\<lambda>s. s\<lparr>w_conns := remove1 p (w_conns s)\<rparr>))
     (conn_release ext p rmark)"

definition free_completed_overlap :: "'w ext \<Rightarrow> addr \<Rightarrow> string \<Rightarrow> (('w, 'z) win_scheme, unit) prog" where
  "free_completed_overlap ext p rmark = andthen (modify (\<lambda>s. s\<lparr>w_overlaps := remove1 p (w_overlaps s)\<rparr>))
     (overlap_release ext p rmark)"

definition free_completed_accept :: "'w ext \<Rightarrow> addr \<Rightarrow> string \<Rightarrow> (('w, 'z) win_scheme, unit) prog" where
  "free_completed_accept ext p rmark = andthen (modify (\<lambda>s. s\<lparr>w_accepts := remove1 p (w_accepts s)\<rparr>))
     (accept_release ext p rmark)"

definition free_completed_recv :: "'w ext \<Rightarrow> addr \<Rightarrow> string \<Rightarrow> (('w, 'z) win_scheme, unit) prog" where
  "free_completed_recv ext p rmark = andthen (modify (\<lambda>s. s\<lparr>w_recvs := remove1 p (w_recvs s)\<rparr>))
     (recv_release ext p rmark)"

definition free_completed_send :: "'w ext \<Rightarrow> addr \<Rightarrow> string \<Rightarrow> (('w, 'z) win_scheme, unit) prog" where
  "free_completed_send ext p rmark = andthen (modify (\<lambda>s. s\<lparr>w_sends := remove1 p (w_sends s)\<rparr>))
     (send_release ext p rmark)"

definition not_done :: string where
  "not_done = ''iocp_operation_isn't_done''"

definition free_not_completed_objects :: "'w ext \<Rightarrow> (('w, 'z) win_scheme, unit) prog" where
  "free_not_completed_objects ext = bnd (gets (\<lambda>s. s)) (\<lambda>s. block
     [for_each (\<lambda>p. overlap_release ext p not_done) (w_overlaps s),
      for_each (\<lambda>p. accept_release ext p not_done) (w_accepts s),
      for_each (\<lambda>p. send_release ext p not_done) (w_sends s),
      for_each (\<lambda>p. recv_release ext p not_done) (w_recvs s),
      for_each (\<lambda>p. conn_release ext p ''waiting_isn't_done(exit)'') (w_conns s),
      modify (\<lambda>s. s\<lparr>w_overlaps := [], w_accepts := [], w_sends := [], w_recvs := [], w_conns := []\<rparr>)])"

subsection \<open>Accepting\<close>

definition accept_request :: "'w ext \<Rightarrow> (('w, 'z) win_scheme, unit) prog" where
  "accept_request ext = bnd (checked ext (Os Socket) ''WSASocket'') (\<lambda>d.
     bnd (new_accept d FD_ACCEPT) (\<lambda>a.
     andthen (accept_addref ext a ''accept_request'')
     (bnd (gets w_listening) (\<lambda>l.
     andthen (invoke ext (Win (Accept_ex l d a)))
     (andthen (modify (\<lambda>s. s\<lparr>w_accepts := w_accepts s @ [a]\<rparr>))
     (with_cp (\<lambda>R. cp_add_socket ext R d)))))))"

subsection \<open>Construction and destruction\<close>

definition win_start_listening :: "'w ext \<Rightarrow> u16 \<Rightarrow> cbid option \<Rightarrow> (('w, 'z) win_scheme, unit) prog" where
  "win_start_listening ext port cb =
     andthen (modify (\<lambda>s. s\<lparr>w_accepted := cb, w_stop_sem := 0\<rparr>))
     (bnd (call ext (Os Socket)) (\<lambda>r.
     andthen (modify (\<lambda>s. s\<lparr>w_listening := rv r\<rparr>))
     (if rv r = -1 then throw (Lib_exception ''WSASocket'' (err r)) else
     bnd (checked ext (Os (Bind (rv r) \<lparr>sin_addr = 0, sin_port = htons port\<rparr>)) ''bind'') (\<lambda>_.
     bnd (checked ext (Os (Listen (rv r))) ''listen'') (\<lambda>_.
     andthen (invoke ext (Win (Get_extension_functions (rv r))))
     (andthen (modify (\<lambda>s. s\<lparr>w_messages := Some []\<rparr>))
     (bnd (new_cp_reactor ext) (\<lambda>R.
     andthen (modify (\<lambda>s. s\<lparr>w_cp := Some R\<rparr>))
     (bnd (call ext (Os Thread_create)) (\<lambda>t.
     if rv t \<noteq> 0 then throw (Lib_exception ''pthread_create'' (rv t)) else
     andthen (modify (\<lambda>s. s\<lparr>w_cp := Some (cp_add_thread 0 R)\<rparr>))
     (andthen (cp_add_socket ext R (rv r))
     (accept_request ext))))))))))))"

definition new_win_tcp_dispatcher :: "'w ext \<Rightarrow> u32 \<Rightarrow> u16 \<Rightarrow> cbid option \<Rightarrow> (('w, 'z) win_scheme, unit) prog" where
  "new_win_tcp_dispatcher ext j port cb =
     andthen (modify (\<lambda>s. s\<lparr>w_bws := new_bwstop j \<lparr>tb_time = 0, tb_millitm = 0\<rparr> 0,
       w_listening := -1, w_accepted := None, w_stop_sem := 0, w_cp := None, w_messages := None,
       w_transfered := 0, w_overlaps := [], w_accepts := [], w_conns := [], w_recvs := [],
       w_sends := []\<rparr>))
     (whenever (port \<noteq> 0)
       (try_catch (win_start_listening ext port cb) (\<lambda>e.
         bnd (gets w_listening) (\<lambda>l.
         andthen (whenever (l \<noteq> -1) (invoke ext (Os (Close l))))
         (bnd (gets w_cp) (\<lambda>m.
         andthen (case m of None \<Rightarrow> ret () | Some R \<Rightarrow> delete_cp_reactor ext R)
         (throw e)))))))"

definition win_dtor_request :: "'w ext \<Rightarrow> (('w, 'z) win_scheme, unit) prog" where
  "win_dtor_request ext = win_post ext P_EXIT"

definition win_dtor_finish :: "'w ext \<Rightarrow> (('w, 'z) win_scheme, unit) prog" where
  "win_dtor_finish ext = andthen (invoke ext (Os Thread_join))
     (bnd (gets w_cp) (\<lambda>m.
     andthen (case m of None \<Rightarrow> ret () | Some R \<Rightarrow> delete_cp_reactor ext R)
     (modify (\<lambda>s. s\<lparr>w_cp := None\<rparr>))))"

subsection \<open>The interface\<close>

text \<open>A new bound, non-blocking socket that belongs to the port.\<close>

definition win_open_socket :: "'w ext \<Rightarrow> (('w, 'z) win_scheme, fd) prog" where
  "win_open_socket ext = bnd (checked ext (Os Socket) ''WSASocket'') (\<lambda>d.
     try_catch
       (bnd (checked ext (Os (Bind d \<lparr>sin_addr = 0, sin_port = 0\<rparr>)) ''bind'') (\<lambda>_.
        bnd (checked ext (Os (Set_nonblock d)) ''ioctlsocket'') (\<lambda>_.
        andthen (with_cp (\<lambda>R. cp_add_socket ext R d)) (ret d))))
       (\<lambda>e. andthen (invoke ext (Os (Close d))) (throw e)))"

definition win_make_conn :: "'w ext \<Rightarrow> (('w, 'z) win_scheme, addr) prog" where
  "win_make_conn ext = try_catch
     (bnd (win_open_socket ext) (\<lambda>d.
      bnd (new_conn d no_callbacks) (\<lambda>p.
      andthen (conn_addref ext p ''async_connect'')
      (andthen (conn_addref ext p ''async_connect'') (ret p)))))
     (\<lambda>_. ret 0)"

definition win_connect_conn :: "'w ext \<Rightarrow> addr \<Rightarrow> u32 \<Rightarrow> u16 \<Rightarrow> callbacks \<Rightarrow> (('w, 'z) win_scheme, unit) prog" where
  "win_connect_conn ext p ip port cb = try_catch
     (andthen (set_conn p (conn_addr_update (\<lambda>_. Some \<lparr>sin_addr = ip, sin_port = htons port\<rparr>)))
     (andthen (set_conn p (cbs_update (\<lambda>_. cb)))
     (win_post_ptr ext P_CREATE_CONNECTION p)))
     (\<lambda>_. ret ())"

definition win_connect :: "'w ext \<Rightarrow> u32 \<Rightarrow> u16 \<Rightarrow> callbacks \<Rightarrow> (('w, 'z) win_scheme, addr) prog" where
  "win_connect ext ip port cb = try_catch
     (bnd (win_open_socket ext) (\<lambda>d.
      bnd (new_conn d cb) (\<lambda>p.
      andthen (conn_addref ext p ''async_connect'')
      (andthen (conn_addref ext p ''async_connect'')
      (andthen (set_conn p (conn_addr_update (\<lambda>_. Some \<lparr>sin_addr = ip, sin_port = htons port\<rparr>)))
      (andthen (win_post_ptr ext P_CREATE_CONNECTION p) (ret p)))))))
     (\<lambda>_. ret 0)"

definition win_close_conn :: "'w ext \<Rightarrow> addr \<Rightarrow> (('w, 'z) win_scheme, unit) prog" where
  "win_close_conn ext p = andthen (conn_addref ext p ''close_conn'') (win_post_ptr ext P_CLOSE_CONNECTION p)"

definition win_close_conn_wait :: "'w ext \<Rightarrow> addr \<Rightarrow> (('w, 'z) win_scheme, unit) prog" where
  "win_close_conn_wait ext p = andthen (conn_addref ext p ''close_conn_wait'')
     (win_post_ptr ext P_CLOSE_CONNECTION_WAIT p)"

definition win_close_conn_wait_return :: "addr \<Rightarrow> (('w, 'z) win_scheme, bool) prog" where
  "win_close_conn_wait_return p = close_wait p"

definition win_release :: "'w ext \<Rightarrow> addr \<Rightarrow> (('w, 'z) win_scheme, unit) prog" where
  "win_release ext p = conn_release ext p ''win_tcp_dispatcher::release''"

definition win_addref :: "'w ext \<Rightarrow> addr \<Rightarrow> (('w, 'z) win_scheme, unit) prog" where
  "win_addref ext p = conn_addref ext p ''win_tcp_dispatcher::addref''"

definition win_release_send :: "'w ext \<Rightarrow> addr \<Rightarrow> (('w, 'z) win_scheme, unit) prog" where
  "win_release_send ext p = send_release ext p ''win_tcp_dispatcher::release''"

definition win_send :: "'w ext \<Rightarrow> addr \<Rightarrow> u8 list \<Rightarrow> cbid option \<Rightarrow> (('w, 'z) win_scheme, addr) prog" where
  "win_send ext p buf cb = try_catch
     (bnd (win_new_send_req ext p) (\<lambda>sr.
      bnd (deref conn_heap p) (\<lambda>c.
      andthen (set_send sr (\<lambda>q. q\<lparr>send_iov := \<lparr>iov_sock = sock c, iov_code = FD_WRITE, iov_conn = p\<rparr>,
        total_bytes := word_of_nat (length buf), sent_bytes := 0, sent_cb := cb\<rparr>))
      (andthen (send_addref ext sr ''win_tcp_dispatcher::send'')
      (andthen (send_addref ext sr ''win_tcp_dispatcher::send'')
      (andthen (set_send sr (send_data_update (\<lambda>_. buf)))
      (andthen (win_post_ptr ext P_SEND_REQUEST sr) (ret sr))))))))
     (\<lambda>_. ret 0)"

definition win_send_no_callback :: "'w ext \<Rightarrow> addr \<Rightarrow> u8 list \<Rightarrow> (('w, 'z) win_scheme, bool) prog" where
  "win_send_no_callback ext p buf = bnd (win_send ext p buf None) (\<lambda>sr.
     andthen (send_release ext sr ''win_tcp_dispatcher::send'') (ret True))"

text \<open>\<open>stop_accepting\<close> and \<open>break_send\<close>, up to their waits and the returns from them.\<close>

definition win_stop_accepting :: "'w ext \<Rightarrow> (('w, 'z) win_scheme, unit) prog" where
  "win_stop_accepting ext = win_post ext P_STOP_ACCEPTING"

definition win_stop_accepting_return :: "(('w, 'z) win_scheme, bool) prog" where
  "win_stop_accepting_return = bnd (gets w_stop_sem) (\<lambda>n. if n = 0 then ret False
     else andthen (modify (\<lambda>s. s\<lparr>w_stop_sem := n - 1\<rparr>)) (ret True))"

definition win_get_ip_port :: "addr \<Rightarrow> (('w, 'z) win_scheme, (u32 \<times> u16) option) prog" where
  "win_get_ip_port p = bnd (deref conn_heap p) (\<lambda>c.
     ret (map_option (\<lambda>a. (sin_addr a, sin_port a)) (conn_addr c)))"

definition win_break_send :: "'w ext \<Rightarrow> addr \<Rightarrow> (('w, 'z) win_scheme, unit) prog" where
  "win_break_send ext sr = andthen (send_addref ext sr ''break_send(sem_wait)'')
     (win_post_ptr ext P_BREAK_SEND sr)"

definition win_break_send_init :: "addr \<Rightarrow> (('w, 'z) win_scheme, unit) prog" where
  "win_break_send_init sr = set_send sr (break_sem_update (\<lambda>_. Some 0))"

definition win_break_send_return :: "addr \<Rightarrow> (('w, 'z) win_scheme, bool) prog" where
  "win_break_send_return sr = break_wait (\<lambda>_. None) sr"

definition win_set_bandwidth :: "u32 \<Rightarrow> (('w, 'z) win_scheme, unit) prog" where
  "win_set_bandwidth n = win_limiter (set_limit n)"

subsection \<open>Connections in the dispatcher thread\<close>

definition win_create :: "'w ext \<Rightarrow> addr \<Rightarrow> (('w, 'z) win_scheme, unit) prog" where
  "win_create ext p =
     andthen (modify (\<lambda>s. s\<lparr>w_conns := w_conns s @ [p]\<rparr>))
     (andthen (conn_addref ext p ''waiting4complete'')
     (bnd (deref conn_heap p) (\<lambda>c.
      bnd (new_overlap (sock c) FD_CONNECT) (\<lambda>ov.
      andthen (overlap_addref ext ov ''connect'')
      (andthen (modify (\<lambda>s. s\<lparr>overlap_heap := (overlap_heap s)(ov \<mapsto>
          \<lparr>iov_sock = sock c, iov_code = FD_CONNECT, iov_conn = p\<rparr>)\<rparr>))
      (bnd (call ext (Win (Connect_ex (sock c)
          (case conn_addr c of Some a \<Rightarrow> a | None \<Rightarrow> \<lparr>sin_addr = 0, sin_port = 0\<rparr>) ov))) (\<lambda>r.
      if rv r = 0 \<and> err r \<noteq> WSA_IO_PENDING then throw (Lib_exception ''WSAConnect'' (err r))
      else modify (\<lambda>s. s\<lparr>w_overlaps := w_overlaps s @ [ov]\<rparr>))))))))"

definition win_forget_callbacks :: "addr \<Rightarrow> (('w, 'z) base_scheme, unit) prog" where
  "win_forget_callbacks p = set_conn p (\<lambda>c. c\<lparr>cbs := no_callbacks, conn_st := Cs_closed\<rparr>)"

text \<open>\<open>closesocket\<close> once; a failure of it is only traced.\<close>

definition win_close_socket :: "'w ext \<Rightarrow> addr \<Rightarrow> (('w, 'z) win_scheme, unit) prog" where
  "win_close_socket ext p = bnd (deref conn_heap p) (\<lambda>c.
     andthen (whenever (sock c \<noteq> -1) (invoke ext (Os (Close (sock c)))))
             (set_conn p (sock_update (\<lambda>_. -1))))"

definition win_drop :: "'w ext \<Rightarrow> addr \<Rightarrow> (('w, 'z) win_scheme, unit) prog" where
  "win_drop ext p = andthen
     (bnd (deref conn_heap p) (\<lambda>c. free_completed_recv ext (conn_recv c) ''network error''))
     (free_completed_conn ext p ''close_connection'')"

text \<open>\<open>iocp\<close>: a completed or failed operation is the reason for closing.\<close>

definition win_close_connection :: "'w ext \<Rightarrow> addr \<Rightarrow> bool \<Rightarrow> (('w, 'z) win_scheme, unit) prog" where
  "win_close_connection ext p iocp = bnd (deref conn_heap p) (\<lambda>c. case conn_st c of
     Cs_wait4connect \<Rightarrow> block
       [call_connected ext p False, win_forget_callbacks p, free_completed_conn ext p ''close_connection'']
   | Cs_connected \<Rightarrow> block
       [call_closed ext p, win_forget_callbacks p, win_limiter (bw_erase p), win_close_socket ext p,
        whenever iocp (win_drop ext p)]
   | Cs_closed \<Rightarrow> block
       [win_close_socket ext p, whenever iocp (win_drop ext p)])"

definition win_close :: "'w ext \<Rightarrow> addr \<Rightarrow> (('w, 'z) win_scheme, unit) prog" where
  "win_close ext p = block
     [modify (\<lambda>s. s\<lparr>w_conns := w_conns s @ [p]\<rparr>), win_close_connection ext p False,
      conn_release ext p ''close_conn'']"

definition win_close_wait :: "'w ext \<Rightarrow> addr \<Rightarrow> (('w, 'z) win_scheme, unit) prog" where
  "win_close_wait ext p = block
     [modify (\<lambda>s. s\<lparr>w_conns := w_conns s @ [p]\<rparr>), win_close_connection ext p False,
      close_post p, conn_release ext p ''close_conn_wait'']"

definition activate_receiving :: "'w ext \<Rightarrow> addr \<Rightarrow> (('w, 'z) win_scheme, bool) prog" where
  "activate_receiving ext p = bnd (new_recv_req ext p) (\<lambda>rr.
     andthen (set_conn p (conn_recv_update (\<lambda>_. rr)))
     (andthen (recv_addref ext rr ''tcp_conn_t'')
     (bnd (deref conn_heap p) (\<lambda>c.
      bnd (call ext (Win (Wsa_recv (sock c) 65536 rr))) (\<lambda>r.
      if rv r = -1 \<and> err r \<noteq> WSA_IO_PENDING then
        andthen (recv_release ext rr ''wsarecv_error'')
        (andthen (set_conn p (conn_recv_update (\<lambda>_. 0))) (ret False))
      else andthen (modify (\<lambda>s. s\<lparr>w_recvs := w_recvs s @ [rr]\<rparr>)) (ret True))))))"

subsection \<open>Sending\<close>

text \<open>
  \<open>limited\<close> says whether the second argument of \<open>do_send\<close> is the connection's \<open>guess\<close> or
  null.
\<close>

definition win_send_size :: "send_req \<Rightarrow> u32 option \<Rightarrow> u32" where
  "win_send_size q budget = (let len = total_bytes q - sent_bytes q
     in case budget of Some g \<Rightarrow> if g < len then g else len | None \<Rightarrow> len)"

definition win_do_send :: "'w ext \<Rightarrow> addr \<Rightarrow> bool \<Rightarrow> (('w, 'z) win_scheme, bool) prog" where
  "win_do_send ext sr limited = bnd (deref send_heap sr) (\<lambda>q.
     bnd (deref conn_heap (iov_conn (send_iov q))) (\<lambda>c.
     if sock c = -1 \<or> conn_st c = Cs_closed then
       andthen (send_callback ext sr False)
       (andthen (free_completed_send ext sr ''sending's_not_finished.'') (ret True))
     else
     let len = win_send_size q (if limited then Some (conn_guess c) else None) in
     bnd (call ext (Win (Wsa_send (iov_sock (send_iov q))
       (take (unat len) (drop (unat (sent_bytes q)) (send_data q))) sr))) (\<lambda>r.
     if rv r = -1 \<and> err r \<noteq> WSA_IO_PENDING then
       andthen (win_limiter (bw_off (iov_conn (send_iov q))))
       (andthen (send_callback ext sr False)
       (andthen (free_completed_send ext sr ''sending's_not_finished.'')
       (if err r = WSAENOTSOCK \<or> err r = WSAENOTCONN \<or> err r = WSAECONNRESET then ret True
        else throw (Lib_exception ''WSASend'' (err r)))))
     else
       andthen (whenever (rv r = -1) (win_limiter (bw_off (iov_conn (send_iov q)))))
       (andthen (whenever limited
          (set_conn (iov_conn (send_iov q)) (conn_guess_update (\<lambda>g. g - len))))
       (ret False)))))"

definition win_send_request :: "'w ext \<Rightarrow> addr \<Rightarrow> (('w, 'z) win_scheme, unit) prog" where
  "win_send_request ext sr = bnd (gets (\<lambda>s. is_enable (w_bws s))) (\<lambda>limited.
     if limited then modify (\<lambda>s. s\<lparr>w_sends := w_sends s @ [sr]\<rparr>)
     else bnd (win_do_send ext sr False) (\<lambda>gone.
       whenever (\<not> gone) (modify (\<lambda>s. s\<lparr>w_sends := w_sends s @ [sr]\<rparr>))))"

definition sendbt :: "'w ext \<Rightarrow> (('w, 'z) win_scheme, unit) prog" where
  "sendbt ext = bnd (gets w_sends) (\<lambda>srs.
     bnd (for_until (\<lambda>sr.
       bnd (deref send_heap sr) (\<lambda>q. let p = iov_conn (send_iov q) in
       bnd (deref conn_heap p) (\<lambda>c.
       andthen (whenever (conn_guess c = 0)
         (bnd (gets (\<lambda>s. bw_guess p (w_bws s))) (\<lambda>g. set_conn p (conn_guess_update (\<lambda>_. g)))))
       (win_do_send ext sr True)))) srs) (\<lambda>_. ret ()))"

definition win_call_false_cb :: "'w ext \<Rightarrow> addr \<Rightarrow> (('w, 'z) win_scheme, unit) prog" where
  "win_call_false_cb ext sr = block
     [send_callback ext sr False, break_post sr,
      send_release ext sr ''break_send(sem_post)'']"

subsection \<open>Completions\<close>

text \<open>The part of \<open>complete(recv_req_struct*)\<close> after its \<open>try\<close> block.\<close>

definition next_receive :: "'w ext \<Rightarrow> addr \<Rightarrow> addr \<Rightarrow> (('w, 'z) win_scheme, unit) prog" where
  "next_receive ext rr p = bnd (deref recv_heap rr) (\<lambda>q.
     if recv_size q = 0 then win_close_connection ext p True
     else bnd (call ext (Win (Wsa_recv (iov_sock (recv_iov q)) MAX_WBUF_SIZE rr))) (\<lambda>r.
       if rv r = -1 \<and> err r \<noteq> WSA_IO_PENDING then win_close_connection ext p False else ret ()))"

definition deliver :: "'w ext \<Rightarrow> addr \<Rightarrow> addr \<Rightarrow> (('w, 'z) win_scheme, unit) prog" where
  "deliver ext rr p = bnd (deref recv_heap rr) (\<lambda>q. bnd (deref conn_heap p) (\<lambda>c.
     whenever (recv_size q \<noteq> 0 \<and> cb_read (cbs c) \<noteq> None)
       (call_read ext p (take (unat (recv_size q)) (recv_data q)))))"

definition complete_recv :: "'w ext \<Rightarrow> addr \<Rightarrow> (('w, 'z) win_scheme, unit) prog" where
  "complete_recv ext rr = bnd (gets w_transfered) (\<lambda>n.
     andthen (set_recv rr (recv_size_update (\<lambda>_. n)))
     (bnd (deref recv_heap rr) (\<lambda>q. let p = iov_conn (recv_iov q) in
      bnd (try_catch (andthen (deliver ext rr p) (ret True))
             (\<lambda>_. andthen (win_close_connection ext p True) (ret False))) (\<lambda>go_on.
      whenever go_on (next_receive ext rr p)))))"

definition complete_send :: "'w ext \<Rightarrow> addr \<Rightarrow> (('w, 'z) win_scheme, unit) prog" where
  "complete_send ext sr = bnd (deref send_heap sr) (\<lambda>q. bnd (gets w_transfered) (\<lambda>n.
     andthen (win_limiter (bw_on (iov_conn (send_iov q))))
     (andthen (win_limiter_insert ext (iov_conn (send_iov q)) n)
     (andthen (set_send sr (\<lambda>q. q\<lparr>sent_bytes := sent_bytes q + n\<rparr>))
     (whenever (sent_bytes q + n = total_bytes q)
       (andthen (send_callback ext sr True) (free_completed_send ext sr ''sending's_done.'')))))))"

definition win_set_connected :: "addr \<Rightarrow> (('w, 'z) base_scheme, unit) prog" where
  "win_set_connected p = set_conn p (\<lambda>c. c\<lparr>cbs := (cbs c)\<lparr>cb_connected := None\<rparr>, conn_st := Cs_connected\<rparr>)"

definition start_connection :: "'w ext \<Rightarrow> addr \<Rightarrow> (('w, 'z) win_scheme, unit) prog" where
  "start_connection ext p = andthen (win_limiter_insert ext p 0)
     (bnd (activate_receiving ext p) (\<lambda>ok. whenever (\<not> ok) (win_close_connection ext p True)))"

definition complete_overlap :: "'w ext \<Rightarrow> addr \<Rightarrow> (('w, 'z) win_scheme, unit) prog" where
  "complete_overlap ext ov = bnd (deref overlap_heap ov) (\<lambda>i. let p = iov_conn i in
     bnd (deref conn_heap p) (\<lambda>c.
     andthen (whenever (cb_connected (cbs c) \<noteq> None) (block
       [call_connected ext p True, win_set_connected p, start_connection ext p]))
     (andthen (free_completed_overlap ext ov ''accept_complete'')
     (free_completed_conn ext p ''accept_complete''))))"

text \<open>\<open>peer\<close> is what the kernel wrote into \<open>addr_buf\<close>.\<close>

definition complete_accept :: "'w ext \<Rightarrow> sockaddr \<Rightarrow> addr \<Rightarrow> (('w, 'z) win_scheme, unit) prog" where
  "complete_accept ext peer a = bnd (gets w_accepted) (\<lambda>cb.
     andthen (case cb of None \<Rightarrow> ret () | Some f \<Rightarrow>
       bnd (deref accept_heap a) (\<lambda>i.
       bnd (new_conn (iov_sock i) no_callbacks) (\<lambda>p. block
         [conn_addref ext p ''accept_complete'', conn_addref ext p ''accept_complete'',
          set_conn p (conn_addr_update (\<lambda>_. Some peer)),
          bnd (callback ext (Cb_accepted p f)) (\<lambda>r. set_conn p (cbs_update (\<lambda>_. r_cbs r))),
          win_set_connected p, start_connection ext p])))
     (andthen (free_completed_accept ext a ''accept_complete'') (accept_request ext)))"

subsection \<open>thread_proc\<close>

definition win_with_ptr :: "internal_message \<Rightarrow> (addr \<Rightarrow> (('w, 'z) win_scheme, unit) prog) \<Rightarrow> (('w, 'z) win_scheme, unit) prog" where
  "win_with_ptr im f = (case im_ptr im of None \<Rightarrow> throw Dangling | Some p \<Rightarrow> f p)"

definition win_handle_message :: "'w ext \<Rightarrow> internal_message \<Rightarrow> (('w, 'z) win_scheme, bool) prog" where
  "win_handle_message ext im =
     (if im_code im = P_EXIT then andthen (free_not_completed_objects ext) (ret True) else andthen
       (if im_code im = P_STOP_ACCEPTING then
          modify (\<lambda>s. s\<lparr>w_accepted := None, w_stop_sem := Suc (w_stop_sem s)\<rparr>)
        else if im_code im = P_CREATE_CONNECTION then win_with_ptr im (win_create ext)
        else if im_code im = P_CLOSE_CONNECTION then win_with_ptr im (win_close ext)
        else if im_code im = P_CLOSE_CONNECTION_WAIT then win_with_ptr im (win_close_wait ext)
        else if im_code im = P_SEND_REQUEST then win_with_ptr im (win_send_request ext)
        else if im_code im = P_BREAK_SEND then win_with_ptr im (win_call_false_cb ext)
        else ret ())
       (ret False))"

definition win_handle_wakeup :: "'w ext \<Rightarrow> (('w, 'z) win_scheme, bool) prog" where
  "win_handle_wakeup ext = bnd (gets w_messages) (\<lambda>m. case m of None \<Rightarrow> throw Null_deref
     | Some q \<Rightarrow> (case pop_message q of None \<Rightarrow> throw Assertion_failed
       | Some (im, q') \<Rightarrow> andthen (modify (\<lambda>s. s\<lparr>w_messages := Some q'\<rparr>)) (win_handle_message ext im)))"

text \<open>A completion goes to the object that contains the \<open>IOVERLAPPED\<close> with that code.\<close>

definition win_handle_completion :: "'w ext \<Rightarrow> u32 \<Rightarrow> obj \<Rightarrow> sockaddr \<Rightarrow> (('w, 'z) win_scheme, unit) prog" where
  "win_handle_completion ext code x peer =
     (if code = FD_CLOSE then bnd (obj_iov x) (\<lambda>i. win_close_connection ext (iov_conn i) True)
      else case x of
        AcceptObj a \<Rightarrow> complete_accept ext peer a
      | OverlapObj p \<Rightarrow> complete_overlap ext p
      | RecvObj p \<Rightarrow> complete_recv ext p
      | SendObj p \<Rightarrow> complete_send ext p
      | ConnObj p \<Rightarrow> ret ())"

definition win_iteration :: "'w ext \<Rightarrow> (double \<Rightarrow> u32) \<Rightarrow> (('w, 'z) win_scheme, bool) prog" where
  "win_iteration ext ub = bnd (with_cp (\<lambda>R. get_transfer ext R [])) (\<lambda>(size, result, r).
     andthen (modify (\<lambda>s. s\<lparr>w_transfered := size\<rparr>))
     (case result of
       [] \<Rightarrow> bnd (gets (\<lambda>s. is_enable (w_bws s))) (\<lambda>limited.
         if limited then bnd (win_recalc ext ub) (\<lambda>over. andthen (whenever (\<not> over) (sendbt ext)) (ret False))
         else ret False)
     | (k, code) # _ \<Rightarrow>
         if k = 0 then win_handle_wakeup ext
         else (case r_done r of None \<Rightarrow> throw Null_deref
           | Some x \<Rightarrow> andthen (win_handle_completion ext code x (r_addr r)) (ret False))))"

text \<open>
  The thread for at most \<open>n\<close> iterations.  Unlike the Linux thread it catches the library's
  exceptions and ends.
\<close>

fun win_thread_loop :: "'w ext \<Rightarrow> (double \<Rightarrow> u32) \<Rightarrow> nat \<Rightarrow> (('w, 'z) win_scheme, unit) prog" where
  "win_thread_loop ext ub 0 = throw Out_of_fuel"
| "win_thread_loop ext ub (Suc n) = bnd (win_iteration ext ub) (\<lambda>exit.
     if exit then ret () else win_thread_loop ext ub n)"

definition win_thread_proc :: "'w ext \<Rightarrow> (double \<Rightarrow> u32) \<Rightarrow> nat \<Rightarrow> (('w, 'z) win_scheme, unit) prog" where
  "win_thread_proc ext ub n = try_catch (win_thread_loop ext ub n) (\<lambda>_. ret ())"

end
