(* ===== verification/Win_Frames.thy ===== *)
theory Win_Frames
  imports Win_Dispatcher Protocol
begin

section \<open>Frames of the Windows dispatcher\<close>

text \<open>
  The functions of the dispatcher stay within every frame that ignores its members; those
  that touch send requests or connections within the frames that let these change.
\<close>

locale win_base_frame = overlap_frame R for R :: "('w, 'z) win_scheme \<Rightarrow> ('w, 'z) win_scheme \<Rightarrow> bool" +
  assumes listening_any: "R s (s\<lparr>w_listening := d\<rparr>)"
    and cp_any: "R s (s\<lparr>w_cp := m\<rparr>)"
    and messages_any: "R s (s\<lparr>w_messages := q\<rparr>)"
    and bws_any: "R s (s\<lparr>w_bws := b\<rparr>)"
    and transfered_any: "R s (s\<lparr>w_transfered := k\<rparr>)"
    and overlaps_any: "R s (s\<lparr>w_overlaps := l1\<rparr>)"
    and accepts_any: "R s (s\<lparr>w_accepts := l2\<rparr>)"
    and conns_any: "R s (s\<lparr>w_conns := l3\<rparr>)"
    and recvs_any: "R s (s\<lparr>w_recvs := l4\<rparr>)"
    and sends_any: "R s (s\<lparr>w_sends := l5\<rparr>)"
begin

lemmas member_any = listening_any cp_any messages_any bws_any
  transfered_any overlaps_any accepts_any conns_any recvs_any sends_any

lemma keeps_with_cp: "(\<And>r. keeps (f r)) \<Longrightarrow> keeps (with_cp f)"
  unfolding with_cp_def by (intro keeps_basic)

lemma keeps_win_messages: "keeps (win_messages f)"
  unfolding win_messages_def by (intro keeps_basic keeps_modify messages_any)

lemma keeps_win_post: "keeps (win_post ext k)" "keeps (win_post_ptr ext k p)"
  unfolding win_post_def win_post_ptr_def
  by (intro keeps_basic keeps_win_messages keeps_with_cp keeps_cp_stop)+

lemma keeps_win_limiter: "keeps (win_limiter f)"
  unfolding win_limiter_def by (intro keeps_modify bws_any)

lemma keeps_win_limiter_insert: "keeps (win_limiter_insert ext p n)"
  unfolding win_limiter_insert_def by (intro keeps_basic keeps_win_limiter) simp_all

lemma keeps_win_recalc: "keeps (win_recalc ext ub)"
  unfolding win_recalc_def by (intro keeps_basic keeps_win_limiter) simp_all

lemmas keeps_members = keeps_win_post keeps_win_limiter keeps_win_limiter_insert keeps_win_recalc

lemma keeps_free_completed:
  "keeps (free_completed_conn ext p rmark)" "keeps (free_completed_overlap ext p rmark)"
  "keeps (free_completed_accept ext p rmark)" "keeps (free_completed_recv ext p rmark)"
  "keeps (free_completed_send ext p rmark)"
  unfolding free_completed_conn_def free_completed_overlap_def free_completed_accept_def
    free_completed_recv_def free_completed_send_def
  by (intro keeps_basic keeps_modify member_any keeps_objects keeps_overlap_objects)+

lemma keeps_free_not_completed: "keeps (free_not_completed_objects ext)"
proof -
  have "R s (s\<lparr>w_overlaps := [], w_accepts := [], w_sends := [], w_recvs := [], w_conns := []\<rparr>)" for s
    by (rule trans [OF trans [OF trans [OF trans [OF overlaps_any accepts_any] sends_any] recvs_any] conns_any])
  then show ?thesis
    unfolding free_not_completed_objects_def block.simps
    by (intro keeps_basic keeps_modify keeps_objects keeps_overlap_objects)
qed

lemma keeps_accept_request: "keeps (accept_request ext)"
  unfolding accept_request_def
  by (intro keeps_basic keeps_new_accept keeps_overlap_objects keeps_modify member_any keeps_with_cp
      keeps_cp_add_socket) simp_all

lemma keeps_win_dtor: "keeps (win_dtor_request ext)" "keeps (win_dtor_finish ext)"
  unfolding win_dtor_request_def win_dtor_finish_def
  by (intro keeps_basic keeps_members keeps_port keeps_modify member_any, simp_all?)+

lemma keeps_win_open_socket: "keeps (win_open_socket ext)"
  unfolding win_open_socket_def
  by (intro keeps_basic keeps_with_cp keeps_cp_add_socket) simp_all

lemma keeps_win_connects: "keeps (win_make_conn ext)" "keeps (win_connect ext ip port cb)"
  unfolding win_make_conn_def win_connect_def
  by (intro keeps_basic keeps_win_open_socket keeps_objects keeps_win_post, simp_all?)+

lemma keeps_win_closes:
  "keeps (win_close_conn ext p)" "keeps (win_close_conn_wait ext p)"
  "keeps (win_close_conn_wait_return p)"
  unfolding win_close_conn_def win_close_conn_wait_def win_close_conn_wait_return_def
  by (intro keeps_basic keeps_close_wait keeps_objects keeps_win_post, simp_all?)+

lemma keeps_win_small:
  "keeps (win_release ext p)" "keeps (win_addref ext p)" "keeps (win_release_send ext p)"
  "keeps (win_stop_accepting ext)" "keeps (win_get_ip_port p)"
  "keeps (win_set_bandwidth n)"
  unfolding win_release_def win_addref_def win_release_send_def win_stop_accepting_def
    win_get_ip_port_def win_set_bandwidth_def
  by (intro keeps_basic keeps_objects keeps_members keeps_modify member_any)+

lemmas keeps_win_functions = keeps_win_dtor keeps_win_connects keeps_win_closes keeps_win_small

lemma keeps_win_create: "keeps (win_create ext p)"
  unfolding win_create_def
  by (intro keeps_basic keeps_objects keeps_overlap_objects keeps_new_overlap keeps_modify member_any
      overlap_any) simp_all

lemma keeps_win_close_socket: "keeps (win_close_socket ext p)"
  unfolding win_close_socket_def by (intro keeps_basic) simp_all

lemma keeps_win_drop: "keeps (win_drop ext p)"
  unfolding win_drop_def by (intro keeps_basic keeps_free_completed)

lemma keeps_activate_receiving: "keeps (activate_receiving ext p)"
  unfolding activate_receiving_def
  by (intro keeps_basic keeps_objects keeps_modify member_any) simp_all

lemmas keeps_win_thread = keeps_win_create keeps_win_close_socket keeps_win_drop
  keeps_activate_receiving keeps_free_completed keeps_accept_request

end

text \<open>A frame that lets the accepted callback and the semaphore of \<open>stop_accepting\<close> change.\<close>

locale win_frame = win_base_frame +
  assumes accepted_any: "R s (s\<lparr>w_accepted := a\<rparr>)"
    and stop_any: "R s (s\<lparr>w_stop_sem := n\<rparr>)"
    and stop_accepted_any: "R s (s\<lparr>w_accepted := a, w_stop_sem := n\<rparr>)"
begin

lemma keeps_win_start_listening: "keeps (win_start_listening ext port cb)"
  unfolding win_start_listening_def
  by (intro keeps_basic keeps_port keeps_accept_request keeps_modify member_any stop_accepted_any) simp_all

lemma keeps_win_stop_return: "keeps win_stop_accepting_return"
  unfolding win_stop_accepting_return_def by (intro keeps_basic keeps_modify stop_any)

lemmas keeps_win_interface = keeps_win_functions keeps_win_stop_return

end

text \<open>The functions that change send requests.\<close>

locale win_base_send_any = win_base_frame + send_any_frame
begin

lemma keeps_win_send: "keeps (win_send ext p buf cb)" "keeps (win_send_no_callback ext p buf)"
  unfolding win_send_no_callback_def win_send_def
  by (intro keeps_basic keeps_new_send_req keeps_set_send keeps_objects keeps_win_post)+

lemma keeps_win_break_send:
  "keeps (win_break_send ext sr)" "keeps (win_break_send_init sr)" "keeps (win_break_send_return sr)"
  unfolding win_break_send_def win_break_send_init_def win_break_send_return_def
  by (intro keeps_basic keeps_objects keeps_win_post keeps_set_send keeps_break)+

end

locale win_base_send = win_base_send_any + send_frame
begin

lemma keeps_win_call_false_cb: "keeps (win_call_false_cb ext sr)"
  unfolding win_call_false_cb_def block.simps
  by (intro keeps_basic keeps_send_callback keeps_set_send keeps_break keeps_objects)

lemma keeps_win_do_send: "keeps (win_do_send ext sr limited)"
  unfolding win_do_send_def
  by (intro keeps_basic keeps_send_callback keeps_free_completed keeps_win_limiter) simp_all

lemma keeps_win_send_request: "keeps (win_send_request ext sr)"
  unfolding win_send_request_def
  by (intro keeps_basic keeps_win_do_send keeps_modify member_any)

lemma keeps_for_until: "(\<And>x. keeps (body x)) \<Longrightarrow> keeps (for_until body xs)"
proof (induction xs)
  case (Cons x xs)
  show ?case unfolding for_until.simps by (intro keeps_basic Cons)
qed (simp add: keeps_ret)

lemma keeps_sendbt: "keeps (sendbt ext)"
  unfolding sendbt_def
  by (intro keeps_basic keeps_for_until keeps_win_do_send) simp_all

lemma keeps_complete_send: "keeps (complete_send ext sr)"
  unfolding complete_send_def
  by (intro keeps_basic keeps_win_limiter keeps_win_limiter_insert keeps_set_send
      keeps_send_callback keeps_free_completed)

end

locale win_send_any = win_base_send_any + win_frame

locale win_send_frame = win_base_send + win_frame

text \<open>The functions that change connections and call their callbacks.\<close>

locale win_base_conn_any = win_base_frame + conn_any_frame
begin

lemma keeps_win_connect_conn: "keeps (win_connect_conn ext p ip port cb)"
  unfolding win_connect_conn_def
  by (intro keeps_basic keeps_set_conn_any keeps_win_post) simp_all

end

locale win_conn_any = win_base_conn_any + win_frame

locale win_base_conn = win_base_conn_any + conn_call_frame
begin

lemma keeps_win_close_connection: "keeps (win_close_connection ext p iocp)"
  unfolding win_close_connection_def win_forget_callbacks_def block.simps
  by (intro keeps_basic keeps_conn_state keeps_connection_calls keeps_set_conn_any
      keeps_win_limiter keeps_win_thread) simp_all

lemma keeps_win_close: "keeps (win_close ext p)"
  unfolding win_close_def block.simps
  by (intro keeps_basic keeps_win_close_connection keeps_objects keeps_modify member_any)

lemma keeps_start_connection: "keeps (start_connection ext p)"
  unfolding start_connection_def
  by (intro keeps_basic keeps_win_limiter_insert keeps_activate_receiving keeps_win_close_connection)

lemma keeps_complete_recv: "keeps (complete_recv ext rr)"
  unfolding complete_recv_def deliver_def next_receive_def
  by (intro keeps_basic keeps_connection_calls keeps_win_close_connection) simp_all

lemma keeps_complete_overlap: "keeps (complete_overlap ext p)"
  unfolding complete_overlap_def win_set_connected_def block.simps
  by (intro keeps_basic keeps_connection_calls keeps_set_conn_any keeps_start_connection
      keeps_free_completed) simp_all

lemmas keeps_win_closings = keeps_win_close_connection keeps_win_close keeps_complete_recv
  keeps_complete_overlap

end

locale win_base_accepting = win_base_conn + conn_frame
begin

lemma keeps_complete_accept: "keeps (complete_accept ext peer a)"
  unfolding complete_accept_def win_set_connected_def block.simps
  by (intro keeps_basic keeps_set_conn_any keeps_start_connection keeps_free_completed
      keeps_objects keeps_callback keeps_accept_request) simp_all

end

locale win_conn_frame = win_base_accepting + win_frame
begin

lemmas keeps_win_connections = keeps_win_connect_conn keeps_win_close_connection keeps_win_close
  keeps_complete_recv keeps_complete_overlap keeps_complete_accept

end

locale win_base_closing = win_base_conn + close_frame
begin

lemma keeps_win_close_wait: "keeps (win_close_wait ext p)"
  unfolding win_close_wait_def block.simps
  by (intro keeps_basic keeps_win_close_connection keeps_objects keeps_modify member_any keeps_close_post)

lemmas keeps_win_closing = keeps_win_close keeps_win_close_wait

end

locale win_closing_frame = win_conn_frame + win_base_closing

end
