(* ===== verification/Win_System.thy ===== *)
theory Win_System
  imports Win_Frames
begin

section \<open>The Windows dispatcher as a system of threads\<close>

text \<open>
  Each iteration of the dispatcher thread handles one completion or one message.  Between
  two iterations other threads call the interface.  The thread ends when it is told to and
  also when it catches an exception of the library; the process goes on then.  Any other
  exception, and any that leaves a function of the interface, ends the process.
\<close>

datatype win_api =
    W_make_conn
  | W_connect_conn addr u32 u16 callbacks
  | W_connect u32 u16 callbacks
  | W_close_conn addr
  | W_close_conn_wait addr
  | W_close_conn_wait_return addr
  | W_release addr
  | W_addref addr
  | W_release_send addr
  | W_send addr "u8 list" "cbid option"
  | W_send_no_callback addr "u8 list"
  | W_break_send addr
  | W_break_send_init addr
  | W_break_send_return addr
  | W_stop_accepting
  | W_stop_accepting_return
  | W_get_ip_port addr
  | W_set_bandwidth u32
  | W_delete
  | W_delete_finish

definition win_discard :: "('s, 'a) prog \<Rightarrow> ('s, unit) prog" where
  "win_discard m = bnd m (\<lambda>_. ret ())"

fun run_win_api :: "'w ext \<Rightarrow> win_api \<Rightarrow> ('w win, unit) prog" where
  "run_win_api ext W_make_conn = win_discard (win_make_conn ext)"
| "run_win_api ext (W_connect_conn p ip port cb) = win_connect_conn ext p ip port cb"
| "run_win_api ext (W_connect ip port cb) = win_discard (win_connect ext ip port cb)"
| "run_win_api ext (W_close_conn p) = win_close_conn ext p"
| "run_win_api ext (W_close_conn_wait p) = win_close_conn_wait ext p"
| "run_win_api ext (W_close_conn_wait_return p) = win_discard (win_close_conn_wait_return p)"
| "run_win_api ext (W_release p) = win_release ext p"
| "run_win_api ext (W_addref p) = win_addref ext p"
| "run_win_api ext (W_release_send p) = win_release_send ext p"
| "run_win_api ext (W_send p buf cb) = win_discard (win_send ext p buf cb)"
| "run_win_api ext (W_send_no_callback p buf) = win_discard (win_send_no_callback ext p buf)"
| "run_win_api ext (W_break_send p) = win_break_send ext p"
| "run_win_api ext (W_break_send_init p) = win_break_send_init p"
| "run_win_api ext (W_break_send_return p) = win_discard (win_break_send_return p)"
| "run_win_api ext W_stop_accepting = win_stop_accepting ext"
| "run_win_api ext W_stop_accepting_return = win_discard win_stop_accepting_return"
| "run_win_api ext (W_get_ip_port p) = win_discard (win_get_ip_port p)"
| "run_win_api ext (W_set_bandwidth n) = win_set_bandwidth n"
| "run_win_api ext W_delete = win_dtor_request ext"
| "run_win_api ext W_delete_finish = win_dtor_finish ext"

datatype win_thread = W_running | W_ended | W_failed exn

fun win_allowed :: "win_api \<Rightarrow> win_thread \<times> 'w win \<Rightarrow> bool" where
  "win_allowed (W_connect_conn p ip port cb) (th, s) =
     (case conn_heap s p of None \<Rightarrow> True | Some c \<Rightarrow> conn_st c = Cs_wait4connect)"
| "win_allowed W_delete_finish (th, s) = (th = W_ended)"
| "win_allowed _ _ = True"

fun win_thread_step :: "'w ext \<Rightarrow> (double \<Rightarrow> u32) \<Rightarrow> win_thread \<times> 'w win \<Rightarrow> win_thread \<times> 'w win" where
  "win_thread_step ext ub (W_running, s) = (case win_iteration ext ub s of
     (Inl e, t) \<Rightarrow> (if is_lib_exception e then W_ended else W_failed e, t)
   | (Inr exit, t) \<Rightarrow> (if exit then W_ended else W_running, t))"
| "win_thread_step ext ub (W_ended, s) = (W_ended, s)"
| "win_thread_step ext ub (W_failed e, s) = (W_failed e, s)"

fun win_api_step :: "'w ext \<Rightarrow> win_api \<Rightarrow> win_thread \<times> 'w win \<Rightarrow> win_thread \<times> 'w win" where
  "win_api_step ext a (W_failed e, s) = (W_failed e, s)"
| "win_api_step ext a (th, s) = (case run_win_api ext a s of
     (Inl e, t) \<Rightarrow> (W_failed e, t)
   | (Inr _, t) \<Rightarrow> (th, t))"

inductive win_step :: "'w ext \<Rightarrow> (double \<Rightarrow> u32) \<Rightarrow> win_thread \<times> 'w win \<Rightarrow> win_thread \<times> 'w win \<Rightarrow> bool"
  for ext :: "'w ext" and ub :: "double \<Rightarrow> u32" where
  win_by_thread: "win_step ext ub c (win_thread_step ext ub c)"
| win_by_api: "win_allowed a c \<Longrightarrow> win_step ext ub c (win_api_step ext a c)"

definition empty_win :: "'w \<Rightarrow> 'w win" where
  "empty_win w = \<lparr>world = w, trace = [], conn_heap = (\<lambda>_. None), recv_heap = (\<lambda>_. None),
     send_heap = (\<lambda>_. None), overlap_heap = (\<lambda>_. None), accept_heap = (\<lambda>_. None), last_addr = 0,
     w_listening = -1, w_accepted = None, w_stop_sem = 0, w_cp = None, w_messages = None,
     w_bws = new_bwstop 0 \<lparr>tb_time = 0, tb_millitm = 0\<rparr> 0, w_transfered = 0, w_overlaps = [],
     w_accepts = [], w_conns = [], w_recvs = [], w_sends = []\<rparr>"

definition win_initial :: "'w ext \<Rightarrow> win_thread \<times> 'w win \<Rightarrow> bool" where
  "win_initial ext c \<longleftrightarrow> (\<exists>w j port cb t.
     new_win_tcp_dispatcher ext j port cb (empty_win w) = (Inr (), t) \<and> c = (W_running, t))"

inductive win_reachable :: "'w ext \<Rightarrow> (double \<Rightarrow> u32) \<Rightarrow> win_thread \<times> 'w win \<Rightarrow> bool"
  for ext :: "'w ext" and ub :: "double \<Rightarrow> u32" where
  win_start: "win_initial ext c \<Longrightarrow> win_reachable ext ub c"
| win_next: "win_reachable ext ub c \<Longrightarrow> win_step ext ub c d \<Longrightarrow> win_reachable ext ub d"

text \<open>The steps of the running thread are the loop of \<open>thread_proc\<close>.\<close>

fun win_steps :: "'w ext \<Rightarrow> (double \<Rightarrow> u32) \<Rightarrow> nat \<Rightarrow> win_thread \<times> 'w win \<Rightarrow> win_thread \<times> 'w win" where
  "win_steps ext ub 0 c = c"
| "win_steps ext ub (Suc n) c = win_steps ext ub n (win_thread_step ext ub c)"

lemma win_steps_ended [simp]: "win_steps ext ub n (W_ended, s) = (W_ended, s)"
  by (induction n) simp_all

subsection \<open>Invariants of every run\<close>

text \<open>
  The contract of an invariant: \<open>I\<close> while the thread runs, and what is left of it, \<open>J\<close>,
  when it has ended, which the interface keeps.
\<close>

locale win_step_invariant =
  fixes ext :: "'w ext" and I J :: "'w win \<Rightarrow> bool"
  assumes weaker: "I s \<Longrightarrow> J s"
    and iteration_triple: "triple I (win_iteration ext ub) (\<lambda>_. I) J"
    and api_wp: "I s \<Longrightarrow> win_allowed a (th, s) \<Longrightarrow> wp (run_win_api ext a) (\<lambda>_. I) (\<lambda>_. J) s"
    and api_after: "J s \<Longrightarrow> J (snd (run_win_api ext a s))"
begin

definition holds :: "win_thread \<times> 'w win \<Rightarrow> bool" where
  "holds c = (case fst c of W_running \<Rightarrow> I (snd c) | _ \<Rightarrow> J (snd c))"

lemma result:
  assumes "wp m (\<lambda>_. I) (\<lambda>_. J) s"
  shows "m s = (Inl e, t) \<Longrightarrow> J t" and "m s = (Inr x, t) \<Longrightarrow> I t"
  using wp_Inl [OF assms] wp_Inr [OF assms] by auto

lemma holds_J: "holds c \<Longrightarrow> J (snd c)"
  by (auto simp: holds_def intro: weaker split: win_thread.splits)

lemma thread_holds: "holds c \<Longrightarrow> holds (win_thread_step ext ub c)"
proof -
  obtain th s where c: "c = (th, s)" by (cases c)
  assume h: "holds c"
  show ?thesis
  proof (cases th)
    case W_running
    with h c have "wp (win_iteration ext ub) (\<lambda>_. I) (\<lambda>_. J) s"
      by (intro tripleD [OF iteration_triple]) (simp add: holds_def)
    from result [OF this] c W_running show ?thesis
      by (auto simp: holds_def intro: weaker split: prod.split sum.split)
  qed (use h c in simp_all)
qed

lemma api_holds: "holds c \<Longrightarrow> win_allowed a c \<Longrightarrow> holds (win_api_step ext a c)"
proof -
  obtain th s where c: "c = (th, s)" by (cases c)
  assume h: "holds c" and a: "win_allowed a c"
  show ?thesis
  proof (cases th)
    case W_running
    with h c have "I s" by (simp add: holds_def)
    from result [OF api_wp [OF this a [unfolded c]]] c W_running show ?thesis
      by (auto simp: holds_def split: prod.split sum.split)
  next
    case W_ended
    with h c have "J (snd (run_win_api ext a s))" by (intro api_after) (simp add: holds_def)
    with c W_ended show ?thesis by (auto simp: holds_def split: prod.split sum.split)
  qed (use h c in simp_all)
qed

lemma step_holds: "win_step ext ub c d \<Longrightarrow> holds c \<Longrightarrow> holds d"
  by (erule win_step.cases) (simp_all add: thread_holds api_holds)

lemma steps_holds: "(win_step ext ub)\<^sup>*\<^sup>* c d \<Longrightarrow> holds c \<Longrightarrow> holds d"
  by (induction rule: rtranclp_induct) (auto intro: step_holds)

end

locale win_invariant = win_step_invariant +
  assumes start_wp: "wp (new_win_tcp_dispatcher ext j port cb) (\<lambda>_. I) (\<lambda>_. J) (empty_win w)"
begin

lemma reachable_holds: "win_reachable ext ub c \<Longrightarrow> holds c"
proof (induction rule: win_reachable.induct)
  case (win_start c)
  then obtain w j port cb t where
    "new_win_tcp_dispatcher ext j port cb (empty_win w) = (Inr (), t)" "c = (W_running, t)"
    by (auto simp: win_initial_def)
  with result(2) [OF start_wp] show ?case by (auto simp: holds_def)
next
  case (win_next c d)
  then show ?case by (blast intro: step_holds)
qed

lemma always: "win_reachable ext ub c \<Longrightarrow> J (snd c)"
  by (rule holds_J [OF reachable_holds])

end

end
