(* ===== verification/Win_Protocol.thy ===== *)
theory Win_Protocol
  imports Win_System
begin

section \<open>The Windows dispatcher keeps the callback protocol\<close>

text \<open>
  The automaton and the invariant of \<open>Protocol\<close>, for the functions of
  \<open>win_tcp_dispatcher.cpp\<close>.
\<close>

interpretation wq: win_send_frame "quiet :: ('w, 'z) win_scheme \<Rightarrow> ('w, 'z) win_scheme \<Rightarrow> bool"
  by unfold_locales (rule quiet_same [where ks = "[]"], simp_all add: calls_def)+

interpretation wu: win_send_any "userq :: ('w, 'z) win_scheme \<Rightarrow> ('w, 'z) win_scheme \<Rightarrow> bool"
  by unfold_locales (rule userq_same, simp)+

interpretation wuc: win_conn_any "userq :: ('w, 'z) win_scheme \<Rightarrow> ('w, 'z) win_scheme \<Rightarrow> bool"
  by unfold_locales (rule userq_same, simp)

subsection \<open>Closing\<close>

lemma triple_win_forget_callbacks:
  "triple (proto_except p Down) (win_forget_callbacks p) (\<lambda>_. proto) safe"
  unfolding win_forget_callbacks_def by (rule triple_set_conn) simp

lemma triple_win_set_connected:
  "triple (proto_except p Up) (win_set_connected p) (\<lambda>_. proto) safe"
  unfolding win_set_connected_def by (rule triple_set_conn) simp

lemma win_close_wait_triple:
  "triple (proto_except p Fresh :: ('w, 'z) win_scheme \<Rightarrow> bool) (block
     [call_connected ext p False, win_forget_callbacks p, free_completed_conn ext p mark])
     (\<lambda>_. proto) safe"
  unfolding block.simps(2) [of "call_connected ext p False"] block.simps(2) [of "win_forget_callbacks p"]
  by (intro triple_seq [OF triple_call_connected [where ph = Down]]
      triple_seq [OF triple_win_forget_callbacks] triple_block_quiet)
    (auto intro: wq.keeps_free_completed)

lemma win_close_connected_triple:
  "triple (proto_except p Up :: ('w, 'z) win_scheme \<Rightarrow> bool) (block
     [call_closed ext p, win_forget_callbacks p, win_limiter (bw_erase p), win_close_socket ext p,
      whenever iocp (win_drop ext p)]) (\<lambda>_. proto) safe"
  unfolding block.simps(2) [of "call_closed ext p"] block.simps(2) [of "win_forget_callbacks p"]
  by (intro triple_seq [OF triple_call_closed] triple_seq [OF triple_win_forget_callbacks]
      triple_block_quiet)
    (auto intro: wq.keeps_win_thread wq.keeps_win_limiter qt.keeps_whenever)

lemma win_close_connection_triple:
  "triple (proto :: ('w, 'z) win_scheme \<Rightarrow> bool) (win_close_connection ext p iocp) (\<lambda>_. proto) safe"
  unfolding win_close_connection_def
proof (rule triple_bnd [OF triple_deref], rule triple_conn_state)
  fix c :: conn
  let ?at = "\<lambda>s :: ('w, 'z) win_scheme. proto s \<and> conn_heap s p = Some c"
  show "triple ?at (block [call_connected ext p False, win_forget_callbacks p,
       free_completed_conn ext p ''close_connection'']) (\<lambda>_. proto) safe" if "conn_st c = Cs_wait4connect"
    by (rule triple_conseq [OF win_close_wait_triple]) (use proto_state(1) that in auto)
  show "triple ?at (block [call_closed ext p, win_forget_callbacks p, win_limiter (bw_erase p),
       win_close_socket ext p, whenever iocp (win_drop ext p)]) (\<lambda>_. proto) safe" if "conn_st c = Cs_connected"
    by (rule triple_conseq [OF win_close_connected_triple]) (use proto_state(2) that in auto)
  have "triple proto (block [win_close_socket ext p, whenever iocp (win_drop ext p)])
      (\<lambda>_. proto :: ('w, 'z) win_scheme \<Rightarrow> bool) safe"
    by (rule triple_block_quiet) (auto intro: wq.keeps_win_thread qt.keeps_whenever)
  then show "triple ?at (block [win_close_socket ext p, whenever iocp (win_drop ext p)])
      (\<lambda>_. proto) safe"
    by (rule triple_conseq) simp_all
qed

lemma win_closing_triple:
  "triple (proto :: ('w, 'z) win_scheme \<Rightarrow> bool) (win_close ext p) (\<lambda>_. proto) safe"
  "triple (proto :: ('w, 'z) win_scheme \<Rightarrow> bool) (win_close_wait ext p) (\<lambda>_. proto) safe"
  unfolding win_close_def win_close_wait_def block.simps
  by (intro triple_andthen triple_ret win_close_connection_triple quiet_keeps [OF qt.keeps_modify]
      wq.conns_any quiet_keeps [OF qt.keeps_conn_release] quiet_keeps [OF qtp.keeps_close_post];
      simp)+

subsection \<open>New connections\<close>

lemma start_connection_triple:
  "triple (proto :: ('w, 'z) win_scheme \<Rightarrow> bool) (start_connection ext p) (\<lambda>_. proto) safe"
  unfolding start_connection_def
  by (intro triple_andthen triple_bnd_inv triple_whenever win_close_connection_triple
      quiet_keeps [OF wq.keeps_win_limiter_insert] quiet_keeps [OF wq.keeps_activate_receiving])

lemma win_establish_triple:
  "triple (proto_except p Fresh :: ('w, 'z) win_scheme \<Rightarrow> bool)
     (block [call_connected ext p True, win_set_connected p, start_connection ext p]) (\<lambda>_. proto) safe"
  unfolding block.simps
  by (intro triple_seq [OF triple_call_connected [where ph = Up]]
      triple_seq [OF triple_win_set_connected] triple_seq [OF start_connection_triple] triple_ret) simp

lemma complete_overlap_triple:
  "triple (proto :: ('w, 'z) win_scheme \<Rightarrow> bool) (complete_overlap ext ov) (\<lambda>_. proto) safe"
  unfolding complete_overlap_def Let_def
proof (rule triple_bnd_inv [OF triple_deref_inv], rule triple_bnd [OF triple_deref])
  fix i :: iov and c :: conn
  let ?p = "iov_conn i"
  have "triple (\<lambda>s :: ('w, 'z) win_scheme. proto s \<and> conn_heap s ?p = Some c)
      (whenever (cb_connected (cbs c) \<noteq> None)
        (block [call_connected ext ?p True, win_set_connected ?p, start_connection ext ?p]))
      (\<lambda>_. proto) safe"
    unfolding whenever_def
    by (rule triple_if [OF triple_conseq [OF win_establish_triple] triple_proto_ret])
      (use proto_state(3) in auto)
  then show "triple (\<lambda>s :: ('w, 'z) win_scheme. proto s \<and> conn_heap s ?p = Some c)
      (andthen (whenever (cb_connected (cbs c) \<noteq> None)
        (block [call_connected ext ?p True, win_set_connected ?p, start_connection ext ?p]))
       (andthen (free_completed_overlap ext ov ''accept_complete'')
          (free_completed_conn ext ?p ''accept_complete''))) (\<lambda>_. proto) safe"
    by (rule triple_seq)
      (intro triple_andthen quiet_keeps [OF wq.keeps_free_completed(2)]
        quiet_keeps [OF wq.keeps_free_completed(1)])
qed

lemma win_accepted_triple:
  "triple (proto_except p Fresh :: ('w, 'z) win_scheme \<Rightarrow> bool) (block
     [conn_addref ext p m1, conn_addref ext p m2, set_conn p (conn_addr_update (\<lambda>_. Some peer)),
      bnd (callback ext (Cb_accepted p f)) (\<lambda>r. set_conn p (cbs_update (\<lambda>_. r_cbs r))),
      win_set_connected p, start_connection ext p]) (\<lambda>_. proto) safe"
  unfolding block.simps
  by (rule triple_seq, rule except_keeps, rule qt.keeps_conn_addref,
      rule triple_seq, rule except_keeps, rule qt.keeps_conn_addref,
      rule triple_seq, rule except_keeps, rule qt.keeps_set_conn, simp, simp, simp,
      rule triple_seq, rule triple_bnd, rule triple_callback [where ph' = Up], simp, simp, simp,
      rule triple_set_conn_other,
      rule triple_seq, rule triple_win_set_connected,
      rule triple_seq, rule start_connection_triple, rule triple_ret)

lemma complete_accept_triple:
  "triple (proto :: ('w, 'z) win_scheme \<Rightarrow> bool) (complete_accept ext peer a) (\<lambda>_. proto) safe"
  unfolding complete_accept_def
  by (intro triple_bnd_inv triple_andthen triple_option triple_ret triple_deref_inv
      quiet_keeps [OF qt.keeps_gets] quiet_keeps [OF wq.keeps_free_completed(3)]
      quiet_keeps [OF wq.keeps_accept_request] triple_bnd [OF new_conn_triple] win_accepted_triple)

subsection \<open>Receiving\<close>

lemma deliver_triple:
  "triple (proto :: ('w, 'z) win_scheme \<Rightarrow> bool) (deliver ext rr p) (\<lambda>_. proto) proto"
proof (rule tripleI)
  fix s :: "('w, 'z) win_scheme"
  assume s: "proto s"
  show "wp (deliver ext rr p) (\<lambda>_. proto) (\<lambda>_. proto) s"
    using s call_read_wp [OF s]
    by (auto simp: deliver_def wp_bnd wp_deref wp_whenever split: option.split)
qed

lemma next_receive_triple:
  "triple (proto :: ('w, 'z) win_scheme \<Rightarrow> bool) (next_receive ext rr p) (\<lambda>_. proto) safe"
  unfolding next_receive_def
  by (intro triple_bnd_inv triple_if triple_deref_inv triple_ret win_close_connection_triple
      quiet_keeps [OF qt.keeps_call]) simp_all

lemma complete_recv_triple:
  "triple (proto :: ('w, 'z) win_scheme \<Rightarrow> bool) (complete_recv ext rr) (\<lambda>_. proto) safe"
proof -
  have "triple (proto :: ('w, 'z) win_scheme \<Rightarrow> bool) (try_catch (andthen (deliver ext rr p) (ret True))
      (\<lambda>_. andthen (win_close_connection ext p True) (ret False))) (\<lambda>_. proto) safe" for p
    by (rule triple_try_catch [where I = proto], intro triple_andthen deliver_triple triple_ret,
        intro triple_andthen win_close_connection_triple triple_ret, rule proto_safe)
  then show ?thesis
    unfolding complete_recv_def Let_def
    by (intro triple_bnd_inv triple_andthen triple_whenever triple_deref_inv next_receive_triple
        quiet_keeps [OF qt.keeps_gets] quiet_keeps [OF qt.keeps_set_recv])
qed

subsection \<open>The thread and the interface\<close>

lemma win_handle_message_triple:
  "triple (proto :: ('w, 'z) win_scheme \<Rightarrow> bool) (win_handle_message ext im) (\<lambda>_. proto) safe"
  unfolding win_handle_message_def win_with_ptr_def
  by (intro triple_if triple_andthen triple_option triple_ret win_closing_triple
      quiet_keeps [OF wq.keeps_free_not_completed] quiet_keeps [OF qt.keeps_modify]
      wq.stop_accepted_any quiet_keeps [OF qt.keeps_throw] quiet_keeps [OF wq.keeps_win_create]
      quiet_keeps [OF wq.keeps_win_send_request] quiet_keeps [OF wq.keeps_win_call_false_cb])

lemma win_handle_wakeup_triple:
  "triple (proto :: ('w, 'z) win_scheme \<Rightarrow> bool) (win_handle_wakeup ext) (\<lambda>_. proto) safe"
  unfolding win_handle_wakeup_def
  by (intro triple_bnd_inv triple_option triple_prod triple_andthen win_handle_message_triple
      quiet_keeps [OF qt.keeps_gets] quiet_keeps [OF qt.keeps_throw] quiet_keeps [OF qt.keeps_modify]
      wq.messages_any)

lemma win_handle_completion_triple:
  "triple (proto :: ('w, 'z) win_scheme \<Rightarrow> bool) (win_handle_completion ext code x peer) (\<lambda>_. proto) safe"
proof -
  have "triple (proto :: ('w, 'z) win_scheme \<Rightarrow> bool) (case x of
        AcceptObj a \<Rightarrow> complete_accept ext peer a | OverlapObj p \<Rightarrow> complete_overlap ext p
      | RecvObj p \<Rightarrow> complete_recv ext p | SendObj p \<Rightarrow> complete_send ext p | ConnObj p \<Rightarrow> ret ())
      (\<lambda>_. proto) safe"
    by (cases x) (simp_all add: complete_accept_triple complete_overlap_triple complete_recv_triple
        quiet_keeps [OF wq.keeps_complete_send] triple_ret)
  then show ?thesis
    unfolding win_handle_completion_def
    by (intro triple_if triple_bnd_inv win_close_connection_triple quiet_keeps [OF qt.keeps_obj_iov])
qed

lemma win_iteration_triple:
  "triple (proto :: ('w, 'z) win_scheme \<Rightarrow> bool) (win_iteration ext ub) (\<lambda>_. proto) safe"
  unfolding win_iteration_def
  by (intro triple_bnd_inv triple_prod triple_andthen triple_entry triple_if triple_option triple_whenever
      triple_ret win_handle_wakeup_triple win_handle_completion_triple quiet_keeps [OF wq.keeps_with_cp]
      qt.keeps_get_transfer quiet_keeps [OF qt.keeps_modify] wq.transfered_any
      quiet_keeps [OF qt.keeps_gets] quiet_keeps [OF wq.keeps_win_recalc]
      quiet_keeps [OF wq.keeps_sendbt] quiet_keeps [OF qt.keeps_throw])

text \<open>\<open>connect(conn,..)\<close> replaces the callbacks of a connection that was never connected.\<close>

lemma win_connect_conn_wp:
  fixes s :: "('w, 'z) win_scheme"
  assumes "proto s" and "\<And>c. conn_heap s p = Some c \<Longrightarrow> conn_st c = Cs_wait4connect"
  shows "wp (win_connect_conn ext p ip port cb) (\<lambda>_. proto) (\<lambda>_. proto) s"
proof -
  let ?P = "\<lambda>s :: ('w, 'z) win_scheme. proto s \<and> (\<forall>c. conn_heap s p = Some c \<longrightarrow> conn_st c = Cs_wait4connect)"
  have "triple ?P (win_connect_conn ext p ip port cb) (\<lambda>_. proto) proto"
    unfolding win_connect_conn_def
    by (intro triple_try_catch [where I = proto] triple_seq [OF waiting_set_addr]
        triple_seq [OF waiting_set_cbs] triple_ret quiet_triple wq.keeps_win_post) simp
  then show ?thesis by (rule tripleD) (simp add: assms)
qed

definition win_connects_conn :: "win_api \<Rightarrow> bool" where
  "win_connects_conn a = (case a of W_connect_conn _ _ _ _ \<Rightarrow> True | _ \<Rightarrow> False)"

lemma win_discard_keeps: "qt.keeps m \<Longrightarrow> qt.keeps (win_discard m)"
  unfolding win_discard_def by (intro qt.keeps_bnd qt.keeps_ret)

lemma win_quiet_api: "win_connects_conn a \<or> qt.keeps (run_win_api ext a)"
  by (cases a) (simp_all only: win_connects_conn_def win_api.case run_win_api.simps simp_thms
      win_discard_keeps wq.keeps_win_interface wq.keeps_win_send wq.keeps_win_break_send)

lemma run_win_api_proto:
  assumes "proto s" and "win_allowed a (th, s)"
  shows "proto (snd (run_win_api ext a s))"
proof (cases "win_connects_conn a")
  case True
  then obtain p ip port cb where a: "a = W_connect_conn p ip port cb"
    by (auto simp: win_connects_conn_def split: win_api.splits)
  then have "wp (win_connect_conn ext p ip port cb) (\<lambda>_. proto) (\<lambda>_. proto) s"
    using assms by (intro win_connect_conn_wp) (auto split: option.splits)
  with a show ?thesis by (simp add: wp_snd)
next
  case False
  then have "qt.keeps (run_win_api ext a)" using win_quiet_api by blast
  then show ?thesis using quiet_proto [OF qt.keepsD] assms(1) by blast
qed

text \<open>No function of the interface calls the user's code.\<close>

lemma win_discard_userq: "uq.keeps m \<Longrightarrow> uq.keeps (win_discard m)"
  unfolding win_discard_def by (intro uq.keeps_bnd uq.keeps_ret)

lemma win_userq_api: "uq.keeps (run_win_api ext a)"
  by (cases a) (simp_all only: run_win_api.simps win_discard_userq wu.keeps_win_interface
      wu.keeps_win_send wu.keeps_win_break_send wuc.keeps_win_connect_conn)

lemma run_win_api_safe: "safe s \<Longrightarrow> safe (snd (run_win_api ext a s))"
  by (rule userq_safe [OF win_userq_api])

subsection \<open>Every run\<close>

lemma empty_win_proto: "proto (empty_win w)"
  by (simp add: proto_def safe_def empty_win_def calls_def)

lemma new_win_quiet:
  "qt.keeps (new_win_tcp_dispatcher ext j port cb :: (('w, 'z) win_scheme, unit) prog)"
proof -
  have "quiet s (s\<lparr>w_bws := b, w_listening := d, w_accepted := a, w_stop_sem := n, w_cp := m,
      w_messages := q, w_transfered := k, w_overlaps := l1, w_accepts := l2, w_conns := l3,
      w_recvs := l4, w_sends := l5\<rparr>)" for s :: "('w, 'z) win_scheme" and b d a n m q k l1 l2 l3 l4 l5
    by (rule quiet_same [where ks = "[]"]) (simp_all add: calls_def)
  then show ?thesis
    unfolding new_win_tcp_dispatcher_def
    by (intro qt.keeps_basic qt.keeps_modify wq.keeps_win_start_listening qt.keeps_delete_cp_reactor)
      simp_all
qed

interpretation win_protocol: win_invariant ext "proto :: 'w win \<Rightarrow> bool" safe
  for ext :: "'w ext"
proof unfold_locales
  show "wp (run_win_api ext a) (\<lambda>_. proto) (\<lambda>_. safe) s"
    if "proto s" "win_allowed a (th, s)" for s :: "'w win" and a th
    using run_win_api_proto [OF that, of ext] proto_safe
    by (auto simp: wp_def split: prod.split sum.split)
  show "wp (new_win_tcp_dispatcher ext j port cb) (\<lambda>_. proto) (\<lambda>_. safe) (empty_win w)"
    for j port cb and w :: 'w
    by (rule tripleD [OF quiet_keeps [OF new_win_quiet] empty_win_proto])
qed (auto intro: proto_safe win_iteration_triple run_win_api_safe)

end
