(* ===== verification/Win_Sends.thy ===== *)
theory Win_Sends
  imports Win_Protocol Sends
begin

section \<open>The Windows dispatcher calls the callback of a send request at most once\<close>

text \<open>Every step of the Windows dispatcher keeps the invariant of \<open>Sends\<close>.\<close>

interpretation swq: win_closing_frame "sendq :: ('w, 'z) win_scheme \<Rightarrow> ('w, 'z) win_scheme \<Rightarrow> bool"
  by unfold_locales (rule sendq_same, simp_all)+

subsection \<open>The functions that change send requests\<close>

lemma win_send_triple:
  "triple (sends_ok A :: ('w, 'z) win_scheme \<Rightarrow> bool) (win_send ext p buf cb) (\<lambda>_. sends_ok A) (sends_ok A)"
  unfolding win_send_def
  by (rule triple_try_catch [where I = "sends_ok A"], rule triple_bnd, rule new_send_req_triple(2),
      rule triple_bnd, rule sends_new_keeps, rule sq.keeps_deref,
      rule triple_seq, rule set_send_new_triple, simp)
    (intro triple_ret triple_andthen set_send_triple sends_keeps [OF sq.keeps_send_addref]
      sends_keeps [OF swq.keeps_win_post(2)], simp_all add: triple_ret)

lemma win_send_no_callback_triple:
  "triple (sends_ok A :: ('w, 'z) win_scheme \<Rightarrow> bool) (win_send_no_callback ext p buf) (\<lambda>_. sends_ok A) (sends_ok A)"
  unfolding win_send_no_callback_def
  by (intro triple_bnd_inv triple_andthen triple_ret win_send_triple sends_keeps sq.keeps_send_release)

lemma win_break_send_triple:
  "triple (sends_ok A :: ('w, 'z) win_scheme \<Rightarrow> bool) (win_break_send ext sr) (\<lambda>_. sends_ok A) (sends_ok A)"
  unfolding win_break_send_def
  by (intro triple_andthen sends_keeps [OF sq.keeps_send_addref] sends_keeps [OF swq.keeps_win_post(2)])

lemma win_break_send_init_triple:
  "triple (sends_ok A :: ('w, 'z) win_scheme \<Rightarrow> bool) (win_break_send_init sr) (\<lambda>_. sends_ok A) (sends_ok A)"
  unfolding win_break_send_init_def by (rule set_send_triple) simp_all

lemma win_break_send_return_triple:
  "triple (sends_ok A :: ('w, 'z) win_scheme \<Rightarrow> bool) (win_break_send_return sr) (\<lambda>_. sends_ok A) (sends_ok A)"
  unfolding win_break_send_return_def
  by (rule break_triple)

lemma win_call_false_cb_triple:
  "triple (sends_ok A :: ('w, 'z) win_scheme \<Rightarrow> bool) (win_call_false_cb ext sr) (\<lambda>_. sends_ok A) sends_safe"
  unfolding win_call_false_cb_def by (rule false_cb_triple [OF sq.keeps_send_release])

lemma win_do_send_triple:
  "triple (sends_ok A :: ('w, 'z) win_scheme \<Rightarrow> bool) (win_do_send ext sr limited) (\<lambda>_. sends_ok A) sends_safe"
  unfolding win_do_send_def Let_def
  by (intro triple_bnd_inv triple_andthen triple_if triple_whenever triple_ret send_callback_triple
      sends_weak [OF sends_keeps] sq.keeps_deref sq.keeps_call sq.keeps_throw sq.keeps_set_conn_any
      swq.keeps_free_completed swq.keeps_win_limiter) simp_all

lemma win_send_request_triple:
  "triple (sends_ok A :: ('w, 'z) win_scheme \<Rightarrow> bool) (win_send_request ext sr) (\<lambda>_. sends_ok A) sends_safe"
  unfolding win_send_request_def
  by (intro triple_bnd_inv triple_if triple_whenever win_do_send_triple sends_weak [OF sends_keeps]
      sq.keeps_gets sq.keeps_modify swq.sends_any)

lemma sendbt_triple:
  "triple (sends_ok A :: ('w, 'z) win_scheme \<Rightarrow> bool) (sendbt ext) (\<lambda>_. sends_ok A) sends_safe"
  unfolding sendbt_def Let_def
  by (intro triple_bnd_inv triple_for_until triple_andthen triple_whenever triple_ret win_do_send_triple
      sends_weak [OF sends_keeps] sq.keeps_gets sq.keeps_deref sq.keeps_set_conn_any) simp_all

lemma complete_send_triple:
  "triple (sends_ok A :: ('w, 'z) win_scheme \<Rightarrow> bool) (complete_send ext sr) (\<lambda>_. sends_ok A) sends_safe"
  unfolding complete_send_def
  by (intro triple_bnd_inv triple_andthen triple_whenever send_callback_triple
      sends_weak [OF set_send_triple] sends_weak [OF sends_keeps] sq.keeps_gets sq.keeps_deref
      swq.keeps_win_limiter swq.keeps_win_limiter_insert swq.keeps_free_completed) simp_all

subsection \<open>Every step\<close>

lemma win_sends_handle_message:
  "triple (sends_ok A :: ('w, 'z) win_scheme \<Rightarrow> bool) (win_handle_message ext im) (\<lambda>_. sends_ok A) sends_safe"
  unfolding win_handle_message_def win_with_ptr_def
  by (intro triple_if triple_andthen triple_option triple_ret win_call_false_cb_triple
      win_send_request_triple sends_weak [OF sends_keeps] swq.keeps_free_not_completed
      swq.keeps_win_closing swq.keeps_win_create sq.keeps_throw sq.keeps_modify swq.stop_accepted_any)

lemma win_sends_handle_completion:
  "triple (sends_ok A :: ('w, 'z) win_scheme \<Rightarrow> bool) (win_handle_completion ext code x peer)
     (\<lambda>_. sends_ok A) sends_safe"
proof -
  have "triple (sends_ok A :: ('w, 'z) win_scheme \<Rightarrow> bool) (case x of
        AcceptObj a \<Rightarrow> complete_accept ext peer a | OverlapObj p \<Rightarrow> complete_overlap ext p
      | RecvObj p \<Rightarrow> complete_recv ext p | SendObj p \<Rightarrow> complete_send ext p | ConnObj p \<Rightarrow> ret ())
      (\<lambda>_. sends_ok A) sends_safe"
    by (cases x) (simp_all add: complete_send_triple triple_ret sends_weak [OF sends_keeps]
        swq.keeps_win_connections)
  moreover have "triple (sends_ok A :: ('w, 'z) win_scheme \<Rightarrow> bool)
      (bnd (obj_iov x) (\<lambda>i. win_close_connection ext (iov_conn i) True)) (\<lambda>_. sends_ok A) sends_safe"
    by (intro sends_weak [OF sends_keeps] sq.keeps_bnd sq.keeps_obj_iov swq.keeps_win_close_connection)
  ultimately show ?thesis unfolding win_handle_completion_def by (intro triple_if)
qed

lemma win_sends_iteration:
  "triple (sends_ok A :: ('w, 'z) win_scheme \<Rightarrow> bool) (win_iteration ext ub) (\<lambda>_. sends_ok A) sends_safe"
  unfolding win_iteration_def win_handle_wakeup_def
  by (intro triple_bnd_inv triple_prod triple_andthen triple_entry triple_if triple_option triple_whenever
      triple_ret win_sends_handle_message win_sends_handle_completion sendbt_triple
      sends_weak [OF sends_keeps] swq.keeps_with_cp sq.keeps_get_transfer sq.keeps_modify
      swq.transfered_any swq.messages_any sq.keeps_gets swq.keeps_win_recalc sq.keeps_throw)

lemma win_discard_triple: "triple I m (\<lambda>_. I) I \<Longrightarrow> triple I (win_discard m) (\<lambda>_. I) I"
  unfolding win_discard_def by (intro triple_bnd_inv triple_ret)

lemma run_win_api_sends: "triple (sends_ok A) (run_win_api ext a) (\<lambda>_. sends_ok A) (sends_ok A)"
proof (cases a)
qed (simp_all only: run_win_api.simps win_discard_triple win_send_triple win_send_no_callback_triple
    win_break_send_triple win_break_send_init_triple win_break_send_return_triple sends_keeps
    swq.keeps_win_interface swq.keeps_win_connect_conn)

lemma run_win_api_sends_safe: "sends_safe s \<Longrightarrow> sends_safe (snd (run_win_api ext a s))"
  by (rule userq_sends [OF win_userq_api])

lemma new_win_sendq:
  "sq.keeps (new_win_tcp_dispatcher ext j port cb :: (('w, 'z) win_scheme, unit) prog)"
proof -
  have "sendq s (s\<lparr>w_bws := b, w_listening := d, w_accepted := a, w_stop_sem := n, w_cp := m,
      w_messages := q, w_transfered := k, w_overlaps := l1, w_accepts := l2, w_conns := l3,
      w_recvs := l4, w_sends := l5\<rparr>)" for s :: "('w, 'z) win_scheme" and b d a n m q k l1 l2 l3 l4 l5
    by (rule sendq_same) simp_all
  then show ?thesis
    unfolding new_win_tcp_dispatcher_def
    by (intro sq.keeps_basic sq.keeps_modify swq.keeps_win_start_listening sq.keeps_delete_cp_reactor)
      simp_all
qed

lemma empty_win_sends: "sends_ok {} (empty_win w)"
  by (simp add: sends_ok_def sends_safe_def sent_count_def empty_win_def calls_def)

interpretation win_sending: win_invariant ext "sends_ok {} :: 'w win \<Rightarrow> bool" sends_safe
  for ext :: "'w ext"
  by unfold_locales (auto intro: sends_ok_safe win_sends_iteration run_win_api_sends_safe
      tripleD [OF sends_weak [OF run_win_api_sends]]
      tripleD [OF sends_weak [OF sends_keeps [OF new_win_sendq]] empty_win_sends])

end
