(* ===== verification/Win_Demo.thy ===== *)
theory Win_Demo
  imports Win_Sends Simulated
begin

section \<open>A simulated outside world, and concrete runs of the Windows dispatcher\<close>

text \<open>
  \<open>sim_win\<close> is a concrete outside world: handles are numbered upwards from 7, every call
  succeeds, asynchronous operations are pending, completions come from a script and then
  time out, and objects count their references as \<open>refcounted_obj\<close> does: the release of the
  last one destroys the object.
\<close>

record win_sim =
  next_handle :: fd
  completions :: "reply list"
  counts :: "(obj \<times> nat) list"

definition timeout_reply :: reply where
  "timeout_reply = (plain_reply 0)\<lparr>err := WAIT_TIMEOUT\<rparr>"

fun sim_win :: "win_sim ext" where
  "sim_win (Os Socket) w = (plain_reply (next_handle w), w\<lparr>next_handle := next_handle w + 1\<rparr>)"
| "sim_win (Win Create_iocp) w = (plain_reply 3, w)"
| "sim_win (Win (Iocp_associate d)) w = (plain_reply 1, w)"
| "sim_win (Win (Connect_ex d a ov)) w = (plain_reply 1, w)"
| "sim_win (Win (Wsa_send d bs sr)) w = (pending_reply, w)"
| "sim_win (Win (Wsa_recv d n rr)) w = (pending_reply, w)"
| "sim_win (Win (Iocp_get h)) w = (case completions w of [] \<Rightarrow> (timeout_reply, w)
     | r # rs \<Rightarrow> (r, w\<lparr>completions := rs\<rparr>))"
| "sim_win (Addref x m) w = (plain_reply 0, w\<lparr>counts := (x, count_of x (counts w) + 1) # counts w\<rparr>)"
| "sim_win (Release x m) w = (plain_reply (if count_of x (counts w) = 1 then 1 else 0),
     w\<lparr>counts := (x, count_of x (counts w) - 1) # counts w\<rparr>)"
| "sim_win c w = (plain_reply 0, w)"

definition sim_start :: "reply list \<Rightarrow> win_sim" where
  "sim_start rs = \<lparr>next_handle = 7, completions = rs, counts = []\<rparr>"

datatype win_action = Win_step | Win_call win_api

fun win_play :: "'w ext \<Rightarrow> (double \<Rightarrow> u32) \<Rightarrow> win_action list \<Rightarrow> win_thread \<times> 'w win \<Rightarrow> win_thread \<times> 'w win" where
  "win_play ext ub [] c = c"
| "win_play ext ub (Win_step # acts) c = win_play ext ub acts (win_thread_step ext ub c)"
| "win_play ext ub (Win_call a # acts) c =
     win_play ext ub acts (if win_allowed a c then win_api_step ext a c else c)"

lemma win_play_reachable: "win_reachable ext ub c \<Longrightarrow> win_reachable ext ub (win_play ext ub acts c)"
proof (induction ext ub acts c rule: win_play.induct)
  case (2 ext ub acts c)
  then show ?case using win_next [OF 2(2) win_by_thread] by simp
next
  case (3 ext ub a acts c)
  then show ?case using win_next [OF 3(2) win_by_api] by simp
qed simp

definition win_boot :: "reply list \<Rightarrow> win_thread \<times> win_sim win" where
  "win_boot rs = (W_running, snd (new_win_tcp_dispatcher sim_win 0 80 (Some 9) (empty_win (sim_start rs))))"

subsection \<open>The runs computed\<close>

lemmas run_port = new_cp_reactor_def delete_cp_reactor_def cp_add_thread_def cp_add_socket_def
  cp_stop_def get_transfer_def wsa_defs

lemmas run_win_interface = new_win_tcp_dispatcher_def win_start_listening_def accept_request_def
  win_dtor_request_def win_dtor_finish_def win_open_socket_def win_make_conn_def
  win_connect_conn_def win_connect_def win_close_conn_def win_close_conn_wait_def
  win_close_conn_wait_return_def win_release_def win_addref_def win_release_send_def win_send_def
  win_send_no_callback_def win_stop_accepting_def win_stop_accepting_return_def
  win_get_ip_port_def win_break_send_def win_break_send_init_def win_break_send_return_def
  win_set_bandwidth_def win_discard_def win_post_def win_post_ptr_def win_messages_def with_cp_def
  push_ptr_def push_code_def message_codes

lemmas run_win_vectors = free_completed_conn_def free_completed_overlap_def
  free_completed_accept_def free_completed_recv_def free_completed_send_def
  free_not_completed_objects_def not_done_def

lemmas run_win_thread = win_iteration_def win_handle_wakeup_def win_handle_message_def
  win_handle_completion_def win_with_ptr_def win_create_def win_close_def win_close_wait_def
  win_close_connection_def win_forget_callbacks_def win_close_socket_def win_drop_def
  activate_receiving_def win_send_request_def win_do_send_def win_send_size_def sendbt_def
  win_call_false_cb_def complete_recv_def deliver_def next_receive_def complete_send_def
  complete_overlap_def complete_accept_def win_set_connected_def start_connection_def
  win_limiter_insert_def win_recalc_def win_limiter_def

lemmas run_win_data = empty_win_def run_sim_data sim_start_def timeout_reply_def new_bwstop_def is_enable_def bw_on_def bw_off_def bw_erase_def
  bw_guess_def

lemmas win_simps = run_basic run_objects run_port run_win_interface run_win_vectors run_win_thread
  run_win_data

lemma win_boot_ok:
  "fst (new_win_tcp_dispatcher sim_win 0 80 (Some 9) (empty_win (sim_start rs))) = Inr ()"
  by (simp add: win_simps cong: run_cong)

lemma win_boot_reachable: "win_reachable sim_win ub (win_boot rs)"
proof (rule win_start)
  have "new_win_tcp_dispatcher sim_win 0 80 (Some 9) (empty_win (sim_start rs)) =
      (Inr (), snd (new_win_tcp_dispatcher sim_win 0 80 (Some 9) (empty_win (sim_start rs))))"
    using win_boot_ok by (simp add: prod_eq_iff)
  then show "win_initial sim_win (win_boot rs)" unfolding win_initial_def win_boot_def by blast
qed

text \<open>Connect, established, a request of two bytes, three bytes received, the stream ends.\<close>

definition win_demo :: "win_thread \<times> win_sim win" where
  "win_demo = win_play sim_win (\<lambda>_. 0)
     [Win_call (W_connect 0 80 win_callbacks), Win_step, Win_step,
      Win_call (W_send 2 [5, 6] (Some 14)), Win_step, Win_step, Win_step, Win_step]
     (win_boot [woken, completed (OverlapObj 3) [], woken, completed (SendObj 5) [5, 6],
        completed (RecvObj 4) [1, 2, 3], completed (RecvObj 4) []])"

lemma win_demo_reachable: "win_reachable sim_win (\<lambda>_. 0) win_demo"
  unfolding win_demo_def by (intro win_play_reachable win_boot_reachable)

lemma win_demo_run:
  "filter (\<lambda>k. conn_call k \<or> sent_to 5 k) (calls (snd win_demo)) =
     [User (Cb_connected 2 13 True), User (Cb_sent 5 14 True), User (Cb_read 2 11 [1, 2, 3]),
      User (Cb_closed 2 12)]"
  by (simp add: win_demo_def win_boot_def calls_def win_simps cong: run_cong)

end
