(* ===== verification/Win_Properties.thy ===== *)
theory Win_Properties
  imports Win_Demo Contract
begin

section \<open>Properties of the Windows dispatcher in every run\<close>

text \<open>The promises of \<open>itcp_dispatcher.h\<close> hold of the Windows dispatcher as of the Linux one.\<close>

interpretation win_contract: callback_contract
  "\<lambda>cs. \<exists>ub th s. win_reachable ext ub (th, s) \<and> cs = calls s" for ext :: "'w ext"
proof unfold_locales
  fix cs p assume "\<exists>ub th s. win_reachable ext ub (th, s) \<and> cs = calls s"
  then obtain ub th s where r: "win_reachable ext ub (th, s)" "cs = calls s" by blast
  show "phase_of p cs \<noteq> Broken"
    using win_protocol.always [OF r(1)] r(2) by (simp add: safe_def)
  show "length (filter (sent_to p) cs) \<le> 1"
    using win_sending.always [OF r(1)] r(2) by (simp add: sends_safe_def sent_count_def)
qed

lemma win_history:
  "win_reachable ext ub (th, s) \<Longrightarrow> calls s = cs \<Longrightarrow> \<exists>ub th s. win_reachable ext ub (th, s) \<and> cs = calls s"
  by blast


text \<open>The concrete run cut at its call of \<open>closed\<close>.\<close>

lemma win_demo_cut:
  "\<exists>before after. calls (snd win_demo) = before @ User (Cb_closed 2 12) # after"
proof -
  have "User (Cb_closed 2 12) \<in> set (filter (\<lambda>k. conn_call k \<or> sent_to 5 k) (calls (snd win_demo)))"
    unfolding win_demo_run by simp
  then show ?thesis by (auto dest: split_list)
qed

lemma win_demo_reach: "win_reachable sim_win (\<lambda>_. 0) (fst win_demo, snd win_demo)"
  using win_demo_reachable by simp


text \<open>
  In every reachable state of the Windows dispatcher the callback of a send request has
  been called at most once.
\<close>

theorem win_sent_callback_once:
  assumes "win_reachable ext ub (th, s)"
  shows "length (filter (sent_to sr) (calls s)) \<le> 1"
  by (rule win_contract.sent_once [OF win_history [OF assms refl]])

theorem win_sent_callback_once_witness:
  "length (filter (sent_to 5) (calls (snd win_demo))) = 1
    \<and> length (filter (sent_to 5) (calls (snd win_demo))) \<le> 1"
proof -
  have "filter (sent_to 5) (calls (snd win_demo)) = [User (Cb_sent 5 14 True)]"
    using filter_via [of "sent_to 5" "\<lambda>k. conn_call k \<or> sent_to 5 k" "calls (snd win_demo)"]
    unfolding win_demo_run by simp
  with win_sent_callback_once [OF win_demo_reach, of 5] show ?thesis by simp
qed

end
