(* ===== verification/Biocp_Dispatcher.thy ===== *)
theory Biocp_Dispatcher
  imports Messages Iocp_Reactor Wsa_Reactor
begin

section \<open>The older Windows dispatcher (tcp_dispatcher_biocp.h, tcp_dispatcher_biocp.cpp)\<close>

text \<open>
  Two threads: the dispatcher thread takes completions and messages from a completion
  port; the listening thread waits for incoming and established connections and hands
  them over as messages.  The functions have the names of the sources with the prefix
  \<open>bi_\<close>.  There is no bandwidth limiter.
\<close>

subsection \<open>State\<close>

definition WSAETIMEDOUT :: int where "WSAETIMEDOUT = 10060"
definition WSAEWOULDBLOCK :: int where "WSAEWOULDBLOCK = 10035"

text \<open>
  The members of \<open>class tcp_dispatcher_biocp\<close>, and the live \<open>external_struct\<close>s (a socket and
  its events).
\<close>

record 'w bi = "'w base" +
  b_listening :: fd
  b_accepted :: "cbid option"
  b_stop_sem :: nat
  b_iocp :: "iocp_reactor option"
  b_wsa :: "wsa_reactor option"
  b_messages :: "internal_messages option"
  b_conns :: "addr list"
  b_recvs :: "addr list"
  b_sends :: "addr list"
  b_externals :: "addr \<Rightarrow> (fd \<times> u32) option"

definition with_iocp :: "(iocp_reactor \<Rightarrow> (('w, 'z) bi_scheme, 'a) prog) \<Rightarrow> (('w, 'z) bi_scheme, 'a) prog" where
  "with_iocp f = bnd (gets b_iocp) (\<lambda>m. case m of None \<Rightarrow> throw Null_deref | Some R \<Rightarrow> f R)"

definition with_wsa :: "(wsa_reactor \<Rightarrow> (('w, 'z) bi_scheme, 'a) prog) \<Rightarrow> (('w, 'z) bi_scheme, 'a) prog" where
  "with_wsa f = bnd (gets b_wsa) (\<lambda>m. case m of None \<Rightarrow> throw Null_deref | Some R \<Rightarrow> f R)"

definition set_wsa :: "wsa_reactor \<Rightarrow> (('w, 'z) bi_scheme, unit) prog" where
  "set_wsa R = modify (\<lambda>s. s\<lparr>b_wsa := Some R\<rparr>)"

definition bi_messages :: "(internal_messages \<Rightarrow> internal_messages) \<Rightarrow> (('w, 'z) bi_scheme, unit) prog" where
  "bi_messages f = bnd (gets b_messages) (\<lambda>m. case m of None \<Rightarrow> throw Null_deref
     | Some q \<Rightarrow> modify (\<lambda>s. s\<lparr>b_messages := Some (f q)\<rparr>))"

definition bi_post :: "'w ext \<Rightarrow> u8 \<Rightarrow> (('w, 'z) bi_scheme, unit) prog" where
  "bi_post ext code = andthen (bi_messages (push_code code)) (with_iocp (iocp_stop ext))"

definition bi_post_ptr :: "'w ext \<Rightarrow> u8 \<Rightarrow> addr \<Rightarrow> (('w, 'z) bi_scheme, unit) prog" where
  "bi_post_ptr ext code p = andthen (bi_messages (push_ptr code p)) (with_iocp (iocp_stop ext))"

subsection \<open>The vectors of operations\<close>

definition bi_free_completed_conn :: "'w ext \<Rightarrow> addr \<Rightarrow> string \<Rightarrow> (('w, 'z) bi_scheme, unit) prog" where
  "bi_free_completed_conn ext p rmark = andthen (modify (\<lambda>s. s\<lparr>b_conns := remove1 p (b_conns s)\<rparr>))
     (conn_release ext p rmark)"

definition bi_free_completed_recv :: "'w ext \<Rightarrow> addr \<Rightarrow> string \<Rightarrow> (('w, 'z) bi_scheme, unit) prog" where
  "bi_free_completed_recv ext p rmark = andthen (modify (\<lambda>s. s\<lparr>b_recvs := remove1 p (b_recvs s)\<rparr>))
     (recv_release ext p rmark)"

definition bi_free_completed_send :: "'w ext \<Rightarrow> addr \<Rightarrow> string \<Rightarrow> (('w, 'z) bi_scheme, unit) prog" where
  "bi_free_completed_send ext p rmark = andthen (modify (\<lambda>s. s\<lparr>b_sends := remove1 p (b_sends s)\<rparr>))
     (send_release ext p rmark)"

definition bi_not_done :: string where
  "bi_not_done = ''iocp_operation_has_not_been_done''"

definition bi_free_not_completed_objects :: "'w ext \<Rightarrow> (('w, 'z) bi_scheme, unit) prog" where
  "bi_free_not_completed_objects ext = bnd (gets (\<lambda>s. s)) (\<lambda>s. block
     [for_each (\<lambda>p. send_release ext p bi_not_done) (b_sends s),
      modify (\<lambda>s. s\<lparr>b_sends := []\<rparr>),
      for_each (\<lambda>p. recv_release ext p bi_not_done) (b_recvs s),
      modify (\<lambda>s. s\<lparr>b_recvs := []\<rparr>),
      for_each (\<lambda>p. conn_release ext p ''waiting_isn't_done(exit)'') (b_conns s),
      modify (\<lambda>s. s\<lparr>b_conns := []\<rparr>)])"

subsection \<open>Construction and destruction\<close>

text \<open>Both threads run from their creation on; that is not visible to the constructor.\<close>

definition bi_start_listening :: "'w ext \<Rightarrow> u16 \<Rightarrow> cbid option \<Rightarrow> (('w, 'z) bi_scheme, unit) prog" where
  "bi_start_listening ext port cb =
     andthen (modify (\<lambda>s. s\<lparr>b_accepted := cb, b_stop_sem := 0\<rparr>))
     (bnd (call ext (Os Socket)) (\<lambda>r.
     andthen (modify (\<lambda>s. s\<lparr>b_listening := rv r\<rparr>))
     (if rv r = -1 then throw (Lib_exception ''WSASocket'' (err r)) else
     bnd (checked ext (Os (Bind (rv r) \<lparr>sin_addr = 0, sin_port = htons port\<rparr>)) ''bind'') (\<lambda>_.
     bnd (checked ext (Os (Listen (rv r))) ''listen'') (\<lambda>_.
     bnd (new_wsa_reactor ext) (\<lambda>W.
     andthen (set_wsa W)
     (bnd (call ext (Os Thread_create)) (\<lambda>t.
     if rv t \<noteq> 0 then throw (Lib_exception ''pthread_create'' (rv t)) else
     bnd (wsa_add_event ext W (rv r) (or FD_ACCEPT FD_CLOSE)) (\<lambda>W'.
     andthen (set_wsa W')
     (bnd (new_iocp_reactor ext) (\<lambda>R.
     andthen (modify (\<lambda>s. s\<lparr>b_iocp := Some R\<rparr>))
     (bnd (call ext (Os Thread_create)) (\<lambda>u.
     if rv u \<noteq> 0 then throw (Lib_exception ''pthread_create'' (rv u)) else
     modify (\<lambda>s. s\<lparr>b_iocp := Some (iocp_add_thread 0 R), b_messages := Some []\<rparr>))))))))))))))"

definition new_tcp_dispatcher_biocp :: "'w ext \<Rightarrow> u16 \<Rightarrow> cbid option \<Rightarrow> (('w, 'z) bi_scheme, unit) prog" where
  "new_tcp_dispatcher_biocp ext port cb =
     andthen (modify (\<lambda>s. s\<lparr>b_listening := -1, b_accepted := None, b_stop_sem := 0, b_iocp := None,
       b_wsa := None, b_messages := None, b_conns := [], b_recvs := [], b_sends := [],
       b_externals := (\<lambda>_. None)\<rparr>))
     (whenever (port \<noteq> 0)
       (try_catch (bi_start_listening ext port cb) (\<lambda>e.
         bnd (gets b_listening) (\<lambda>l.
         andthen (whenever (l \<noteq> -1) (invoke ext (Os (Close l))))
         (bnd (gets b_wsa) (\<lambda>w.
         andthen (case w of None \<Rightarrow> ret () | Some W \<Rightarrow> delete_wsa_reactor ext W)
         (bnd (gets b_iocp) (\<lambda>m.
         andthen (case m of None \<Rightarrow> ret () | Some R \<Rightarrow> delete_iocp_reactor ext R)
         (throw e)))))))))"

definition bi_dtor_request :: "'w ext \<Rightarrow> (('w, 'z) bi_scheme, unit) prog" where
  "bi_dtor_request ext = bi_post ext P_EXIT"

definition bi_dtor_finish :: "'w ext \<Rightarrow> (('w, 'z) bi_scheme, unit) prog" where
  "bi_dtor_finish ext = andthen (invoke ext (Os Thread_join))
     (bnd (gets b_wsa) (\<lambda>w.
     andthen (case w of None \<Rightarrow> ret () | Some W \<Rightarrow> delete_wsa_reactor ext W)
     (andthen (modify (\<lambda>s. s\<lparr>b_wsa := None\<rparr>))
     (bnd (gets b_iocp) (\<lambda>m.
     andthen (case m of None \<Rightarrow> ret () | Some R \<Rightarrow> delete_iocp_reactor ext R)
     (modify (\<lambda>s. s\<lparr>b_iocp := None\<rparr>)))))))"

subsection \<open>The interface\<close>

definition bi_make_conn :: "'w ext \<Rightarrow> (('w, 'z) bi_scheme, addr) prog" where
  "bi_make_conn ext = try_catch
     (bnd (checked ext (Os Socket) ''WSASocket'') (\<lambda>d.
      try_catch
        (bnd (checked ext (Os (Set_nonblock d)) ''ioctlsocket'') (\<lambda>_.
         bnd (new_conn d no_callbacks) (\<lambda>p.
         andthen (conn_addref ext p ''make_conn'')
         (andthen (conn_addref ext p ''make_conn'') (ret p)))))
        (\<lambda>e. andthen (invoke ext (Os (Close d))) (throw e))))
     (\<lambda>_. ret 0)"

text \<open>\<open>WSAConnect\<close> and its error codes: whether to go on.\<close>

definition bi_wsa_connect :: "'w ext \<Rightarrow> fd \<Rightarrow> sockaddr \<Rightarrow> (('w, 'z) bi_scheme, bool) prog" where
  "bi_wsa_connect ext d a = bnd (call ext (Win (Wsa_connect d a))) (\<lambda>r.
     if rv r \<noteq> -1 then ret True
     else if err r = WSAETIMEDOUT then ret False
     else if err r = WSAEWOULDBLOCK then ret True
     else throw (Lib_exception ''WSAConnect'' (err r)))"

definition bi_connect_conn :: "'w ext \<Rightarrow> addr \<Rightarrow> u32 \<Rightarrow> u16 \<Rightarrow> callbacks \<Rightarrow> (('w, 'z) bi_scheme, unit) prog" where
  "bi_connect_conn ext p ip port cb = (let a = \<lparr>sin_addr = ip, sin_port = htons port\<rparr> in try_catch
     (andthen (set_conn p (conn_addr_update (\<lambda>_. Some a)))
     (andthen (set_conn p (cbs_update (\<lambda>_. cb)))
     (bnd (deref conn_heap p) (\<lambda>c. bnd (bi_wsa_connect ext (sock c) a) (\<lambda>go_on.
      whenever go_on (bi_post_ptr ext P_CREATE_CONNECTION p))))))
     (\<lambda>_. ret ()))"

definition bi_connect :: "'w ext \<Rightarrow> u32 \<Rightarrow> u16 \<Rightarrow> callbacks \<Rightarrow> (('w, 'z) bi_scheme, addr) prog" where
  "bi_connect ext ip port cb = (let a = \<lparr>sin_addr = ip, sin_port = htons port\<rparr> in try_catch
     (bnd (checked ext (Os Socket) ''WSASocket'') (\<lambda>d.
      try_catch
        (bnd (checked ext (Os (Set_nonblock d)) ''ioctlsocket'') (\<lambda>_.
         bnd (bi_wsa_connect ext d a) (\<lambda>go_on.
         if \<not> go_on then ret 0 else
         bnd (new_conn d cb) (\<lambda>p.
         andthen (conn_addref ext p ''async_connect'')
         (andthen (conn_addref ext p ''async_connect'')
         (andthen (set_conn p (conn_addr_update (\<lambda>_. Some a)))
         (andthen (bi_post_ptr ext P_CREATE_CONNECTION p) (ret p))))))))
        (\<lambda>e. andthen (invoke ext (Os (Close d))) (throw e))))
     (\<lambda>_. ret 0))"

definition bi_close_conn :: "'w ext \<Rightarrow> addr \<Rightarrow> (('w, 'z) bi_scheme, unit) prog" where
  "bi_close_conn ext p = andthen (conn_addref ext p ''close_conn'') (bi_post_ptr ext P_CLOSE_CONNECTION p)"

definition bi_close_conn_wait :: "'w ext \<Rightarrow> addr \<Rightarrow> (('w, 'z) bi_scheme, unit) prog" where
  "bi_close_conn_wait ext p = andthen (conn_addref ext p ''close_conn_wait'')
     (bi_post_ptr ext P_CLOSE_CONNECTION_WAIT p)"

definition bi_close_conn_wait_return :: "addr \<Rightarrow> (('w, 'z) bi_scheme, bool) prog" where
  "bi_close_conn_wait_return p = close_wait p"

definition bi_release :: "'w ext \<Rightarrow> addr \<Rightarrow> (('w, 'z) bi_scheme, unit) prog" where
  "bi_release ext p = conn_release ext p ''tcp_dispatcher_biocp::release''"

definition bi_addref :: "'w ext \<Rightarrow> addr \<Rightarrow> (('w, 'z) bi_scheme, unit) prog" where
  "bi_addref ext p = conn_addref ext p ''tcp_dispatcher_biocp::addref''"

definition bi_release_send :: "'w ext \<Rightarrow> addr \<Rightarrow> (('w, 'z) bi_scheme, unit) prog" where
  "bi_release_send ext p = send_release ext p ''tcp_dispatcher_biocp::release''"

definition bi_send :: "'w ext \<Rightarrow> addr \<Rightarrow> u8 list \<Rightarrow> cbid option \<Rightarrow> (('w, 'z) bi_scheme, addr) prog" where
  "bi_send ext p buf cb = try_catch
     (bnd (win_new_send_req ext p) (\<lambda>sr.
      bnd (deref conn_heap p) (\<lambda>c.
      andthen (set_send sr (\<lambda>q. q\<lparr>send_iov := (send_iov q)\<lparr>iov_sock := sock c, iov_code := FD_WRITE\<rparr>,
        total_bytes := word_of_nat (length buf), sent_bytes := 0, sent_cb := cb\<rparr>))
      (andthen (send_addref ext sr ''tcp_dispatcher_biocp::send'')
      (andthen (send_addref ext sr ''tcp_dispatcher_biocp::send'')
      (andthen (set_send sr (send_data_update (\<lambda>_. buf)))
      (andthen (bi_post_ptr ext P_SEND_REQUEST sr) (ret sr))))))))
     (\<lambda>_. ret 0)"

definition bi_send_no_callback :: "'w ext \<Rightarrow> addr \<Rightarrow> u8 list \<Rightarrow> (('w, 'z) bi_scheme, bool) prog" where
  "bi_send_no_callback ext p buf = bnd (bi_send ext p buf None) (\<lambda>sr.
     andthen (send_release ext sr ''tcp_dispatcher_biocp::send'') (ret True))"

definition bi_stop_accepting :: "'w ext \<Rightarrow> (('w, 'z) bi_scheme, unit) prog" where
  "bi_stop_accepting ext = bi_post ext P_STOP_ACCEPTING"

definition bi_stop_accepting_return :: "(('w, 'z) bi_scheme, bool) prog" where
  "bi_stop_accepting_return = bnd (gets b_stop_sem) (\<lambda>n. if n = 0 then ret False
     else andthen (modify (\<lambda>s. s\<lparr>b_stop_sem := n - 1\<rparr>)) (ret True))"

definition bi_get_ip_port :: "addr \<Rightarrow> (('w, 'z) bi_scheme, (u32 \<times> u16) option) prog" where
  "bi_get_ip_port p = bnd (deref conn_heap p) (\<lambda>c.
     ret (map_option (\<lambda>a. (sin_addr a, sin_port a)) (conn_addr c)))"

text \<open>\<open>break_send\<close> waits on a semaphore that is initialised nowhere on this platform.\<close>

definition bi_break_send :: "'w ext \<Rightarrow> addr \<Rightarrow> (('w, 'z) bi_scheme, unit) prog" where
  "bi_break_send ext sr = andthen (send_addref ext sr ''break_send(sem_wait)'')
     (bi_post_ptr ext P_BREAK_SEND sr)"

definition bi_break_send_return :: "addr \<Rightarrow> (('w, 'z) bi_scheme, bool) prog" where
  "bi_break_send_return sr = break_wait Some sr"

definition bi_set_bandwidth :: "u32 \<Rightarrow> (('w, 'z) bi_scheme, unit) prog" where
  "bi_set_bandwidth n = ret ()"

subsection \<open>Connections\<close>

definition bi_create_connection :: "'w ext \<Rightarrow> addr \<Rightarrow> (('w, 'z) bi_scheme, unit) prog" where
  "bi_create_connection ext p = bnd (deref conn_heap p) (\<lambda>c. with_wsa (\<lambda>W.
     bnd (wsa_add_event ext W (sock c) (or FD_CONNECT FD_CLOSE)) (\<lambda>W'.
     andthen (set_wsa W') (wsa_stop ext W' 0))))"

text \<open>The event of a connection is forgotten and the listening thread woken up.\<close>

definition bi_unwatch :: "'w ext \<Rightarrow> addr \<Rightarrow> (('w, 'z) bi_scheme, unit) prog" where
  "bi_unwatch ext p = bnd (deref conn_heap p) (\<lambda>c. with_wsa (\<lambda>W.
     andthen (set_wsa (wsa_del_event (sock c) W)) (wsa_stop ext (wsa_del_event (sock c) W) 0)))"

definition bi_forget_callbacks :: "addr \<Rightarrow> (('w, 'z) base_scheme, unit) prog" where
  "bi_forget_callbacks p = set_conn p (\<lambda>c. c\<lparr>cbs := no_callbacks, conn_st := Cs_closed\<rparr>)"

definition bi_close_socket :: "'w ext \<Rightarrow> addr \<Rightarrow> (('w, 'z) bi_scheme, unit) prog" where
  "bi_close_socket ext p = bnd (deref conn_heap p) (\<lambda>c.
     andthen (whenever (sock c \<noteq> -1) (invoke ext (Os (Close (sock c)))))
             (set_conn p (sock_update (\<lambda>_. -1))))"

definition bi_close_connection :: "'w ext \<Rightarrow> addr \<Rightarrow> bool \<Rightarrow> (('w, 'z) bi_scheme, unit) prog" where
  "bi_close_connection ext p iocp = bnd (deref conn_heap p) (\<lambda>c. case conn_st c of
     Cs_wait4connect \<Rightarrow> block
       [call_connected ext p False, bi_forget_callbacks p, bi_unwatch ext p,
        bi_free_completed_conn ext p ''close_connection'']
   | Cs_connected \<Rightarrow> block
       [call_closed ext p, bi_forget_callbacks p, bi_close_socket ext p,
        whenever iocp (bi_free_completed_conn ext p ''close_connection'')]
   | Cs_closed \<Rightarrow> block
       [bi_close_socket ext p, whenever iocp (bi_free_completed_conn ext p ''close_connection'')])"

definition bi_activate_receiving :: "'w ext \<Rightarrow> addr \<Rightarrow> (('w, 'z) bi_scheme, bool) prog" where
  "bi_activate_receiving ext p = bnd (new_recv_req ext p) (\<lambda>rr.
     andthen (set_conn p (conn_recv_update (\<lambda>_. rr)))
     (andthen (recv_addref ext rr ''tcp_conn_t'')
     (bnd (deref conn_heap p) (\<lambda>c.
      bnd (call ext (Win (Wsa_recv (sock c) 65536 rr))) (\<lambda>r.
      if rv r = -1 \<and> err r \<noteq> WSA_IO_PENDING then
        andthen (recv_release ext rr ''wsarecv_error'')
        (andthen (set_conn p (conn_recv_update (\<lambda>_. 0))) (ret False))
      else andthen (modify (\<lambda>s. s\<lparr>b_recvs := b_recvs s @ [rr]\<rparr>)) (ret True))))))"

definition bi_set_connected :: "addr \<Rightarrow> (('w, 'z) base_scheme, unit) prog" where
  "bi_set_connected p = set_conn p (\<lambda>c. c\<lparr>cbs := (cbs c)\<lparr>cb_connected := None\<rparr>, conn_st := Cs_connected\<rparr>)"

definition bi_call_accepted :: "'w ext \<Rightarrow> addr \<Rightarrow> cbid \<Rightarrow> (('w, 'z) base_scheme, unit) prog" where
  "bi_call_accepted ext p f = bnd (callback ext (Cb_accepted p f)) (\<lambda>r. set_conn p (cbs_update (\<lambda>_. r_cbs r)))"

definition bi_accept_connection :: "'w ext \<Rightarrow> (('w, 'z) bi_scheme, addr) prog" where
  "bi_accept_connection ext = bnd (gets b_accepted) (\<lambda>cb. case cb of None \<Rightarrow> ret 0 | Some f \<Rightarrow>
     bnd (gets b_listening) (\<lambda>l. bnd (call ext (Win (Wsa_accept l))) (\<lambda>r.
     if rv r = -1 then
       (if err r = WSAEWOULDBLOCK then ret 0 else throw (Lib_exception ''WSAAccept'' (err r)))
     else bnd (new_conn (rv r) no_callbacks) (\<lambda>p. andthen (block
         [conn_addref ext p ''from_accept'', conn_addref ext p ''from_accept'',
          set_conn p (conn_addr_update (\<lambda>_. Some (r_addr r))),
          bi_call_accepted ext p f,
          with_iocp (\<lambda>R. iocp_add_conn ext R p),
          bi_set_connected p])
       (bnd (bi_activate_receiving ext p) (\<lambda>ok. if ok then ret p
          else andthen (bi_close_connection ext p True) (ret 0)))))))"

definition bi_connection_established :: "'w ext \<Rightarrow> addr \<Rightarrow> (('w, 'z) bi_scheme, unit) prog" where
  "bi_connection_established ext p = bnd (deref conn_heap p) (\<lambda>c. whenever (cb_connected (cbs c) \<noteq> None)
     (block [bi_unwatch ext p, call_connected ext p True, bi_set_connected p,
        with_iocp (\<lambda>R. iocp_add_conn ext R p),
        bnd (bi_activate_receiving ext p) (\<lambda>ok. whenever (\<not> ok) (bi_close_connection ext p True))]))"

subsection \<open>Sending and receiving\<close>

text \<open>A failed send is reported and released, and its request still goes into the vector.\<close>

definition bi_send_request :: "'w ext \<Rightarrow> addr \<Rightarrow> (('w, 'z) bi_scheme, unit) prog" where
  "bi_send_request ext sr = bnd (deref send_heap sr) (\<lambda>q.
     bnd (deref conn_heap (iov_conn (send_iov q))) (\<lambda>c.
     if sock c = -1 then
       andthen (send_callback ext sr False) (send_release ext sr ''sending's_not_finished.'')
     else bnd (call ext (Win (Wsa_send (iov_sock (send_iov q))
       (take (unat (total_bytes q)) (send_data q)) sr))) (\<lambda>r.
     andthen (whenever (rv r = -1 \<and> err r \<noteq> WSA_IO_PENDING)
       (andthen (send_callback ext sr False)
       (andthen (send_release ext sr ''sending's_not_finished.'')
       (if err r = WSAENOTSOCK \<or> err r = WSAENOTCONN \<or> err r = WSAECONNRESET then ret ()
        else throw (Lib_exception ''WSASend'' (err r))))))
     (modify (\<lambda>s. s\<lparr>b_sends := b_sends s @ [sr]\<rparr>)))))"

definition bi_deliver :: "'w ext \<Rightarrow> addr \<Rightarrow> addr \<Rightarrow> (('w, 'z) bi_scheme, unit) prog" where
  "bi_deliver ext rr p = bnd (deref recv_heap rr) (\<lambda>q. bnd (deref conn_heap p) (\<lambda>c.
     whenever (recv_size q \<noteq> 0 \<and> cb_read (cbs c) \<noteq> None)
       (call_read ext p (take (unat (recv_size q)) (recv_data q)))))"

definition bi_next_receive :: "'w ext \<Rightarrow> addr \<Rightarrow> addr \<Rightarrow> (('w, 'z) bi_scheme, unit) prog" where
  "bi_next_receive ext rr p = bnd (deref recv_heap rr) (\<lambda>q.
     if recv_size q = 0 then
       andthen (bi_free_completed_recv ext rr ''wsarecv 0'') (bi_close_connection ext p True)
     else bnd (call ext (Win (Wsa_recv (iov_sock (recv_iov q)) MAX_WBUF_SIZE rr))) (\<lambda>r.
       if rv r = -1 \<and> err r \<noteq> WSA_IO_PENDING then
         andthen (bi_free_completed_recv ext rr ''wsarecv_error'') (bi_close_connection ext p False)
       else ret ()))"

definition bi_recv_complete :: "'w ext \<Rightarrow> addr \<Rightarrow> (('w, 'z) bi_scheme, unit) prog" where
  "bi_recv_complete ext rr = bnd (deref recv_heap rr) (\<lambda>q. let p = iov_conn (recv_iov q) in
     bnd (try_catch (andthen (bi_deliver ext rr p) (ret True))
            (\<lambda>_. andthen (bi_free_completed_recv ext rr ''from_read_callback'')
                 (andthen (bi_close_connection ext p True) (ret False)))) (\<lambda>go_on.
     whenever go_on (bi_next_receive ext rr p)))"

definition bi_send_complete :: "'w ext \<Rightarrow> addr \<Rightarrow> (('w, 'z) bi_scheme, unit) prog" where
  "bi_send_complete ext sr = bnd (deref send_heap sr) (\<lambda>q.
     if sent_bytes q < total_bytes q then
       bnd (call ext (Win (Wsa_send (iov_sock (send_iov q))
         (take (unat (total_bytes q - sent_bytes q)) (drop (unat (sent_bytes q)) (send_data q))) sr))) (\<lambda>r.
       whenever (rv r = -1 \<and> err r \<noteq> WSA_IO_PENDING)
         (andthen (send_callback ext sr False)
         (andthen (bi_free_completed_send ext sr ''sending's_not_finished.'')
         (if err r = WSAENOTSOCK \<or> err r = WSAENOTCONN \<or> err r = WSAECONNRESET then ret ()
          else throw (Lib_exception ''WSASend'' (err r))))))
     else andthen (send_callback ext sr True) (bi_free_completed_send ext sr ''sending's_done.''))"

definition bi_call_false_cb :: "'w ext \<Rightarrow> addr \<Rightarrow> (('w, 'z) bi_scheme, unit) prog" where
  "bi_call_false_cb ext sr = block
     [send_callback ext sr False, break_post sr,
      send_release ext sr ''break_send(sem_post)'']"

subsection \<open>What the listening thread reports\<close>

text \<open>The search of \<open>conns\<close> for the first connection with a socket.\<close>

fun bi_find_conn :: "fd \<Rightarrow> addr list \<Rightarrow> (('w, 'z) bi_scheme, addr option) prog" where
  "bi_find_conn d [] = ret None"
| "bi_find_conn d (p # ps) = bnd (deref conn_heap p) (\<lambda>c.
     if sock c = d then ret (Some p) else bi_find_conn d ps)"

text \<open>
  The two loops over \<open>conns\<close>.  The iterator \<open>it\<close> is used again after the handler; when
  the handler has erased an entry, which can only be this one, it is not valid any more.
\<close>

definition bi_on_conn :: "'w ext \<Rightarrow> fd \<Rightarrow> (addr \<Rightarrow> (('w, 'z) bi_scheme, unit) prog) \<Rightarrow> string \<Rightarrow>
    (('w, 'z) bi_scheme, unit) prog" where
  "bi_on_conn ext d handler mark = bnd (gets b_conns) (\<lambda>cs. bnd (bi_find_conn d cs) (\<lambda>found. case found of
       None \<Rightarrow> ret ()
     | Some p \<Rightarrow> andthen (handler p) (bnd (gets b_conns) (\<lambda>cs'.
         if cs' \<noteq> cs then throw Bad_iterator
         else andthen (conn_release ext p mark)
           (modify (\<lambda>s. s\<lparr>b_conns := remove1 p (b_conns s)\<rparr>))))))"

definition bi_connect_event :: "'w ext \<Rightarrow> fd \<Rightarrow> (('w, 'z) bi_scheme, unit) prog" where
  "bi_connect_event ext d =
     bi_on_conn ext d (bi_connection_established ext) ''waiting_is_finished(FD_CONNECT)''"

definition bi_close_event :: "'w ext \<Rightarrow> fd \<Rightarrow> (('w, 'z) bi_scheme, unit) prog" where
  "bi_close_event ext d =
     bi_on_conn ext d (\<lambda>p. bi_close_connection ext p True) ''waiting_is_finished(FD_CLOSE)''"

text \<open>The case of \<open>FD_ACCEPT\<close> falls through to the one of \<open>FD_CONNECT\<close>.\<close>

definition bi_handle_external :: "'w ext \<Rightarrow> addr \<Rightarrow> (('w, 'z) bi_scheme, unit) prog" where
  "bi_handle_external ext em = bnd (deref b_externals em) (\<lambda>(d, events).
     andthen
       (if events = FD_ACCEPT then
          bnd (bi_accept_connection ext) (\<lambda>_. bi_connect_event ext d)
        else if events = FD_CONNECT then bi_connect_event ext d
        else if events = FD_CLOSE then bi_close_event ext d
        else ret ())
       (modify (\<lambda>s. s\<lparr>b_externals := (b_externals s)(em := None)\<rparr>)))"

subsection \<open>thread_proc\<close>

definition bi_with_ptr :: "internal_message \<Rightarrow> (addr \<Rightarrow> (('w, 'z) bi_scheme, unit) prog) \<Rightarrow> (('w, 'z) bi_scheme, unit) prog" where
  "bi_with_ptr im f = (case im_ptr im of None \<Rightarrow> throw Dangling | Some p \<Rightarrow> f p)"

text \<open>The answer is whether the thread returns; it then waits for the listening thread.\<close>

definition bi_handle_message :: "'w ext \<Rightarrow> internal_message \<Rightarrow> (('w, 'z) bi_scheme, bool) prog" where
  "bi_handle_message ext im =
     (if im_code im = P_EXIT then
        andthen (bi_free_not_completed_objects ext)
        (andthen (with_wsa (\<lambda>W. wsa_stop ext W (-1))) (ret True))
      else andthen
       (if im_code im = P_STOP_ACCEPTING then
          modify (\<lambda>s. s\<lparr>b_accepted := None, b_stop_sem := Suc (b_stop_sem s)\<rparr>)
        else if im_code im = P_CREATE_CONNECTION then bi_with_ptr im (\<lambda>p. block
          [modify (\<lambda>s. s\<lparr>b_conns := b_conns s @ [p]\<rparr>), conn_addref ext p ''waiting4complete'',
           bi_create_connection ext p])
        else if im_code im = P_CLOSE_CONNECTION then bi_with_ptr im (\<lambda>p. block
          [modify (\<lambda>s. s\<lparr>b_conns := b_conns s @ [p]\<rparr>), bi_close_connection ext p False,
           conn_release ext p ''close_conn''])
        else if im_code im = P_CLOSE_CONNECTION_WAIT then bi_with_ptr im (\<lambda>p. block
          [modify (\<lambda>s. s\<lparr>b_conns := b_conns s @ [p]\<rparr>), bi_close_connection ext p False,
           conn_release ext p ''close_conn_wait'', close_post p])
        else if im_code im = P_SEND_REQUEST then bi_with_ptr im (bi_send_request ext)
        else if im_code im = P_BREAK_SEND then bi_with_ptr im (bi_call_false_cb ext)
        else if im_code im = P_EXTERNAL then bi_with_ptr im (bi_handle_external ext)
        else ret ())
       (ret False))"

definition bi_handle_wakeup :: "'w ext \<Rightarrow> (('w, 'z) bi_scheme, bool) prog" where
  "bi_handle_wakeup ext = bnd (gets b_messages) (\<lambda>m. case m of None \<Rightarrow> throw Null_deref
     | Some q \<Rightarrow> (case pop_message q of None \<Rightarrow> throw Assertion_failed
       | Some (im, q') \<Rightarrow> andthen (modify (\<lambda>s. s\<lparr>b_messages := Some q'\<rparr>)) (bi_handle_message ext im)))"

text \<open>\<open>r_conn\<close> is 0 from the start of the thread on: \<open>get_transfer\<close> never assigns it.\<close>

definition bi_handle_completion :: "'w ext \<Rightarrow> u32 \<Rightarrow> transfer \<Rightarrow> (('w, 'z) bi_scheme, unit) prog" where
  "bi_handle_completion ext code tr =
     (if code = FD_CLOSE then bi_close_connection ext 0 True
      else if code = FD_READ then bi_recv_complete ext (tr_recv tr)
      else if code = FD_WRITE then bi_send_complete ext (tr_send tr)
      else ret ())"

definition bi_iteration_body :: "'w ext \<Rightarrow> (('w, 'z) bi_scheme, bool) prog" where
  "bi_iteration_body ext = bnd (with_iocp (\<lambda>R. iocp_get_transfer ext R [])) (\<lambda>tr.
     case tr_result tr of
       [] \<Rightarrow> throw Bad_iterator
     | (k, code) # _ \<Rightarrow> if k = 0 then bi_handle_wakeup ext
         else andthen (bi_handle_completion ext code tr) (ret False))"

text \<open>One round of \<open>thread_proc\<close> with the handler around its loop.\<close>

definition bi_iteration :: "'w ext \<Rightarrow> (('w, 'z) bi_scheme, bool) prog" where
  "bi_iteration ext = try_catch (bi_iteration_body ext)
     (\<lambda>_. andthen (with_wsa (\<lambda>W. wsa_stop ext W (-1))) (ret True))"

subsection \<open>listening_thread\<close>

text \<open>
  Where the listening thread is inside its call of \<open>get_interrupt\<close>: before it collects the
  events, waiting for them (from the \<open>j\<close>-th group on), with a signalled handle, with the
  events of a handle; or it has ended.
\<close>

datatype listener =
    Li_collect
  | Li_wait "nat list" nat
  | Li_signalled nat
  | Li_report nat u32 "int list"
  | Li_ended

text \<open>The body of the loop, for the one entry of the map or for none.\<close>

definition bi_listened :: "'w ext \<Rightarrow> bool \<Rightarrow> (fd \<times> u32) option \<Rightarrow> (('w, 'z) bi_scheme, listener) prog" where
  "bi_listened ext b entry = (if \<not> b then ret Li_ended else case entry of
       None \<Rightarrow> ret Li_collect
     | Some (d, events) \<Rightarrow> if d = -1 then ret Li_ended else
         bnd (gets b_listening) (\<lambda>l. if d = l \<and> events = 0 then ret Li_collect else
         bnd (gets (\<lambda>s. Suc (last_addr s))) (\<lambda>em.
         andthen (modify (\<lambda>s. s\<lparr>b_externals := (b_externals s)(em \<mapsto> (d, events)), last_addr := em\<rparr>))
         (andthen (bi_post_ptr ext P_EXTERNAL em) (ret Li_collect)))))"

fun bi_listening_step :: "'w ext \<Rightarrow> listener \<Rightarrow> (('w, 'z) bi_scheme, listener) prog" where
  "bi_listening_step ext Li_collect = with_wsa (\<lambda>W. bnd (wsa_collect W) (\<lambda>events. ret (Li_wait events 0)))"
| "bi_listening_step ext (Li_wait events j) =
     (if length events \<le> 60 then
        bnd (wsa_wait_all ext events) (\<lambda>i. bnd (wsa_handle events i) (\<lambda>h. ret (Li_signalled h)))
      else if j < length events then
        bnd (wsa_poll_group ext events j) (\<lambda>x. case x of
          None \<Rightarrow> ret (Li_wait events (j + 60))
        | Some i \<Rightarrow> bnd (wsa_handle events i) (\<lambda>h. ret (Li_signalled h)))
      else ret (Li_wait events 0))"
| "bi_listening_step ext (Li_signalled h) = with_wsa (\<lambda>W. bnd (wsa_signalled ext W h) (\<lambda>(out, W').
     andthen (set_wsa W') (case out of
       Wsa_answer b entry \<Rightarrow> bi_listened ext b entry
     | Wsa_events h events codes \<Rightarrow> ret (Li_report h events codes))))"
| "bi_listening_step ext (Li_report h events codes) = with_wsa (\<lambda>W.
     bnd (wsa_report W h events codes) (\<lambda>(entry, W').
     andthen (set_wsa W') (bi_listened ext True (Some entry))))"
| "bi_listening_step ext Li_ended = ret Li_ended"

text \<open>The handler around the loop: an exception of the library ends the thread.\<close>

definition bi_listening_thread :: "'w ext \<Rightarrow> listener \<Rightarrow> (('w, 'z) bi_scheme, listener) prog" where
  "bi_listening_thread ext l = try_catch (bi_listening_step ext l) (\<lambda>_. ret Li_ended)"

end
