(* ===== verification/Biocp_System.thy ===== *)
theory Biocp_System
  imports Biocp_Dispatcher
begin

section \<open>The older Windows dispatcher as a system of threads\<close>

text \<open>
  The dispatcher thread handles one completion or message at a time, the listening thread
  makes one part of its loop at a time, other threads call the interface.  When the
  dispatcher thread returns it joins the listening thread.  An exception that leaves a
  thread function or a function of the interface ends the process.
\<close>

datatype bi_api =
    B_make_conn
  | B_connect_conn addr u32 u16 callbacks
  | B_connect u32 u16 callbacks
  | B_close_conn addr
  | B_close_conn_wait addr
  | B_close_conn_wait_return addr
  | B_release addr
  | B_addref addr
  | B_release_send addr
  | B_send addr "u8 list" "cbid option"
  | B_send_no_callback addr "u8 list"
  | B_break_send addr
  | B_break_send_return addr
  | B_stop_accepting
  | B_stop_accepting_return
  | B_get_ip_port addr
  | B_set_bandwidth u32
  | B_delete
  | B_delete_finish

definition bi_discard :: "('s, 'a) prog \<Rightarrow> ('s, unit) prog" where
  "bi_discard m = bnd m (\<lambda>_. ret ())"

fun run_bi_api :: "'w ext \<Rightarrow> bi_api \<Rightarrow> ('w bi, unit) prog" where
  "run_bi_api ext B_make_conn = bi_discard (bi_make_conn ext)"
| "run_bi_api ext (B_connect_conn p ip port cb) = bi_connect_conn ext p ip port cb"
| "run_bi_api ext (B_connect ip port cb) = bi_discard (bi_connect ext ip port cb)"
| "run_bi_api ext (B_close_conn p) = bi_close_conn ext p"
| "run_bi_api ext (B_close_conn_wait p) = bi_close_conn_wait ext p"
| "run_bi_api ext (B_close_conn_wait_return p) = bi_discard (bi_close_conn_wait_return p)"
| "run_bi_api ext (B_release p) = bi_release ext p"
| "run_bi_api ext (B_addref p) = bi_addref ext p"
| "run_bi_api ext (B_release_send p) = bi_release_send ext p"
| "run_bi_api ext (B_send p buf cb) = bi_discard (bi_send ext p buf cb)"
| "run_bi_api ext (B_send_no_callback p buf) = bi_discard (bi_send_no_callback ext p buf)"
| "run_bi_api ext (B_break_send p) = bi_break_send ext p"
| "run_bi_api ext (B_break_send_return p) = bi_discard (bi_break_send_return p)"
| "run_bi_api ext B_stop_accepting = bi_stop_accepting ext"
| "run_bi_api ext B_stop_accepting_return = bi_discard bi_stop_accepting_return"
| "run_bi_api ext (B_get_ip_port p) = bi_discard (bi_get_ip_port p)"
| "run_bi_api ext (B_set_bandwidth n) = bi_set_bandwidth n"
| "run_bi_api ext B_delete = bi_dtor_request ext"
| "run_bi_api ext B_delete_finish = bi_dtor_finish ext"

datatype bi_thread = B_running | B_joining | B_ended | B_failed exn

type_synonym 'w bi_config = "bi_thread \<times> listener \<times> 'w bi"

fun bi_allowed :: "bi_api \<Rightarrow> 'w bi_config \<Rightarrow> bool" where
  "bi_allowed (B_connect_conn p ip port cb) (th, l, s) =
     (case conn_heap s p of None \<Rightarrow> True | Some c \<Rightarrow> conn_st c = Cs_wait4connect)"
| "bi_allowed B_delete_finish (th, l, s) = (th = B_ended)"
| "bi_allowed _ _ = True"

fun bi_dispatcher_step :: "'w ext \<Rightarrow> 'w bi_config \<Rightarrow> 'w bi_config" where
  "bi_dispatcher_step ext (B_running, l, s) = (case bi_iteration ext s of
     (Inl e, t) \<Rightarrow> (B_failed e, l, t)
   | (Inr exit, t) \<Rightarrow> (if exit then B_joining else B_running, l, t))"
| "bi_dispatcher_step ext (B_joining, l, s) = (if l = Li_ended then B_ended else B_joining, l, s)"
| "bi_dispatcher_step ext (th, l, s) = (th, l, s)"

fun bi_listener_step :: "'w ext \<Rightarrow> 'w bi_config \<Rightarrow> 'w bi_config" where
  "bi_listener_step ext (B_failed e, l, s) = (B_failed e, l, s)"
| "bi_listener_step ext (th, l, s) = (case bi_listening_thread ext l s of
     (Inl e, t) \<Rightarrow> (B_failed e, l, t)
   | (Inr l', t) \<Rightarrow> (th, l', t))"

fun bi_api_step :: "'w ext \<Rightarrow> bi_api \<Rightarrow> 'w bi_config \<Rightarrow> 'w bi_config" where
  "bi_api_step ext a (B_failed e, l, s) = (B_failed e, l, s)"
| "bi_api_step ext a (th, l, s) = (case run_bi_api ext a s of
     (Inl e, t) \<Rightarrow> (B_failed e, l, t)
   | (Inr _, t) \<Rightarrow> (th, l, t))"

inductive bi_step :: "'w ext \<Rightarrow> 'w bi_config \<Rightarrow> 'w bi_config \<Rightarrow> bool" for ext :: "'w ext" where
  bi_by_dispatcher: "bi_step ext c (bi_dispatcher_step ext c)"
| bi_by_listener: "bi_step ext c (bi_listener_step ext c)"
| bi_by_api: "bi_allowed a c \<Longrightarrow> bi_step ext c (bi_api_step ext a c)"

definition empty_bi :: "'w \<Rightarrow> 'w bi" where
  "empty_bi w = \<lparr>world = w, trace = [], conn_heap = (\<lambda>_. None), recv_heap = (\<lambda>_. None),
     send_heap = (\<lambda>_. None), overlap_heap = (\<lambda>_. None), accept_heap = (\<lambda>_. None), last_addr = 0,
     b_listening = -1, b_accepted = None, b_stop_sem = 0, b_iocp = None, b_wsa = None,
     b_messages = None, b_conns = [], b_recvs = [], b_sends = [], b_externals = (\<lambda>_. None)\<rparr>"

text \<open>
  When the constructor returns the listening thread has not collected any events yet, or
  it did so before the listening socket was registered: it was created first.
\<close>

definition early_wait :: "wsa_reactor option \<Rightarrow> listener" where
  "early_wait w = (case w of None \<Rightarrow> Li_collect | Some W \<Rightarrow> Li_wait [hInterruptEvent W, hExitEvent W] 0)"

definition bi_initial :: "'w ext \<Rightarrow> 'w bi_config \<Rightarrow> bool" where
  "bi_initial ext c \<longleftrightarrow> (\<exists>w port cb t l.
     new_tcp_dispatcher_biocp ext port cb (empty_bi w) = (Inr (), t)
     \<and> l \<in> {Li_collect, early_wait (b_wsa t)} \<and> c = (B_running, l, t))"

inductive bi_reachable :: "'w ext \<Rightarrow> 'w bi_config \<Rightarrow> bool" for ext :: "'w ext" where
  bi_start: "bi_initial ext c \<Longrightarrow> bi_reachable ext c"
| bi_next: "bi_reachable ext c \<Longrightarrow> bi_step ext c d \<Longrightarrow> bi_reachable ext d"

subsection \<open>Invariants of every run\<close>

text \<open>
  The contract of an invariant: \<open>I\<close> while the dispatcher thread runs, which the listening
  thread keeps even when it throws, and what is left of it, \<open>J\<close>, afterwards.
\<close>

locale bi_invariant =
  fixes ext :: "'w ext" and I J :: "'w bi \<Rightarrow> bool"
  assumes weaker: "I s \<Longrightarrow> J s"
    and iteration_triple: "triple I (bi_iteration ext) (\<lambda>exit s. if exit then J s else I s) J"
    and listening_triple: "triple I (bi_listening_thread ext l) (\<lambda>_. I) I"
    and listening_after: "J s \<Longrightarrow> J (snd (bi_listening_thread ext l s))"
    and api_wp: "I s \<Longrightarrow> bi_allowed a (th, l, s) \<Longrightarrow> wp (run_bi_api ext a) (\<lambda>_. I) (\<lambda>_. J) s"
    and api_after: "J s \<Longrightarrow> J (snd (run_bi_api ext a s))"
    and start_wp: "wp (new_tcp_dispatcher_biocp ext port cb) (\<lambda>_. I) (\<lambda>_. J) (empty_bi w)"
begin

definition holds :: "'w bi_config \<Rightarrow> bool" where
  "holds c = (case c of (th, l, s) \<Rightarrow> if th = B_running then I s else J s)"

lemma result:
  assumes "wp m Q (\<lambda>_. E) s"
  shows "m s = (Inl e, t) \<Longrightarrow> E t" and "m s = (Inr x, t) \<Longrightarrow> Q x t"
  using wp_Inl [OF assms] wp_Inr [OF assms] by auto

lemma dispatcher_holds: "holds c \<Longrightarrow> holds (bi_dispatcher_step ext c)"
proof -
  obtain th l s where c: "c = (th, l, s)" by (cases c)
  assume h: "holds c"
  show ?thesis
  proof (cases th)
    case B_running
    with h c have "wp (bi_iteration ext) (\<lambda>exit s. if exit then J s else I s) (\<lambda>_. J) s"
      by (intro tripleD [OF iteration_triple]) (simp add: holds_def)
    from result [OF this] c B_running show ?thesis
      by (auto simp: holds_def split: prod.split sum.split)
  qed (use h c in \<open>simp_all add: holds_def\<close>)
qed

lemma listener_holds: "holds c \<Longrightarrow> holds (bi_listener_step ext c)"
proof -
  obtain th l s where c: "c = (th, l, s)" by (cases c)
  assume h: "holds c"
  show ?thesis
  proof (cases "th = B_running")
    case True
    with h c have "wp (bi_listening_thread ext l) (\<lambda>_. I) (\<lambda>_. I) s"
      by (intro tripleD [OF listening_triple]) (simp add: holds_def)
    from result [OF this] c True show ?thesis
      by (auto simp: holds_def intro: weaker split: prod.split sum.split)
  next
    case False
    with h c have "J (snd (bi_listening_thread ext l s))"
      by (intro listening_after) (simp add: holds_def)
    with h c False show ?thesis
      by (cases th) (auto simp: holds_def split: prod.split sum.split)
  qed
qed

lemma api_holds: "holds c \<Longrightarrow> bi_allowed a c \<Longrightarrow> holds (bi_api_step ext a c)"
proof -
  obtain th l s where c: "c = (th, l, s)" by (cases c)
  assume h: "holds c" and a: "bi_allowed a c"
  show ?thesis
  proof (cases "th = B_running")
    case True
    with h c have "I s" by (simp add: holds_def)
    from result [OF api_wp [OF this a [unfolded c]]] c True show ?thesis
      by (auto simp: holds_def split: prod.split sum.split)
  next
    case False
    with h c have "J (snd (run_bi_api ext a s))" by (intro api_after) (simp add: holds_def)
    with h c False show ?thesis
      by (cases th) (auto simp: holds_def split: prod.split sum.split)
  qed
qed

lemma reachable_holds: "bi_reachable ext c \<Longrightarrow> holds c"
proof (induction rule: bi_reachable.induct)
  case (bi_start c)
  then obtain w port cb t l where
    "new_tcp_dispatcher_biocp ext port cb (empty_bi w) = (Inr (), t)" "c = (B_running, l, t)"
    by (auto simp: bi_initial_def)
  with result(2) [OF start_wp] show ?case by (auto simp: holds_def)
next
  case (bi_next c d)
  from bi_next.hyps(2) show ?case
    by (cases rule: bi_step.cases)
      (simp_all add: bi_next.IH dispatcher_holds listener_holds api_holds)
qed

lemma always: "bi_reachable ext (th, l, s) \<Longrightarrow> J s"
  using reachable_holds [of "(th, l, s)"] by (auto simp: holds_def intro: weaker split: if_splits)

end

end
