(* ===== verification/Biocp_Frames.thy ===== *)
theory Biocp_Frames
  imports Biocp_System Protocol
begin

section \<open>Frames of the older Windows dispatcher\<close>

text \<open>As for the other dispatchers: which functions stay within a frame.\<close>

locale bi_frame = frame R for R :: "('w, 'z) bi_scheme \<Rightarrow> ('w, 'z) bi_scheme \<Rightarrow> bool" +
  assumes listening_any: "R s (s\<lparr>b_listening := d\<rparr>)"
    and stop_any: "R s (s\<lparr>b_stop_sem := n\<rparr>)"
    and stop_accepted_any: "R s (s\<lparr>b_accepted := a, b_stop_sem := n\<rparr>)"
    and iocp_any: "R s (s\<lparr>b_iocp := m\<rparr>)"
    and wsa_any: "R s (s\<lparr>b_wsa := w\<rparr>)"
    and messages_any: "R s (s\<lparr>b_messages := q\<rparr>)"
    and conns_any: "R s (s\<lparr>b_conns := l3\<rparr>)"
    and recvs_any: "R s (s\<lparr>b_recvs := l4\<rparr>)"
    and sends_any: "R s (s\<lparr>b_sends := l5\<rparr>)"
    and externals_any: "R s (s\<lparr>b_externals := h\<rparr>)"
    and external_new: "R s (s\<lparr>b_externals := h, last_addr := Suc (last_addr s)\<rparr>)"
begin

lemmas member_any = listening_any stop_any stop_accepted_any iocp_any wsa_any messages_any
  conns_any recvs_any sends_any externals_any

lemma keeps_with_iocp: "(\<And>r. keeps (f r)) \<Longrightarrow> keeps (with_iocp f)"
  unfolding with_iocp_def by (intro keeps_basic)

lemma keeps_with_wsa: "(\<And>r. keeps (f r)) \<Longrightarrow> keeps (with_wsa f)"
  unfolding with_wsa_def by (intro keeps_basic)

lemma keeps_set_wsa: "keeps (set_wsa W)"
  unfolding set_wsa_def by (intro keeps_modify wsa_any)

lemma keeps_bi_messages: "keeps (bi_messages f)"
  unfolding bi_messages_def by (intro keeps_basic keeps_modify messages_any)

lemma keeps_bi_post: "keeps (bi_post ext k)" "keeps (bi_post_ptr ext k p)"
  unfolding bi_post_def bi_post_ptr_def
  by (intro keeps_basic keeps_bi_messages keeps_with_iocp keeps_iocp_reactor)+

lemma keeps_bi_free_completed:
  "keeps (bi_free_completed_conn ext p rmark)" "keeps (bi_free_completed_recv ext p rmark)"
  "keeps (bi_free_completed_send ext p rmark)"
  unfolding bi_free_completed_conn_def bi_free_completed_recv_def bi_free_completed_send_def
  by (intro keeps_basic keeps_modify member_any keeps_objects)+

lemma keeps_bi_free_not_completed: "keeps (bi_free_not_completed_objects ext)"
  unfolding bi_free_not_completed_objects_def block.simps
  by (intro keeps_basic keeps_modify member_any keeps_objects)

lemma keeps_bi_start_listening: "keeps (bi_start_listening ext port cb)"
proof -
  have two: "R s (s\<lparr>b_iocp := m, b_messages := q\<rparr>)" for s m q
    by (rule trans [OF iocp_any messages_any])
  show ?thesis
    unfolding bi_start_listening_def
    by (intro keeps_basic keeps_wsa_reactor keeps_iocp_reactor keeps_set_wsa keeps_modify member_any two)
      simp_all
qed

lemma keeps_bi_dtor: "keeps (bi_dtor_request ext)" "keeps (bi_dtor_finish ext)"
  unfolding bi_dtor_request_def bi_dtor_finish_def
  by (intro keeps_basic keeps_bi_post keeps_wsa_reactor keeps_iocp_reactor keeps_modify member_any; simp)+

lemma keeps_bi_wsa_connect: "keeps (bi_wsa_connect ext d a)"
  unfolding bi_wsa_connect_def by (intro keeps_basic) simp_all

lemma keeps_bi_connects: "keeps (bi_make_conn ext)" "keeps (bi_connect ext ip port cb)"
  unfolding bi_make_conn_def bi_connect_def Let_def
  by (intro keeps_basic keeps_bi_wsa_connect keeps_objects keeps_bi_post; simp)+

lemma keeps_bi_closes:
  "keeps (bi_close_conn ext p)" "keeps (bi_close_conn_wait ext p)"
  "keeps (bi_close_conn_wait_return p)"
  unfolding bi_close_conn_def bi_close_conn_wait_def bi_close_conn_wait_return_def
  by (intro keeps_basic keeps_close_wait keeps_objects keeps_bi_post; simp)+

lemma keeps_bi_small:
  "keeps (bi_release ext p)" "keeps (bi_addref ext p)" "keeps (bi_release_send ext p)"
  "keeps (bi_stop_accepting ext)" "keeps bi_stop_accepting_return" "keeps (bi_get_ip_port p)"
  "keeps (bi_set_bandwidth n)"
  unfolding bi_release_def bi_addref_def bi_release_send_def bi_stop_accepting_def
    bi_stop_accepting_return_def bi_get_ip_port_def bi_set_bandwidth_def
  by (intro keeps_basic keeps_objects keeps_bi_post keeps_modify member_any)+

lemmas keeps_bi_interface = keeps_bi_dtor keeps_bi_connects keeps_bi_closes keeps_bi_small

lemma keeps_bi_create: "keeps (bi_create_connection ext p)"
  unfolding bi_create_connection_def
  by (intro keeps_basic keeps_with_wsa keeps_wsa_reactor keeps_set_wsa)

lemma keeps_bi_unwatch: "keeps (bi_unwatch ext p)"
  unfolding bi_unwatch_def by (intro keeps_basic keeps_with_wsa keeps_wsa_reactor keeps_set_wsa)

lemma keeps_bi_close_socket: "keeps (bi_close_socket ext p)"
  unfolding bi_close_socket_def by (intro keeps_basic) simp_all

lemma keeps_bi_activate: "keeps (bi_activate_receiving ext p)"
  unfolding bi_activate_receiving_def
  by (intro keeps_basic keeps_objects keeps_modify member_any) simp_all

lemma keeps_bi_find: "keeps (bi_find_conn d ps)"
proof (induction ps)
  case (Cons p ps)
  show ?case unfolding bi_find_conn.simps by (intro keeps_basic Cons)
qed (simp add: keeps_ret)

lemma keeps_bi_exit: "keeps (with_wsa (\<lambda>W. wsa_stop ext W d))"
  by (intro keeps_with_wsa keeps_wsa_reactor)

lemmas keeps_bi_thread = keeps_bi_create keeps_bi_unwatch keeps_bi_close_socket keeps_bi_activate
  keeps_bi_free_completed keeps_bi_exit

subsection \<open>The listening thread\<close>

lemma keeps_bi_listened: "keeps (bi_listened ext b entry)"
  unfolding bi_listened_def
  by (intro keeps_if keeps_option keeps_prod keeps_ret keeps_bnd [OF keeps_gets] keeps_alloc
      external_new keeps_andthen keeps_bi_post)

lemma keeps_wsa_outcome:
  "(\<And>b e. keeps (f b e)) \<Longrightarrow> (\<And>h es cs. keeps (g h es cs)) \<Longrightarrow>
   keeps (case out of Wsa_answer b e \<Rightarrow> f b e | Wsa_events h es cs \<Rightarrow> g h es cs)"
  by (cases out) simp_all

lemma keeps_bi_listening: "keeps (bi_listening_thread ext l)"
  unfolding bi_listening_thread_def
proof (intro keeps_try_catch keeps_ret)
  show "keeps (bi_listening_step ext l)"
    by (cases l; simp only: bi_listening_step.simps)
      (intro keeps_basic keeps_with_wsa keeps_wsa_wait keeps_set_wsa keeps_bi_listened keeps_wsa_outcome)+
qed

end

text \<open>The functions that change send requests.\<close>

locale bi_send_any = bi_frame + send_any_frame
begin

lemma keeps_iocp_get_transfer: "keeps (iocp_get_transfer ext r result)"
  unfolding iocp_get_transfer_def done_transfer_def
  by (intro keeps_basic keeps_obj keeps_failed_transfer keeps_obj_iov keeps_set_send) simp_all

lemma keeps_bi_send: "keeps (bi_send ext p buf cb)" "keeps (bi_send_no_callback ext p buf)"
  unfolding bi_send_no_callback_def bi_send_def
  by (intro keeps_basic keeps_new_send_req keeps_set_send keeps_objects keeps_bi_post)+

lemma keeps_bi_break_send: "keeps (bi_break_send ext sr)" "keeps (bi_break_send_return sr)"
  unfolding bi_break_send_def bi_break_send_return_def
  by (intro keeps_basic keeps_objects keeps_bi_post keeps_set_send keeps_break)+

end

locale bi_send_frame = bi_send_any + send_frame
begin

lemma keeps_bi_sending:
  "keeps (bi_send_request ext sr)" "keeps (bi_send_complete ext sr)" "keeps (bi_call_false_cb ext sr)"
  unfolding bi_send_request_def bi_send_complete_def bi_call_false_cb_def block.simps
  by (intro keeps_basic keeps_send_callback keeps_set_send keeps_break keeps_objects keeps_bi_free_completed
      keeps_modify member_any; simp)+

end

text \<open>The functions that change connections and call their callbacks.\<close>

locale bi_conn_any = bi_frame + conn_any_frame
begin

lemma keeps_bi_connect_conn: "keeps (bi_connect_conn ext p ip port cb)"
  unfolding bi_connect_conn_def Let_def
  by (intro keeps_basic keeps_set_conn_any keeps_bi_post keeps_bi_wsa_connect) simp_all

end

locale bi_conn_frame = bi_conn_any + conn_frame
begin

lemma keeps_bi_close_connection: "keeps (bi_close_connection ext p iocp)"
  unfolding bi_close_connection_def bi_forget_callbacks_def block.simps
  by (intro keeps_basic keeps_conn_state keeps_connection_calls keeps_set_conn_any keeps_bi_thread) simp_all

lemma keeps_bi_accept: "keeps (bi_accept_connection ext)"
  unfolding bi_accept_connection_def bi_call_accepted_def bi_set_connected_def block.simps
  by (intro keeps_basic keeps_objects keeps_set_conn_any keeps_callback keeps_with_iocp
      keeps_iocp_reactor keeps_bi_thread keeps_bi_close_connection) simp_all

lemma keeps_bi_established: "keeps (bi_connection_established ext p)"
  unfolding bi_connection_established_def bi_set_connected_def block.simps
  by (intro keeps_basic keeps_connection_calls keeps_set_conn_any keeps_with_iocp
      keeps_iocp_reactor keeps_bi_thread keeps_bi_close_connection) simp_all

lemma keeps_bi_external: "keeps (bi_handle_external ext em)"
  unfolding bi_handle_external_def bi_connect_event_def bi_close_event_def bi_on_conn_def
  by (intro keeps_basic keeps_bi_accept keeps_bi_established keeps_bi_close_connection keeps_bi_find
      keeps_objects keeps_modify member_any)

lemma keeps_bi_recv_complete: "keeps (bi_recv_complete ext rr)"
  unfolding bi_recv_complete_def bi_deliver_def bi_next_receive_def
  by (intro keeps_basic keeps_connection_calls keeps_bi_close_connection keeps_bi_free_completed)
    simp_all

lemmas keeps_bi_connections = keeps_bi_close_connection keeps_bi_external keeps_bi_recv_complete

end

end
