(* ===== verification/Biocp_Protocol.thy ===== *)
theory Biocp_Protocol
  imports Biocp_Frames
begin

section \<open>The older Windows dispatcher keeps the callback protocol\<close>

text \<open>
  The automaton and the invariant of \<open>Protocol\<close>, for the functions of
  \<open>tcp_dispatcher_biocp.cpp\<close>.
\<close>

interpretation bq: bi_send_frame "quiet :: ('w, 'z) bi_scheme \<Rightarrow> ('w, 'z) bi_scheme \<Rightarrow> bool"
  by unfold_locales (rule quiet_same [where ks = "[]"], simp_all add: calls_def)+

interpretation bu: bi_send_any "userq :: ('w, 'z) bi_scheme \<Rightarrow> ('w, 'z) bi_scheme \<Rightarrow> bool"
  by unfold_locales (rule userq_same, simp)+

interpretation buc: bi_conn_any "userq :: ('w, 'z) bi_scheme \<Rightarrow> ('w, 'z) bi_scheme \<Rightarrow> bool"
  by unfold_locales (rule userq_same, simp)

subsection \<open>Closing\<close>

lemma triple_bi_forget_callbacks:
  "triple (proto_except p Down) (bi_forget_callbacks p) (\<lambda>_. proto) safe"
  unfolding bi_forget_callbacks_def by (rule triple_set_conn) simp

lemma triple_bi_set_connected:
  "triple (proto_except p Up) (bi_set_connected p) (\<lambda>_. proto) safe"
  unfolding bi_set_connected_def by (rule triple_set_conn) simp

lemma bi_close_wait_triple:
  "triple (proto_except p Fresh :: ('w, 'z) bi_scheme \<Rightarrow> bool) (block
     [call_connected ext p False, bi_forget_callbacks p, bi_unwatch ext p,
      bi_free_completed_conn ext p mark]) (\<lambda>_. proto) safe"
  unfolding block.simps(2) [of "call_connected ext p False"] block.simps(2) [of "bi_forget_callbacks p"]
  by (intro triple_seq [OF triple_call_connected [where ph = Down]]
      triple_seq [OF triple_bi_forget_callbacks] triple_block_quiet)
    (auto intro: bq.keeps_bi_thread)

lemma bi_close_connected_triple:
  "triple (proto_except p Up :: ('w, 'z) bi_scheme \<Rightarrow> bool) (block
     [call_closed ext p, bi_forget_callbacks p, bi_close_socket ext p,
      whenever iocp (bi_free_completed_conn ext p mark)]) (\<lambda>_. proto) safe"
  unfolding block.simps(2) [of "call_closed ext p"] block.simps(2) [of "bi_forget_callbacks p"]
  by (intro triple_seq [OF triple_call_closed] triple_seq [OF triple_bi_forget_callbacks]
      triple_block_quiet)
    (auto intro: bq.keeps_bi_thread qt.keeps_whenever)

lemma bi_close_connection_triple:
  "triple (proto :: ('w, 'z) bi_scheme \<Rightarrow> bool) (bi_close_connection ext p iocp) (\<lambda>_. proto) safe"
  unfolding bi_close_connection_def
proof (rule triple_bnd [OF triple_deref], rule triple_conn_state)
  fix c :: conn
  let ?at = "\<lambda>s :: ('w, 'z) bi_scheme. proto s \<and> conn_heap s p = Some c"
  let ?free = "bi_free_completed_conn ext p ''close_connection''"
  show "triple ?at (block [call_connected ext p False, bi_forget_callbacks p, bi_unwatch ext p, ?free])
      (\<lambda>_. proto) safe" if "conn_st c = Cs_wait4connect"
    by (rule triple_conseq [OF bi_close_wait_triple]) (use proto_state(1) that in auto)
  show "triple ?at (block [call_closed ext p, bi_forget_callbacks p, bi_close_socket ext p,
       whenever iocp ?free]) (\<lambda>_. proto) safe" if "conn_st c = Cs_connected"
    by (rule triple_conseq [OF bi_close_connected_triple]) (use proto_state(2) that in auto)
  have "triple proto (block [bi_close_socket ext p, whenever iocp ?free])
      (\<lambda>_. proto :: ('w, 'z) bi_scheme \<Rightarrow> bool) safe"
    by (rule triple_block_quiet) (auto intro: bq.keeps_bi_thread qt.keeps_whenever)
  then show "triple ?at (block [bi_close_socket ext p, whenever iocp ?free]) (\<lambda>_. proto) safe"
    by (rule triple_conseq) simp_all
qed

subsection \<open>New connections\<close>

lemma bi_start_receiving_triple:
  "triple (proto :: ('w, 'z) bi_scheme \<Rightarrow> bool) (bnd (bi_activate_receiving ext p) (\<lambda>ok.
     whenever (\<not> ok) (bi_close_connection ext p True))) (\<lambda>_. proto) safe"
  by (intro triple_bnd_inv triple_whenever bi_close_connection_triple
      quiet_keeps [OF bq.keeps_bi_activate])

lemma bi_accepted_triple:
  "triple (proto_except p Fresh :: ('w, 'z) bi_scheme \<Rightarrow> bool) (block
     [conn_addref ext p m1, conn_addref ext p m2, set_conn p (conn_addr_update (\<lambda>_. Some a)),
      bi_call_accepted ext p f, with_iocp (\<lambda>R. iocp_add_conn ext R p), bi_set_connected p])
     (\<lambda>_. proto) safe"
  unfolding block.simps bi_call_accepted_def
  by (rule triple_seq, rule except_keeps, rule qt.keeps_conn_addref,
      rule triple_seq, rule except_keeps, rule qt.keeps_conn_addref,
      rule triple_seq, rule except_keeps, rule qt.keeps_set_conn, simp, simp, simp,
      rule triple_seq, rule triple_bnd, rule triple_callback [where ph' = Up], simp, simp, simp,
      rule triple_set_conn_other,
      rule triple_seq, rule except_keeps, rule bq.keeps_with_iocp, rule qt.keeps_iocp_reactor,
      rule triple_seq, rule triple_bi_set_connected, rule triple_ret)

lemma bi_accept_connection_triple:
  "triple (proto :: ('w, 'z) bi_scheme \<Rightarrow> bool) (bi_accept_connection ext) (\<lambda>_. proto) safe"
  unfolding bi_accept_connection_def
  by (intro triple_bnd_inv triple_option triple_if triple_ret quiet_keeps [OF qt.keeps_gets]
      quiet_keeps [OF qt.keeps_call] quiet_keeps [OF qt.keeps_throw] triple_bnd [OF new_conn_triple]
      triple_seq [OF bi_accepted_triple] quiet_keeps [OF bq.keeps_bi_activate] triple_andthen
      bi_close_connection_triple) simp_all

lemma bi_establish_triple:
  "triple (\<lambda>s :: ('w, 'z) bi_scheme. proto s \<and> proto_except p Fresh s) (block
     [bi_unwatch ext p, call_connected ext p True, bi_set_connected p,
      with_iocp (\<lambda>R. iocp_add_conn ext R p),
      bnd (bi_activate_receiving ext p) (\<lambda>ok. whenever (\<not> ok) (bi_close_connection ext p True))])
     (\<lambda>_. proto) safe"
proof -
  have "triple (proto_except p Fresh :: ('w, 'z) bi_scheme \<Rightarrow> bool) (block
     [bi_unwatch ext p, call_connected ext p True, bi_set_connected p,
      with_iocp (\<lambda>R. iocp_add_conn ext R p),
      bnd (bi_activate_receiving ext p) (\<lambda>ok. whenever (\<not> ok) (bi_close_connection ext p True))])
     (\<lambda>_. proto) safe"
    unfolding block.simps
    by (intro triple_seq [OF except_keeps [OF bq.keeps_bi_unwatch]]
        triple_seq [OF triple_call_connected [where ph = Up]] triple_seq [OF triple_bi_set_connected]
        triple_seq [OF quiet_keeps [OF bq.keeps_with_iocp]] qt.keeps_iocp_reactor
        triple_seq [OF bi_start_receiving_triple] triple_ret) simp
  then show ?thesis by (rule triple_conseq) simp_all
qed

lemma bi_connection_established_triple:
  "triple (proto :: ('w, 'z) bi_scheme \<Rightarrow> bool) (bi_connection_established ext p) (\<lambda>_. proto) safe"
  unfolding bi_connection_established_def whenever_def
  by (rule triple_bnd [OF triple_deref],
      rule triple_if [OF triple_conseq [OF bi_establish_triple] triple_proto_ret, unfolded whenever_def])
    (use proto_state(3) in auto)

lemma bi_on_conn_triple:
  "(\<And>p. triple (proto :: ('w, 'z) bi_scheme \<Rightarrow> bool) (h p) (\<lambda>_. proto) safe) \<Longrightarrow>
   triple (proto :: ('w, 'z) bi_scheme \<Rightarrow> bool) (bi_on_conn ext d h mark) (\<lambda>_. proto) safe"
  unfolding bi_on_conn_def
  by (intro triple_bnd_inv triple_option triple_andthen triple_if triple_ret
      quiet_keeps [OF qt.keeps_gets] quiet_keeps [OF bq.keeps_bi_find] quiet_keeps [OF qt.keeps_throw]
      quiet_keeps [OF qt.keeps_conn_release] quiet_keeps [OF qt.keeps_modify] bq.conns_any)

lemma bi_handle_external_triple:
  "triple (proto :: ('w, 'z) bi_scheme \<Rightarrow> bool) (bi_handle_external ext em) (\<lambda>_. proto) safe"
  unfolding bi_handle_external_def bi_connect_event_def bi_close_event_def
  by (intro triple_bnd_inv triple_prod triple_andthen triple_if triple_ret triple_deref_inv
      bi_accept_connection_triple bi_on_conn_triple bi_connection_established_triple
      bi_close_connection_triple quiet_keeps [OF qt.keeps_modify] bq.externals_any)

subsection \<open>Receiving\<close>

lemma bi_deliver_triple:
  "triple (proto :: ('w, 'z) bi_scheme \<Rightarrow> bool) (bi_deliver ext rr p) (\<lambda>_. proto) proto"
proof (rule tripleI)
  fix s :: "('w, 'z) bi_scheme"
  assume s: "proto s"
  show "wp (bi_deliver ext rr p) (\<lambda>_. proto) (\<lambda>_. proto) s"
    using s call_read_wp [OF s]
    by (auto simp: bi_deliver_def wp_bnd wp_deref wp_whenever split: option.split)
qed

lemma bi_next_receive_triple:
  "triple (proto :: ('w, 'z) bi_scheme \<Rightarrow> bool) (bi_next_receive ext rr p) (\<lambda>_. proto) safe"
  unfolding bi_next_receive_def
  by (intro triple_bnd_inv triple_if triple_deref_inv triple_ret triple_andthen
      bi_close_connection_triple quiet_keeps [OF qt.keeps_call]
      quiet_keeps [OF bq.keeps_bi_free_completed(2)]) simp_all

lemma bi_recv_complete_triple:
  "triple (proto :: ('w, 'z) bi_scheme \<Rightarrow> bool) (bi_recv_complete ext rr) (\<lambda>_. proto) safe"
proof -
  have "triple (proto :: ('w, 'z) bi_scheme \<Rightarrow> bool) (try_catch (andthen (bi_deliver ext rr p) (ret True))
      (\<lambda>_. andthen (bi_free_completed_recv ext rr ''from_read_callback'')
        (andthen (bi_close_connection ext p True) (ret False)))) (\<lambda>_. proto) safe" for p
    by (rule triple_try_catch [where I = proto], intro triple_andthen bi_deliver_triple triple_ret,
        intro triple_andthen bi_close_connection_triple quiet_keeps [OF bq.keeps_bi_free_completed(2)]
          triple_ret, rule proto_safe)
  then show ?thesis
    unfolding bi_recv_complete_def Let_def
    by (intro triple_bnd_inv triple_whenever triple_deref_inv bi_next_receive_triple)
qed

subsection \<open>The threads and the interface\<close>

lemma bi_handle_message_triple:
  "triple (proto :: ('w, 'z) bi_scheme \<Rightarrow> bool) (bi_handle_message ext im) (\<lambda>_. proto) safe"
proof -
  have l: "triple (proto :: ('w, 'z) bi_scheme \<Rightarrow> bool) (block ms) (\<lambda>_. proto) safe"
    if "\<forall>m \<in> set ms. triple (proto :: ('w, 'z) bi_scheme \<Rightarrow> bool) m (\<lambda>_. proto) safe" for ms
    using that by (intro triple_block) blast
  have c: "triple (proto :: ('w, 'z) bi_scheme \<Rightarrow> bool) (modify (\<lambda>s. s\<lparr>b_conns := b_conns s @ [p]\<rparr>))
      (\<lambda>_. proto) safe" for p
    by (intro quiet_keeps qt.keeps_modify bq.conns_any)
  show ?thesis
    unfolding bi_handle_message_def bi_with_ptr_def
    by (intro triple_if triple_andthen triple_option triple_ret l;
        simp add: c bi_close_connection_triple bi_handle_external_triple quiet_keeps
          bq.keeps_bi_free_not_completed bq.keeps_bi_exit bq.stop_accepted_any qt.keeps_modify
          qt.keeps_throw qt.keeps_conn_addref qt.keeps_conn_release bq.keeps_bi_create
          bq.keeps_bi_sending qtp.keeps_close_post)
qed

lemma bi_iteration_body_triple:
  "triple (proto :: ('w, 'z) bi_scheme \<Rightarrow> bool) (bi_iteration_body ext) (\<lambda>_. proto) safe"
  unfolding bi_iteration_body_def bi_handle_wakeup_def bi_handle_completion_def
  by (intro triple_bnd_inv triple_prod triple_andthen triple_entry triple_if triple_option triple_ret
      bi_handle_message_triple bi_close_connection_triple bi_recv_complete_triple
      quiet_keeps [OF bq.keeps_with_iocp] bq.keeps_iocp_get_transfer quiet_keeps [OF qt.keeps_modify]
      bq.messages_any quiet_keeps [OF qt.keeps_gets] quiet_keeps [OF bq.keeps_bi_sending(2)]
      quiet_keeps [OF qt.keeps_throw])

lemma bi_iteration_triple:
  "triple (proto :: ('w, 'z) bi_scheme \<Rightarrow> bool) (bi_iteration ext)
     (\<lambda>exit s. if exit then safe s else proto s) safe"
  unfolding bi_iteration_def
proof (rule triple_try_catch)
  show "triple (proto :: ('w, 'z) bi_scheme \<Rightarrow> bool) (bi_iteration_body ext)
      (\<lambda>exit s. if exit then safe s else proto s) safe"
    by (rule triple_conseq [OF bi_iteration_body_triple]) (auto intro: proto_safe)
  fix e
  have "wp (with_wsa (\<lambda>W. wsa_stop ext W (-1))) (\<lambda>_. safe) (\<lambda>_. safe) s"
    if "safe s" for s :: "('w, 'z) bi_scheme"
    using userq_safe [OF bu.keeps_bi_exit that] by (simp add: wp_snd)
  then show "triple (safe :: ('w, 'z) bi_scheme \<Rightarrow> bool)
      (andthen (with_wsa (\<lambda>W. wsa_stop ext W (-1))) (ret True))
      (\<lambda>exit s. if exit then safe s else proto s) safe"
    by (intro tripleI) (simp add: wp_andthen wp_ret_eta)
qed

lemma bi_connect_conn_wp:
  fixes s :: "('w, 'z) bi_scheme"
  assumes "proto s" and "\<And>c. conn_heap s p = Some c \<Longrightarrow> conn_st c = Cs_wait4connect"
  shows "wp (bi_connect_conn ext p ip port cb) (\<lambda>_. proto) (\<lambda>_. proto) s"
proof -
  let ?P = "\<lambda>s :: ('w, 'z) bi_scheme. proto s \<and> (\<forall>c. conn_heap s p = Some c \<longrightarrow> conn_st c = Cs_wait4connect)"
  have "triple ?P (bi_connect_conn ext p ip port cb) (\<lambda>_. proto) proto"
    unfolding bi_connect_conn_def Let_def
    by (intro triple_try_catch [where I = proto] triple_seq [OF waiting_set_addr]
        triple_seq [OF waiting_set_cbs] triple_ret quiet_triple qt.keeps_bnd qt.keeps_whenever
        qt.keeps_deref bq.keeps_bi_wsa_connect bq.keeps_bi_post) simp
  then show ?thesis by (rule tripleD) (simp add: assms)
qed

definition bi_connects_conn :: "bi_api \<Rightarrow> bool" where
  "bi_connects_conn a = (case a of B_connect_conn _ _ _ _ \<Rightarrow> True | _ \<Rightarrow> False)"

lemma bi_discard_keeps: "qt.keeps m \<Longrightarrow> qt.keeps (bi_discard m)"
  unfolding bi_discard_def by (intro qt.keeps_bnd qt.keeps_ret)

lemma bi_quiet_api: "bi_connects_conn a \<or> qt.keeps (run_bi_api ext a)"
  by (cases a) (simp_all only: bi_connects_conn_def bi_api.case run_bi_api.simps simp_thms
      bi_discard_keeps bq.keeps_bi_interface bq.keeps_bi_send bq.keeps_bi_break_send)

lemma run_bi_api_proto:
  assumes "proto s" and "bi_allowed a (th, l, s)"
  shows "proto (snd (run_bi_api ext a s))"
proof (cases "bi_connects_conn a")
  case True
  then obtain p ip port cb where a: "a = B_connect_conn p ip port cb"
    by (auto simp: bi_connects_conn_def split: bi_api.splits)
  then have "wp (bi_connect_conn ext p ip port cb) (\<lambda>_. proto) (\<lambda>_. proto) s"
    using assms by (intro bi_connect_conn_wp) (auto split: option.splits)
  with a show ?thesis by (simp add: wp_snd)
next
  case False
  then have "qt.keeps (run_bi_api ext a)" using bi_quiet_api by blast
  then show ?thesis using quiet_proto [OF qt.keepsD] assms(1) by blast
qed

lemma bi_discard_userq: "uq.keeps m \<Longrightarrow> uq.keeps (bi_discard m)"
  unfolding bi_discard_def by (intro uq.keeps_bnd uq.keeps_ret)

lemma bi_userq_api: "uq.keeps (run_bi_api ext a)"
  by (cases a) (simp_all only: run_bi_api.simps bi_discard_userq bu.keeps_bi_interface
      bu.keeps_bi_send bu.keeps_bi_break_send buc.keeps_bi_connect_conn)

subsection \<open>Every run\<close>

lemma empty_bi_proto: "proto (empty_bi w)"
  by (simp add: proto_def safe_def empty_bi_def calls_def)

lemma new_bi_quiet:
  "qt.keeps (new_tcp_dispatcher_biocp ext port cb :: (('w, 'z) bi_scheme, unit) prog)"
proof -
  have "quiet s (s\<lparr>b_listening := d, b_accepted := a, b_stop_sem := n, b_iocp := m, b_wsa := w,
      b_messages := q, b_conns := l3, b_recvs := l4, b_sends := l5, b_externals := h\<rparr>)"
    for s :: "('w, 'z) bi_scheme" and d a n m w q l3 l4 l5 h
    by (rule quiet_same [where ks = "[]"]) (simp_all add: calls_def)
  then show ?thesis
    unfolding new_tcp_dispatcher_biocp_def
    by (intro qt.keeps_basic qt.keeps_modify bq.keeps_bi_start_listening qt.keeps_wsa_reactor
        qt.keeps_iocp_reactor) simp_all
qed

interpretation bi_protocol: bi_invariant ext "proto :: 'w bi \<Rightarrow> bool" safe
  for ext :: "'w ext"
proof unfold_locales
  show "wp (run_bi_api ext a) (\<lambda>_. proto) (\<lambda>_. safe) s"
    if "proto s" "bi_allowed a (th, l, s)" for s :: "'w bi" and a th l
    using run_bi_api_proto [OF that, of ext] proto_safe
    by (auto simp: wp_def split: prod.split sum.split)
  show "wp (new_tcp_dispatcher_biocp ext port cb) (\<lambda>_. proto) (\<lambda>_. safe) (empty_bi w)"
    for port cb and w :: 'w
    by (rule tripleD [OF quiet_keeps [OF new_bi_quiet] empty_bi_proto])
  show "safe (snd (run_bi_api ext a s))" if "safe s" for s :: "'w bi" and a
    by (rule userq_safe [OF bi_userq_api that])
  show "safe (snd (bi_listening_thread ext l s))" if "safe s" for s :: "'w bi" and l
    by (rule userq_safe [OF bu.keeps_bi_listening that])
  show "triple (proto :: 'w bi \<Rightarrow> bool) (bi_iteration ext) (\<lambda>exit s. if exit then safe s else proto s) safe"
    by (rule bi_iteration_triple)
qed (auto intro: proto_safe quiet_triple bq.keeps_bi_listening)

end
