(* ===== verification/Biocp_Sends.thy ===== *)
theory Biocp_Sends
  imports Biocp_Protocol Sends
begin

section \<open>The older Windows dispatcher calls the callback of a send request at most once\<close>

text \<open>Every step of the older Windows dispatcher keeps the invariant of \<open>Sends\<close>.\<close>

interpretation sbq: bi_conn_frame "sendq :: ('w, 'z) bi_scheme \<Rightarrow> ('w, 'z) bi_scheme \<Rightarrow> bool"
  by unfold_locales (rule sendq_same, simp_all)+

subsection \<open>The functions that change send requests\<close>

lemma bi_send_triple:
  "triple (sends_ok A :: ('w, 'z) bi_scheme \<Rightarrow> bool) (bi_send ext p buf cb) (\<lambda>_. sends_ok A) (sends_ok A)"
  unfolding bi_send_def
  by (rule triple_try_catch [where I = "sends_ok A"], rule triple_bnd, rule new_send_req_triple(2),
      rule triple_bnd, rule sends_new_keeps, rule sq.keeps_deref,
      rule triple_seq, rule set_send_new_triple, simp)
    (intro triple_ret triple_andthen set_send_triple sends_keeps [OF sq.keeps_send_addref]
      sends_keeps [OF sbq.keeps_bi_post(2)], simp_all add: triple_ret)

lemma bi_send_no_callback_triple:
  "triple (sends_ok A :: ('w, 'z) bi_scheme \<Rightarrow> bool) (bi_send_no_callback ext p buf) (\<lambda>_. sends_ok A) (sends_ok A)"
  unfolding bi_send_no_callback_def
  by (intro triple_bnd_inv triple_andthen triple_ret bi_send_triple sends_keeps sq.keeps_send_release)

lemma bi_break_send_triple:
  "triple (sends_ok A :: ('w, 'z) bi_scheme \<Rightarrow> bool) (bi_break_send ext sr) (\<lambda>_. sends_ok A) (sends_ok A)"
  "triple (sends_ok A :: ('w, 'z) bi_scheme \<Rightarrow> bool) (bi_break_send_return sr) (\<lambda>_. sends_ok A) (sends_ok A)"
  unfolding bi_break_send_def bi_break_send_return_def
  by (intro triple_andthen break_triple sends_keeps [OF sq.keeps_send_addref]
      sends_keeps [OF sbq.keeps_bi_post(2)])+

lemma bi_call_false_cb_triple:
  "triple (sends_ok A :: ('w, 'z) bi_scheme \<Rightarrow> bool) (bi_call_false_cb ext sr) (\<lambda>_. sends_ok A) sends_safe"
  unfolding bi_call_false_cb_def by (rule false_cb_triple [OF sq.keeps_send_release])

lemma bi_send_request_triple:
  "triple (sends_ok A :: ('w, 'z) bi_scheme \<Rightarrow> bool) (bi_send_request ext sr) (\<lambda>_. sends_ok A) sends_safe"
  unfolding bi_send_request_def
  by (intro triple_bnd_inv triple_andthen triple_if triple_whenever triple_ret send_callback_triple
      sends_weak [OF sends_keeps] sq.keeps_deref sq.keeps_call sq.keeps_throw sq.keeps_modify
      sq.keeps_send_release sbq.sends_any) simp_all

lemma bi_send_complete_triple:
  "triple (sends_ok A :: ('w, 'z) bi_scheme \<Rightarrow> bool) (bi_send_complete ext sr) (\<lambda>_. sends_ok A) sends_safe"
  unfolding bi_send_complete_def
  by (intro triple_bnd_inv triple_andthen triple_if triple_whenever triple_ret send_callback_triple
      sends_weak [OF sends_keeps] sq.keeps_deref sq.keeps_call sq.keeps_throw
      sbq.keeps_bi_free_completed) simp_all

lemma iocp_get_transfer_triple:
  "triple (sends_ok A :: ('w, 'z) base_scheme \<Rightarrow> bool) (iocp_get_transfer ext r result) (\<lambda>_. sends_ok A) sends_safe"
proof -
  have "triple (sends_ok A :: ('w, 'z) base_scheme \<Rightarrow> bool) (done_transfer r result) (\<lambda>_. sends_ok A) (sends_ok A)" for r
  proof (cases "\<exists>sr. r_done r = Some (SendObj sr)")
    case True
    then obtain sr where "r_done r = Some (SendObj sr)" by blast
    then show ?thesis
      unfolding done_transfer_def
      by (simp only: option.case obj.case)
        (intro triple_andthen triple_bnd_inv set_send_triple sends_keeps [OF sq.keeps_deref] triple_ret, simp_all)
  next
    case False
    then show ?thesis
      unfolding done_transfer_def
      by (cases "r_done r")
        (auto intro!: sends_keeps sq.keeps_basic sq.keeps_obj_iov simp del: obj_iov.simps split: obj.split)
  qed
  then show ?thesis
    unfolding iocp_get_transfer_def
    by (intro triple_bnd_inv triple_if sends_weak [OF sends_keeps] sends_weak sq.keeps_call
        sq.keeps_failed_transfer) simp_all
qed

subsection \<open>Every step\<close>

lemma bi_sends_handle_message:
  "triple (sends_ok A :: ('w, 'z) bi_scheme \<Rightarrow> bool) (bi_handle_message ext im) (\<lambda>_. sends_ok A) sends_safe"
  unfolding bi_handle_message_def bi_with_ptr_def block.simps
  by (intro triple_if triple_andthen triple_option triple_ret bi_call_false_cb_triple
      bi_send_request_triple sends_weak [OF sends_keeps] sbq.keeps_bi_free_not_completed
      sbq.keeps_bi_exit sbq.keeps_bi_connections sbq.keeps_bi_create sq.keeps_throw sq.keeps_modify
      sbq.stop_accepted_any sbq.conns_any sq.keeps_objects sqp.keeps_close_post)

lemma bi_sends_body:
  "triple (sends_ok A :: ('w, 'z) bi_scheme \<Rightarrow> bool) (bi_iteration_body ext) (\<lambda>_. sends_ok A) sends_safe"
proof -
  have get: "triple (sends_ok A :: ('w, 'z) bi_scheme \<Rightarrow> bool) (with_iocp (\<lambda>R. iocp_get_transfer ext R []))
      (\<lambda>_. sends_ok A) sends_safe"
    unfolding with_iocp_def
    by (intro triple_bnd_inv triple_option iocp_get_transfer_triple sends_weak [OF sends_keeps]
        sq.keeps_gets sq.keeps_throw)
  show ?thesis
    unfolding bi_iteration_body_def bi_handle_wakeup_def bi_handle_completion_def
    by (rule triple_bnd_inv [OF get], intro triple_bnd_inv triple_prod triple_andthen triple_entry triple_if triple_option triple_ret
        bi_sends_handle_message bi_send_complete_triple sends_weak [OF sends_keeps]
        sbq.keeps_bi_connections sq.keeps_gets sq.keeps_modify sbq.messages_any sq.keeps_throw)
qed

lemma bi_sends_iteration:
  "triple (sends_ok A :: ('w, 'z) bi_scheme \<Rightarrow> bool) (bi_iteration ext)
     (\<lambda>exit s. if exit then sends_safe s else sends_ok A s) sends_safe"
  unfolding bi_iteration_def
proof (rule triple_try_catch)
  show "triple (sends_ok A :: ('w, 'z) bi_scheme \<Rightarrow> bool) (bi_iteration_body ext)
      (\<lambda>exit s. if exit then sends_safe s else sends_ok A s) sends_safe"
    by (rule triple_conseq [OF bi_sends_body]) (auto intro: sends_ok_safe)
  have "wp (with_wsa (\<lambda>W. wsa_stop ext W (-1))) (\<lambda>_. sends_safe) (\<lambda>_. sends_safe) s"
    if "sends_safe s" for s :: "('w, 'z) bi_scheme"
    using userq_sends [OF bu.keeps_bi_exit that] by (simp add: wp_snd)
  then show "triple (sends_safe :: ('w, 'z) bi_scheme \<Rightarrow> bool)
      (andthen (with_wsa (\<lambda>W. wsa_stop ext W (-1))) (ret True))
      (\<lambda>exit s. if exit then sends_safe s else sends_ok A s) sends_safe"
    by (intro tripleI) (simp add: wp_andthen wp_ret_eta)
qed

lemma bi_discard_triple: "triple I m (\<lambda>_. I) I \<Longrightarrow> triple I (bi_discard m) (\<lambda>_. I) I"
  unfolding bi_discard_def by (intro triple_bnd_inv triple_ret)

lemma run_bi_api_sends: "triple (sends_ok A) (run_bi_api ext a) (\<lambda>_. sends_ok A) (sends_ok A)"
proof (cases a)
qed (simp_all only: run_bi_api.simps bi_discard_triple bi_send_triple bi_send_no_callback_triple
    bi_break_send_triple sends_keeps sbq.keeps_bi_interface sbq.keeps_bi_connect_conn)

lemma new_bi_sendq:
  "sq.keeps (new_tcp_dispatcher_biocp ext port cb :: (('w, 'z) bi_scheme, unit) prog)"
proof -
  have "sendq s (s\<lparr>b_listening := d, b_accepted := a, b_stop_sem := n, b_iocp := m, b_wsa := w,
      b_messages := q, b_conns := l3, b_recvs := l4, b_sends := l5, b_externals := h\<rparr>)"
    for s :: "('w, 'z) bi_scheme" and d a n m w q l3 l4 l5 h
    by (rule sendq_same) simp_all
  then show ?thesis
    unfolding new_tcp_dispatcher_biocp_def
    by (intro sq.keeps_basic sq.keeps_modify sbq.keeps_bi_start_listening sq.keeps_wsa_reactor
        sq.keeps_iocp_reactor) simp_all
qed

lemma empty_bi_sends: "sends_ok {} (empty_bi w)"
  by (simp add: sends_ok_def sends_safe_def sent_count_def empty_bi_def calls_def)

interpretation bi_sending: bi_invariant ext "sends_ok {} :: 'w bi \<Rightarrow> bool" sends_safe
  for ext :: "'w ext"
proof unfold_locales
  show "triple (sends_ok {} :: 'w bi \<Rightarrow> bool) (bi_iteration ext)
      (\<lambda>exit s. if exit then sends_safe s else sends_ok {} s) sends_safe"
    by (rule bi_sends_iteration)
  show "sends_safe (snd (run_bi_api ext a s))" if "sends_safe s" for s :: "'w bi" and a
    by (rule userq_sends [OF bi_userq_api that])
  show "sends_safe (snd (bi_listening_thread ext l s))" if "sends_safe s" for s :: "'w bi" and l
    by (rule userq_sends [OF bu.keeps_bi_listening that])
qed (auto intro: sends_ok_safe sends_keeps sbq.keeps_bi_listening
    tripleD [OF sends_weak [OF run_bi_api_sends]]
    tripleD [OF sends_weak [OF sends_keeps [OF new_bi_sendq]] empty_bi_sends])

end
