(* ===== verification/Biocp_Demo.thy ===== *)
theory Biocp_Demo
  imports Biocp_Sends Simulated
begin

section \<open>A simulated outside world, and concrete runs of the older Windows dispatcher\<close>

text \<open>
  \<open>sim_bi\<close> is a concrete outside world: sockets and events are numbered upwards from 7,
  \<open>WSAConnect\<close> does not block, asynchronous operations are pending, completions, the
  indices that waits answer and the network events of sockets come from scripts, and
  objects count their references.
\<close>

record bi_sim =
  next_handle :: fd
  completions :: "reply list"
  waits :: "int list"
  nets :: "(u32 \<times> int list) list"
  counts :: "(obj \<times> nat) list"

fun sim_bi :: "bi_sim ext" where
  "sim_bi (Os Socket) w = (plain_reply (next_handle w), w\<lparr>next_handle := next_handle w + 1\<rparr>)"
| "sim_bi (Win Create_event) w = (plain_reply (next_handle w), w\<lparr>next_handle := next_handle w + 1\<rparr>)"
| "sim_bi (Win Create_iocp) w = (plain_reply 3, w)"
| "sim_bi (Win (Iocp_associate d)) w = (plain_reply 1, w)"
| "sim_bi (Win (Wsa_connect d a)) w = ((plain_reply (-1))\<lparr>err := WSAEWOULDBLOCK\<rparr>, w)"
| "sim_bi (Win (Wsa_send d bs sr)) w = (pending_reply, w)"
| "sim_bi (Win (Wsa_recv d n rr)) w = (pending_reply, w)"
| "sim_bi (Win (Set_event h)) w = (plain_reply 1, w)"
| "sim_bi (Win (Reset_event h)) w = (plain_reply 1, w)"
| "sim_bi (Win (Iocp_get h)) w = (case completions w of [] \<Rightarrow> (woken, w)
     | r # rs \<Rightarrow> (r, w\<lparr>completions := rs\<rparr>))"
| "sim_bi (Win (Wait_events hs time)) w = (case waits w of [] \<Rightarrow> (plain_reply WAIT_TIMEOUT, w)
     | i # is \<Rightarrow> (plain_reply i, w\<lparr>waits := is\<rparr>))"
| "sim_bi (Win (Enum_events d h)) w = (case nets w of [] \<Rightarrow> (plain_reply 0, w)
     | (e, codes) # ns \<Rightarrow> ((plain_reply 0)\<lparr>r_net := e, r_net_errors := codes\<rparr>, w\<lparr>nets := ns\<rparr>))"
| "sim_bi (Addref x m) w = (plain_reply 0, w\<lparr>counts := (x, count_of x (counts w) + 1) # counts w\<rparr>)"
| "sim_bi (Release x m) w = (plain_reply (if count_of x (counts w) = 1 then 1 else 0),
     w\<lparr>counts := (x, count_of x (counts w) - 1) # counts w\<rparr>)"
| "sim_bi c w = (plain_reply 0, w)"

definition bi_sim_start :: "reply list \<Rightarrow> int list \<Rightarrow> (u32 \<times> int list) list \<Rightarrow> bi_sim" where
  "bi_sim_start rs is ns = \<lparr>next_handle = 7, completions = rs, waits = is, nets = ns, counts = []\<rparr>"

datatype bi_action = Bi_dispatch | Bi_listen | Bi_call bi_api

fun bi_play :: "'w ext \<Rightarrow> bi_action list \<Rightarrow> 'w bi_config \<Rightarrow> 'w bi_config" where
  "bi_play ext [] c = c"
| "bi_play ext (Bi_dispatch # acts) c = bi_play ext acts (bi_dispatcher_step ext c)"
| "bi_play ext (Bi_listen # acts) c = bi_play ext acts (bi_listener_step ext c)"
| "bi_play ext (Bi_call a # acts) c =
     bi_play ext acts (if bi_allowed a c then bi_api_step ext a c else c)"

lemma bi_play_reachable: "bi_reachable ext c \<Longrightarrow> bi_reachable ext (bi_play ext acts c)"
proof (induction ext acts c rule: bi_play.induct)
  case (2 ext acts c)
  then show ?case using bi_next [OF 2(2) bi_by_dispatcher] by simp
next
  case (3 ext acts c)
  then show ?case using bi_next [OF 3(2) bi_by_listener] by simp
next
  case (4 ext a acts c)
  then show ?case using bi_next [OF 4(2) bi_by_api] by simp
qed simp

definition bi_boot :: "reply list \<Rightarrow> int list \<Rightarrow> (u32 \<times> int list) list \<Rightarrow> bi_sim bi_config" where
  "bi_boot rs is ns = (B_running, Li_collect,
     snd (new_tcp_dispatcher_biocp sim_bi 80 (Some 9) (empty_bi (bi_sim_start rs is ns))))"

subsection \<open>The runs computed\<close>

lemmas run_iocp = new_iocp_reactor_def delete_iocp_reactor_def iocp_add_thread_def iocp_add_conn_def
  iocp_stop_def iocp_get_transfer_def failed_transfer_def done_transfer_def
  ERROR_NETNAME_DELETED_def ERROR_CONNECTION_ABORTED_def wsa_defs

lemmas run_wsa = new_wsa_reactor_def delete_wsa_reactor_def wsa_add_event_def wsa_del_event_def
  wsa_stop_def wsa_collect_def wsa_poll_group_def wsa_wait_all_def wsa_handle_def wsa_signalled_def
  wsa_report_def what_happened_def net_error_def WAIT_FAILED_def FD_OOB_def FD_QOS_def
  FD_GROUP_QOS_def FD_ROUTING_INTERFACE_CHANGE_def FD_ADDRESS_LIST_CHANGE_def

lemmas run_bi_interface = new_tcp_dispatcher_biocp_def bi_start_listening_def bi_dtor_request_def
  bi_dtor_finish_def bi_make_conn_def bi_wsa_connect_def bi_connect_conn_def bi_connect_def
  bi_close_conn_def bi_close_conn_wait_def bi_close_conn_wait_return_def bi_release_def
  bi_addref_def bi_release_send_def bi_send_def bi_send_no_callback_def bi_stop_accepting_def
  bi_stop_accepting_return_def bi_get_ip_port_def bi_break_send_def bi_break_send_return_def
  bi_set_bandwidth_def bi_discard_def bi_post_def bi_post_ptr_def bi_messages_def with_iocp_def
  with_wsa_def set_wsa_def WSAETIMEDOUT_def WSAEWOULDBLOCK_def push_ptr_def push_code_def
  message_codes

lemmas run_bi_thread = bi_iteration_def bi_iteration_body_def bi_handle_wakeup_def
  bi_handle_message_def bi_handle_completion_def bi_with_ptr_def bi_handle_external_def
  bi_close_event_def bi_connect_event_def bi_on_conn_def bi_call_false_cb_def bi_send_complete_def
  bi_recv_complete_def bi_next_receive_def bi_deliver_def bi_send_request_def
  bi_connection_established_def bi_accept_connection_def bi_call_accepted_def
  bi_set_connected_def bi_activate_receiving_def bi_close_connection_def bi_close_socket_def
  bi_forget_callbacks_def bi_unwatch_def bi_create_connection_def bi_free_completed_conn_def
  bi_free_completed_recv_def bi_free_completed_send_def bi_free_not_completed_objects_def
  bi_not_done_def bi_listening_thread_def bi_listened_def

lemmas run_bi_data = Let_def empty_bi_def bi_sim_start_def run_sim_data

lemmas bi_simps = run_basic run_objects run_iocp run_wsa run_bi_interface run_bi_thread run_bi_data

lemma bi_boot_ok:
  "fst (new_tcp_dispatcher_biocp sim_bi 80 (Some 9) (empty_bi (bi_sim_start rs is ns))) = Inr ()"
  by (simp add: bi_simps cong: run_cong)

lemma bi_boot_reachable: "bi_reachable sim_bi (bi_boot rs is ns)"
proof (rule bi_start)
  have "new_tcp_dispatcher_biocp sim_bi 80 (Some 9) (empty_bi (bi_sim_start rs is ns)) =
      (Inr (), snd (new_tcp_dispatcher_biocp sim_bi 80 (Some 9) (empty_bi (bi_sim_start rs is ns))))"
    using bi_boot_ok by (simp add: prod_eq_iff)
  then show "bi_initial sim_bi (bi_boot rs is ns)" unfolding bi_initial_def bi_boot_def by blast
qed

text \<open>Connect, established, a request of two bytes, three bytes received, the stream ends.\<close>

definition bi_demo :: "bi_sim bi_config" where
  "bi_demo = bi_play sim_bi
     [Bi_call (B_connect 0 80 win_callbacks), Bi_dispatch,
      Bi_listen, Bi_listen, Bi_listen, Bi_listen, Bi_dispatch,
      Bi_call (B_send 1 [5, 6] (Some 14)), Bi_dispatch, Bi_dispatch, Bi_dispatch, Bi_dispatch]
     (bi_boot [woken, woken, woken, completed (SendObj 4) [5, 6], completed (RecvObj 3) [1, 2, 3],
         completed (RecvObj 3) []]
       [3] [(FD_CONNECT, [])])"

lemma bi_demo_reachable: "bi_reachable sim_bi bi_demo"
  unfolding bi_demo_def by (intro bi_play_reachable bi_boot_reachable)

lemma bi_demo_run:
  "filter (\<lambda>k. conn_call k \<or> sent_to 4 k) (calls (snd (snd bi_demo))) =
     [User (Cb_connected 1 13 True), User (Cb_sent 4 14 True), User (Cb_read 1 11 [1, 2, 3]),
      User (Cb_closed 1 12)]"
  by (simp add: bi_demo_def bi_boot_def calls_def bi_simps cong: run_cong)

end
