(* ===== verification/Biocp_Properties.thy ===== *)
theory Biocp_Properties
  imports Biocp_Demo Contract
begin

section \<open>Properties of the older Windows dispatcher in every run\<close>

interpretation bi_contract: callback_contract
  "\<lambda>cs. \<exists>th l s. bi_reachable ext (th, l, s) \<and> cs = calls s" for ext :: "'w ext"
proof unfold_locales
  fix cs p assume "\<exists>th l s. bi_reachable ext (th, l, s) \<and> cs = calls s"
  then obtain th l s where r: "bi_reachable ext (th, l, s)" "cs = calls s" by blast
  show "phase_of p cs \<noteq> Broken"
    using bi_protocol.always [OF r(1)] r(2) by (simp add: safe_def)
  show "length (filter (sent_to p) cs) \<le> 1"
    using bi_sending.always [OF r(1)] r(2) by (simp add: sends_safe_def sent_count_def)
qed

lemma bi_history:
  "bi_reachable ext (th, l, s) \<Longrightarrow> calls s = cs \<Longrightarrow> \<exists>th l s. bi_reachable ext (th, l, s) \<and> cs = calls s"
  by blast


lemma bi_demo_reach: "bi_reachable sim_bi (fst bi_demo, fst (snd bi_demo), snd (snd bi_demo))"
  using bi_demo_reachable by simp


text \<open>
  In every reachable state of the older Windows dispatcher the callback of a send request
  has been called at most once.
\<close>

theorem bi_sent_callback_once:
  assumes "bi_reachable ext (th, l, s)"
  shows "length (filter (sent_to sr) (calls s)) \<le> 1"
  by (rule bi_contract.sent_once [OF bi_history [OF assms refl]])

theorem bi_sent_callback_once_witness:
  "length (filter (sent_to 4) (calls (snd (snd bi_demo)))) = 1
    \<and> length (filter (sent_to 4) (calls (snd (snd bi_demo)))) \<le> 1"
proof -
  have "filter (sent_to 4) (calls (snd (snd bi_demo))) = [User (Cb_sent 4 14 True)]"
    using filter_via [of "sent_to 4" "\<lambda>k. conn_call k \<or> sent_to 4 k" "calls (snd (snd bi_demo))"]
    unfolding bi_demo_run by simp
  with bi_sent_callback_once [OF bi_demo_reach, of 4] show ?thesis by simp
qed

end
