(* ===== verification/Port_Lifecycle.thy ===== *)
theory Port_Lifecycle
  imports Win_Properties Biocp_Properties Lifecycle
begin

section \<open>The Windows dispatchers implement the life of a connection\<close>

text \<open>
  As long as its thread runs, all calls that a Windows dispatcher ever made for a connection
  are a path of the abstract machine of \<open>Lifecycle\<close>, from its first state to the one that the
  connection object has: the specification that \<open>Tcp_Lifecycle\<close> shows for Linux.
\<close>

theorem win_calls_follow_life:
  assumes "win_reachable ext ub (W_running, s)" and "conn_heap s p = Some c"
  shows "life_path p Unborn (filter (callback_of p) (calls s)) (conn_life c)"
proof (rule proto_born [OF _ assms(2)])
  show "proto s" using win_protocol.reachable_holds [OF assms(1)] by (simp add: win_protocol.holds_def)
qed

theorem bi_calls_follow_life:
  assumes "bi_reachable ext (B_running, l, s)" and "conn_heap s p = Some c"
  shows "life_path p Unborn (filter (callback_of p) (calls s)) (conn_life c)"
proof (rule proto_born [OF _ assms(2)])
  show "proto s" using bi_protocol.reachable_holds [OF assms(1)] by (simp add: bi_protocol.holds_def)
qed

text \<open>
  So the life of a connection that is open has been: made known by \<open>connected\<close> or the
  accepted callback, and since then nothing but \<open>read\<close>; of one that was never reported,
  nothing but \<open>read\<close>.
\<close>

lemma unborn_path:
  "life_path p Unborn ks l \<Longrightarrow> \<exists>rs ks'. ks = rs @ ks' \<and> (\<forall>r \<in> set rs. \<exists>cb d. r = User (Cb_read p cb d))
     \<and> (ks' = [] \<and> l = Unborn \<or> (\<exists>k m ks''. ks' = k # ks'' \<and> life_step p Unborn k m \<and> m \<noteq> Unborn \<and> life_path p m ks'' l))"
proof (induction ks)
  case Nil
  then show ?case by auto
next
  case (Cons k ks)
  then obtain m where m: "life_step p Unborn k m" "life_path p m ks l" by auto
  show ?case
  proof (cases "m = Unborn")
    case True
    with m(1) have "\<exists>cb d. k = User (Cb_read p cb d)" by (auto elim: life_step.cases)
    moreover obtain rs ks' where "ks = rs @ ks' \<and> (\<forall>r \<in> set rs. \<exists>cb d. r = User (Cb_read p cb d))
        \<and> (ks' = [] \<and> l = Unborn \<or> (\<exists>k m ks''. ks' = k # ks'' \<and> life_step p Unborn k m \<and> m \<noteq> Unborn \<and> life_path p m ks'' l))"
      using Cons.IH m(2) True by blast
    ultimately show ?thesis by (intro exI [of _ "k # rs"] exI [of _ ks']) auto
  next
    case False
    with m show ?thesis by (intro exI [of _ "[]"] exI [of _ "k # ks"]) auto
  qed
qed

lemma open_connection_calls:
  assumes "life_path p Unborn ks Alive"
  obtains rs k rs' where "ks = rs @ k # rs'" and "\<forall>r \<in> set (rs @ rs'). \<exists>cb d. r = User (Cb_read p cb d)"
    and "life_step p Unborn k Alive"
proof -
  from unborn_path [OF assms] obtain rs k m ks'' where u: "ks = rs @ k # ks''"
    "\<forall>r \<in> set rs. \<exists>cb d. r = User (Cb_read p cb d)" "life_step p Unborn k m" "m \<noteq> Unborn" "life_path p m ks'' Alive"
    by auto
  have "m = Alive" using u(4,5) dead_path [of p ks'' Alive] by (cases m) auto
  with alive_path [of p ks'' Alive] u have "\<forall>r \<in> set ks''. \<exists>cb d. r = User (Cb_read p cb d)" by auto
  with u \<open>m = Alive\<close> show ?thesis by (intro that [of rs k ks'']) auto
qed

text \<open>
  What a user of an open connection of a Windows dispatcher has seen: one call that made the
  connection known, and otherwise only \<open>read\<close>.
\<close>

theorem win_open_connection:
  assumes "win_reachable ext ub (W_running, s)" and "conn_heap s p = Some c" and "conn_st c = Cs_connected"
  shows "\<exists>rs k rs'. filter (callback_of p) (calls s) = rs @ k # rs' \<and> life_step p Unborn k Alive
    \<and> (\<forall>r \<in> set (rs @ rs'). \<exists>cb d. r = User (Cb_read p cb d))"
proof -
  have "life_path p Unborn (filter (callback_of p) (calls s)) Alive"
    using win_calls_follow_life [OF assms(1,2)] assms(3) by (simp add: conn_life_def)
  then show ?thesis by (rule open_connection_calls) blast
qed

end
