(* ===== verification/Fbsd_Reactor.thy ===== *)
theory Fbsd_Reactor
  imports Pipes Std_Map
begin

section \<open>The kqueue reactor (fbsd_reactor.cpp, multi_reactor.h)\<close>

text \<open>
  The reactor of FreeBSD waits for one batch of events of a kqueue.  Unlike the epoll
  reactor it keeps what it reports in a member, the last descriptor it saw; 0 stands for
  a wake-up without a socket.  The members are fields of the state, because an exception
  keeps what was written to them.  The log is not modelled; a handler that writes to it
  and throws \<open>std::exception\<close> again is \<open>logged\<close>.
\<close>

subsection \<open>State\<close>

definition EVFILT_READ :: int where "EVFILT_READ = -1"
definition EV_ADD :: u16 where "EV_ADD = 1"
definition EV_DELETE :: u16 where "EV_DELETE = 2"
definition EV_ENABLE :: u16 where "EV_ENABLE = 4"

lemmas ev_defs = EVFILT_READ_def EV_ADD_def EV_DELETE_def EV_ENABLE_def

text \<open>\<open>isocket\<close> is \<^const>\<open>None\<close> until something was reported: the constructor does not set it.\<close>

record 'w fbsd = "'w outside" +
  kqfd :: fd
  kq_pipe_in :: fd
  kq_pipe_out :: fd
  isocket :: "fd option"
  desc_set :: "fd std_set"

definition ev_set :: "fd \<Rightarrow> int \<Rightarrow> u16 \<Rightarrow> kevent" where
  "ev_set d flt flags = \<lparr>ident = d, kfilter = flt, kflags = flags, kfflags = 0\<rparr>"

text \<open>\<open>catch( std::exception& ex ) { ...; throw std::exception(); }\<close>\<close>

definition is_std_exception :: "exn \<Rightarrow> bool" where
  "is_std_exception e \<longleftrightarrow> e = Std_exception \<or> is_lib_exception e"

definition logged :: "('s, 'a) prog \<Rightarrow> ('s, 'a) prog" where
  "logged m = (\<lambda>s. case m s of
       (Inl e, t) \<Rightarrow> (Inl (if is_std_exception e then Std_exception else e), t)
     | (Inr x, t) \<Rightarrow> (Inr x, t))"

lemma wp_logged [wp_simps]:
  "wp (logged m) Q E s = wp m Q (\<lambda>e. E (if is_std_exception e then Std_exception else e)) s"
  by (auto simp: wp_def logged_def split: prod.splits sum.splits)

text \<open>A call that answers \<open>-1\<close> when it failed, which the reactors turn into an exception.\<close>

definition call_or_throw :: "'w ext \<Rightarrow> ext_call \<Rightarrow> (('w, 'z) outside_scheme, reply) prog" where
  "call_or_throw ext c = bnd (call ext c) (\<lambda>r. if rv r = -1 then throw Std_exception else ret r)"

lemma wp_call_or_throw [wp_simps]:
  "wp (call_or_throw ext c) Q E s =
     wp (call ext c) (\<lambda>r t. if rv r = -1 then E Std_exception t else Q r t) E s"
  by (simp add: call_or_throw_def wp_simps)

subsection \<open>Construction and registration\<close>

text \<open>When \<open>pipe\<close> fails the two descriptors have the values they happened to have.\<close>

definition kq_open_pipe :: "'w ext \<Rightarrow> (('w, 'z) fbsd_scheme, unit) prog" where
  "kq_open_pipe ext = bnd (call ext (Os Pipe)) (\<lambda>p.
     andthen (modify (\<lambda>s. s\<lparr>kq_pipe_in := fst (r_fds p), kq_pipe_out := snd (r_fds p)\<rparr>))
       (whenever (rv p = 0)
         (andthen (invoke ext (Os (Set_nonblock (fst (r_fds p)))))
                  (invoke ext (Os (Set_nonblock (snd (r_fds p))))))))"

definition kq_create :: "'w ext \<Rightarrow> (('w, 'z) fbsd_scheme, unit) prog" where
  "kq_create ext = bnd (call ext (Bsd Kqueue)) (\<lambda>r.
     andthen (modify (\<lambda>s. s\<lparr>kqfd := rv r\<rparr>))
       (if rv r = -1 then throw Std_exception else ret ()))"

text \<open>One change of the kqueue: \<open>EV_SET(&event,..); kevent( kqfd, &event, 1, 0,0,0)\<close>.\<close>

definition kq_change :: "'w ext \<Rightarrow> kevent \<Rightarrow> (('w, 'z) fbsd_scheme, unit) prog" where
  "kq_change ext ev = bnd (gets kqfd) (\<lambda>q.
     bnd (call_or_throw ext (Bsd (Kevent_change q ev))) (\<lambda>_. ret ()))"

definition new_fbsd_reactor :: "'w ext \<Rightarrow> (('w, 'z) fbsd_scheme, unit) prog" where
  "new_fbsd_reactor ext = andthen (modify (\<lambda>s. s\<lparr>isocket := None, desc_set := []\<rparr>)) (logged (block
     [kq_open_pipe ext,
      kq_create ext,
      bnd (gets kq_pipe_in) (\<lambda>pin. kq_change ext (ev_set pin EVFILT_READ EV_ADD))]))"

definition delete_fbsd_reactor :: "'w ext \<Rightarrow> (('w, 'z) fbsd_scheme, unit) prog" where
  "delete_fbsd_reactor ext = bnd (gets kq_pipe_in) (\<lambda>pin. bnd (gets kq_pipe_out) (\<lambda>pout.
     bnd (gets kqfd) (\<lambda>q. block
     [whenever (pin \<noteq> -1) (invoke ext (Os (Close pin))),
      whenever (pout \<noteq> -1) (invoke ext (Os (Close pout))),
      modify (\<lambda>s. s\<lparr>desc_set := []\<rparr>),
      invoke ext (Os (Close q))])))"

definition kq_add_event :: "'w ext \<Rightarrow> fd \<Rightarrow> (('w, 'z) fbsd_scheme, unit) prog" where
  "kq_add_event ext socket = logged (block
     [kq_change ext (ev_set socket EVFILT_READ (or EV_ADD EV_ENABLE)),
      modify (\<lambda>s. s\<lparr>desc_set := set_insert socket (desc_set s)\<rparr>)])"

subsection \<open>Waiting\<close>

text \<open>
  The body of the loop over the events: a wake-up is read from the pipe, a socket is taken
  out of the kqueue, where error 2 (\<open>ENOENT\<close>) is not an error.
\<close>

definition kq_report :: "fd \<Rightarrow> (('w, 'z) fbsd_scheme, unit) prog" where
  "kq_report socket = modify (\<lambda>s. s\<lparr>isocket := Some socket\<rparr>)"

definition kq_read_wakeup :: "'w ext \<Rightarrow> fd \<Rightarrow> (('w, 'z) fbsd_scheme, unit) prog" where
  "kq_read_wakeup ext d = bnd (call ext (Os (Read d))) (\<lambda>r.
     kq_report (if rv r \<le> 0 then 0 else int_of_bytes (take (nat (rv r)) (r_bytes r))))"

definition kq_take_socket :: "'w ext \<Rightarrow> fd \<Rightarrow> (('w, 'z) fbsd_scheme, unit) prog" where
  "kq_take_socket ext d = bnd (gets kqfd) (\<lambda>q.
     bnd (call ext (Bsd (Kevent_change q (ev_set d EVFILT_READ EV_DELETE)))) (\<lambda>r.
       if rv r = -1 \<and> err r \<noteq> 2 then throw Std_exception else kq_report d))"

definition kq_handle :: "'w ext \<Rightarrow> kevent \<Rightarrow> (('w, 'z) fbsd_scheme, unit) prog" where
  "kq_handle ext ev = bnd (gets kq_pipe_in) (\<lambda>pin.
     if ident ev = pin then kq_read_wakeup ext (ident ev) else kq_take_socket ext (ident ev))"

definition kq_get_interrupt :: "'w ext \<Rightarrow> (('w, 'z) fbsd_scheme, bool) prog" where
  "kq_get_interrupt ext = logged (bnd (gets kqfd) (\<lambda>q.
     bnd (call_or_throw ext (Bsd (Kevent_wait q 128))) (\<lambda>r.
       andthen (for_each (kq_handle ext) (take (nat (rv r)) (r_kevents r)))
         (ret (rv r \<noteq> 0)))))"

definition kq_interrupt :: "'w ext \<Rightarrow> fd \<Rightarrow> (('w, 'z) fbsd_scheme, unit) prog" where
  "kq_interrupt ext socket = bnd (gets kq_pipe_out) (\<lambda>pout. invoke ext (Os (Write pout socket)))"

text \<open>
  What the reactor's user asks after a wait, \<^const>\<open>None\<close> while \<open>isocket\<close> has no value;
  \<open>what_happened\<close> does nothing.
\<close>

definition kq_who :: "('w, 'z) fbsd_scheme \<Rightarrow> fd option" where
  "kq_who s = isocket s"

definition kq_internal_interrupt :: "('w, 'z) fbsd_scheme \<Rightarrow> bool option" where
  "kq_internal_interrupt s = map_option (\<lambda>d. d = 0) (isocket s)"

definition kq_which :: "('w, 'z) fbsd_scheme \<Rightarrow> int" where
  "kq_which s = 0"

end
