(* ===== verification/Select_Reactor.thy ===== *)
theory Select_Reactor
  imports Fbsd_Reactor Connection
begin

section \<open>The select reactor (multi_reactor.cpp, multi_reactor.h)\<close>

text \<open>
  The reactor for systems with neither epoll nor kqueue: a pair of connected sockets
  stands for the pipe, and each wait rebuilds the sets of \<open>select\<close>.  The code names two
  members that its class does not declare, \<open>ready_socket\<close> and \<open>desc_set\<close>; they are kept
  here beside the declared ones, as an \<open>int\<close> and a set of descriptors, the types that the
  code's uses of them require.  \<open>ready_socket\<close> has the value of its four bytes, which a
  short read changes in part.
\<close>

subsection \<open>State\<close>

record 'w selector = "'w outside" +
  sel_pipe_in :: fd
  sel_pipe_out :: fd
  sel_isocket :: "fd option"
  r_desc_set :: "fd std_set"
  w_desc_set :: "fd std_set"
  ready_socket :: fd
  undeclared_desc_set :: "fd std_set"

definition INADDR_LOOPBACK_net :: u32 where "INADDR_LOOPBACK_net = 0x0100007F"

definition loopback :: sockaddr where
  "loopback = \<lparr>sin_addr = INADDR_LOOPBACK_net, sin_port = 0\<rparr>"

subsection \<open>Construction and registration\<close>

text \<open>
  \<open>dummy_listener\<close> is checked against 0, which no failing \<open>socket\<close> answers.  The last
  statement closes the listener if \<open>connect\<close> had failed, but that has been thrown before.
\<close>

definition select_open_pair :: "'w ext \<Rightarrow> fd \<Rightarrow> (('w, 'z) selector_scheme, reply) prog" where
  "select_open_pair ext listener =
     bnd (call_or_throw ext (Os (Bind listener loopback))) (\<lambda>_.
     bnd (call_or_throw ext (Sel (Getsockname listener))) (\<lambda>name.
     bnd (call_or_throw ext (Os (Listen listener))) (\<lambda>_.
     bnd (gets sel_pipe_out) (\<lambda>pout.
     bnd (call_or_throw ext (Os (Connect pout (r_addr name)))) (\<lambda>res.
     bnd (call ext (Os (Accept listener))) (\<lambda>a.
     andthen (modify (\<lambda>s. s\<lparr>sel_pipe_in := rv a\<rparr>))
       (if rv a = -1 then throw Std_exception else ret res)))))))"

definition new_socket_reactor :: "'w ext \<Rightarrow> (('w, 'z) selector_scheme, unit) prog" where
  "new_socket_reactor ext = andthen
     (modify (\<lambda>s. s\<lparr>sel_isocket := None, r_desc_set := [], w_desc_set := []\<rparr>)) (logged (
     andthen (modify (\<lambda>s. s\<lparr>sel_pipe_in := -1, sel_pipe_out := -1\<rparr>))
     (bnd (call ext (Os Socket)) (\<lambda>l. if rv l = 0 then throw Std_exception else
      bnd (call ext (Os Socket)) (\<lambda>p.
      andthen (modify (\<lambda>s. s\<lparr>sel_pipe_out := rv p\<rparr>))
      (if rv l = 0 then throw Std_exception else
       bnd (select_open_pair ext (rv l)) (\<lambda>res.
       bnd (gets sel_pipe_in) (\<lambda>pin. block
         [invoke ext (Os (Set_nonblock pin)),
          whenever (rv res = -1) (invoke ext (Os (Close (rv l))))]))))))))"

definition delete_socket_reactor :: "'w ext \<Rightarrow> (('w, 'z) selector_scheme, unit) prog" where
  "delete_socket_reactor ext = bnd (gets sel_pipe_in) (\<lambda>pin. bnd (gets sel_pipe_out) (\<lambda>pout. block
     [whenever (pin \<noteq> -1) (invoke ext (Os (Close pin))),
      whenever (pout \<noteq> -1) (invoke ext (Os (Close pout))),
      modify (\<lambda>s. s\<lparr>r_desc_set := [], w_desc_set := []\<rparr>)]))"

definition select_add_event :: "fd \<Rightarrow> u32 \<Rightarrow> (('w, 'z) selector_scheme, unit) prog" where
  "select_add_event socket type =
     (if and type FD_ACCEPT \<noteq> 0
      then modify (\<lambda>s. s\<lparr>r_desc_set := set_insert socket (r_desc_set s)\<rparr>)
      else modify (\<lambda>s. s\<lparr>w_desc_set := set_insert socket (w_desc_set s)\<rparr>))"

subsection \<open>Waiting\<close>

text \<open>
  \<open>FD_SET\<close> and \<open>FD_ISSET\<close> index an array of \<open>FD_SETSIZE\<close> bits without a check; a set is the
  list of its descriptors.
\<close>

definition FD_SETSIZE :: int where "FD_SETSIZE = 1024"

definition fd_set_add :: "fd \<Rightarrow> fd list \<Rightarrow> ('s, fd list) prog" where
  "fd_set_add d ds = (if d < 0 \<or> FD_SETSIZE \<le> d then throw Out_of_bounds else ret (List.insert d ds))"

definition fd_isset :: "fd \<Rightarrow> fd list \<Rightarrow> ('s, bool) prog" where
  "fd_isset d ds = (if d < 0 \<or> FD_SETSIZE \<le> d then throw Out_of_bounds else ret (d \<in> set ds))"

text \<open>A loop over registered descriptors: into their own set, into the set for errors.\<close>

fun fd_set_all :: "fd list \<Rightarrow> fd list \<Rightarrow> fd list \<Rightarrow> int \<Rightarrow> ('s, fd list \<times> fd list \<times> int) prog" where
  "fd_set_all [] own exc mx = ret (own, exc, mx)"
| "fd_set_all (d # ds) own exc mx = bnd (fd_set_add d own) (\<lambda>own'.
     bnd (fd_set_add d exc) (\<lambda>exc'. fd_set_all ds own' exc' (if d > mx then d else mx)))"

text \<open>A read into \<open>ready_socket\<close> replaces its first bytes.\<close>

definition overwrite_int :: "int \<Rightarrow> u8 list \<Rightarrow> int" where
  "overwrite_int old bs = int_of_bytes (take 4 bs @ drop (length bs) (int_bytes old))"

definition select_read_wakeup :: "'w ext \<Rightarrow> fd \<Rightarrow> (('w, 'z) selector_scheme, unit) prog" where
  "select_read_wakeup ext d = bnd (call ext (Os (Read d))) (\<lambda>r.
     modify (\<lambda>s. s\<lparr>ready_socket := overwrite_int (ready_socket s)
       (if rv r \<le> 0 then [] else take (nat (rv r)) (r_bytes r))\<rparr>))"

text \<open>
  The loop over \<open>desc_set\<close>: a readable descriptor is reported, closed and erased; then the
  loop increments the iterator of the erased element.
\<close>

fun select_scan :: "'w ext \<Rightarrow> fd list \<Rightarrow> fd list \<Rightarrow> (('w, 'z) selector_scheme, unit) prog" where
  "select_scan ext rset [] = ret ()"
| "select_scan ext rset (d # ds) = bnd (fd_isset d rset) (\<lambda>ready.
     if ready then block
       [modify (\<lambda>s. s\<lparr>ready_socket := d\<rparr>),
        invoke ext (Os (Close d)),
        modify (\<lambda>s. s\<lparr>undeclared_desc_set := set_erase d (undeclared_desc_set s)\<rparr>),
        throw Bad_iterator]
     else select_scan ext rset ds)"

definition select_sets :: "fd \<Rightarrow> fd list \<Rightarrow> fd list \<Rightarrow> ('s, fd list \<times> fd list \<times> fd list \<times> int) prog" where
  "select_sets pin rs ws = bnd (fd_set_add pin []) (\<lambda>rset.
     bnd (fd_set_all rs rset [] pin) (\<lambda>(rset', eset, mx).
     bnd (fd_set_all ws [] eset mx) (\<lambda>(wset, eset', mx').
     ret (rset', wset, eset', mx'))))"

definition select_get_interrupt :: "'w ext \<Rightarrow> (('w, 'z) selector_scheme, bool) prog" where
  "select_get_interrupt ext = logged (
     bnd (gets sel_pipe_in) (\<lambda>pin. bnd (gets r_desc_set) (\<lambda>rs. bnd (gets w_desc_set) (\<lambda>ws.
     bnd (select_sets pin (map_keys rs) (map_keys ws)) (\<lambda>(rset, wset, eset, mx).
     bnd (call_or_throw ext (Sel (Select (mx + 1) rset wset eset))) (\<lambda>r.
     bnd (fd_isset pin (r_readable r)) (\<lambda>woken.
     andthen (whenever woken (select_read_wakeup ext pin))
     (bnd (gets undeclared_desc_set) (\<lambda>ds.
     andthen (select_scan ext (r_readable r) (map_keys ds))
       (ret (rv r \<noteq> 0)))))))))))"

text \<open>A wake-up sends one byte, a zero, whatever the socket is.\<close>

definition select_interrupt :: "'w ext \<Rightarrow> fd \<Rightarrow> (('w, 'z) selector_scheme, unit) prog" where
  "select_interrupt ext socket = bnd (gets sel_pipe_out) (\<lambda>pout. invoke ext (Os (Send pout [0])))"

definition select_who :: "('w, 'z) selector_scheme \<Rightarrow> fd option" where
  "select_who s = sel_isocket s"

definition select_internal_interrupt :: "('w, 'z) selector_scheme \<Rightarrow> bool option" where
  "select_internal_interrupt s = map_option (\<lambda>d. d = 0) (sel_isocket s)"

definition select_which :: "('w, 'z) selector_scheme \<Rightarrow> int" where
  "select_which s = 0"

end
