(* ===== verification/Wakeup_Props.thy ===== *)
theory Wakeup_Props
  imports Linux_Reactor Select_Reactor
begin

section \<open>The wake-ups of the reactors, and what the kqueue and select reactors lose\<close>

text \<open>
  The contract \<open>wakeups\<close> of \<open>Pipes\<close> interpreted on the epoll and on the kqueue reactor: a
  wake-up is never lost, and they arrive in order.  The select reactor does not keep the
  contract.  Then the batches of the kqueue reactor, the sets of the select reactor, and
  the descriptor that its constructor never closes.
\<close>

subsection \<open>The epoll reactor\<close>

text \<open>
  What the theorems assume of the outside world: the pipe is a pipe, and a wait reports
  the pipe, which is registered level-triggered, while there is something in it.
\<close>

definition epoll_reports_pipe :: "'w ext \<Rightarrow> linux_reactor \<Rightarrow> ('w \<Rightarrow> u8 list) \<Rightarrow> bool" where
  "epoll_reports_pipe ext R buf \<longleftrightarrow> (\<forall>w. buf w \<noteq> [] \<longrightarrow>
     rv (fst (ext (Epoll (Epoll_wait (epfd R) 128)) w)) = 1 \<and>
     map ee_data (r_events (fst (ext (Epoll (Epoll_wait (epfd R) 128)) w))) = [data_of_fd (pipe_in R)] \<and>
     buf (snd (ext (Epoll (Epoll_wait (epfd R) 128)) w)) = buf w)"

definition linux_holds :: "'w ext \<Rightarrow> linux_reactor \<Rightarrow> nat \<Rightarrow> ('w \<Rightarrow> u8 list) \<Rightarrow> int list \<Rightarrow>
    ('w, 'z) base_scheme \<Rightarrow> bool" where
  "linux_holds ext R self buf ns s \<longleftrightarrow> is_pipe ext (pipe_in R) (pipe_out R) buf \<and>
     epoll_reports_pipe ext R buf \<and> is_int32 (pipe_in R) \<and> self \<notin> set (threads R) \<and>
     pipe_holds buf ns (world s)"

definition wakeup_report :: "fd \<Rightarrow> bool \<times> interrupt" where
  "wakeup_report n = (True, [(n, new_interrupt_info)])"

lemma u32_through_u64: "ucast (ucast (x :: u32) :: u64) = x"
  by (rule bit_word_eqI) (simp add: bit_simps)

lemma data_fd_of_fd: "is_int32 d \<Longrightarrow> data_fd (data_of_fd d) = d"
  by (simp add: data_fd_def data_of_fd_def u32_through_u64 sint_of_int32)

lemma decode_wakeup:
  assumes "is_pipe ext (pipe_in R) (pipe_out R) buf" and "pipe_holds buf (n # ns) (world s)"
    and "ee_data ev = data_of_fd (pipe_in R)" and "is_int32 (pipe_in R)"
  shows "wp (decode_event ext R ev) (\<lambda>r t. r = (n, new_interrupt_info) \<and> pipe_holds buf ns (world t))
     (\<lambda>_ _. False) s"
  using pipe_holds_read [OF assms(1,2)] assms(3,4)
  by (auto simp: decode_event_def data_fd_of_fd new_interrupt_info_def wp_simps)

interpretation epoll: wakeups "reactor_stop ext R self" "get_interrupt ext R (Suc k) []"
    wakeup_report "linux_holds ext R self buf"
  for ext :: "'w ext" and R self k and buf :: "'w \<Rightarrow> u8 list"
proof
  fix ns n and s :: "('w, 'z) base_scheme"
  assume "linux_holds ext R self buf ns s" and "is_int32 n"
  then show "wp (reactor_stop ext R self n) (\<lambda>_. linux_holds ext R self buf (ns @ [n])) (\<lambda>_ _. False) s"
    by (auto simp: reactor_stop_def wp_simps linux_holds_def intro: pipe_holds_write)
next
  fix n ns and s :: "('w, 'z) base_scheme"
  assume h: "linux_holds ext R self buf (n # ns) s"
  let ?w = "Epoll (Epoll_wait (epfd R) 128)"
  from h have p: "is_pipe ext (pipe_in R) (pipe_out R) buf" "is_int32 (pipe_in R)"
    "pipe_holds buf (n # ns) (world s)" by (auto simp: linux_holds_def)
  have w: "rv (fst (ext ?w (world s))) = 1"
      "map ee_data (r_events (fst (ext ?w (world s)))) = [data_of_fd (pipe_in R)]"
      "buf (snd (ext ?w (world s))) = buf (world s)"
    using h pipe_holds_nonempty [OF p(3)] by (auto simp: linux_holds_def epoll_reports_pipe_def)
  then obtain ev where ev: "r_events (fst (ext ?w (world s))) = [ev]"
    "ee_data ev = data_of_fd (pipe_in R)" by auto
  let ?t = "s\<lparr>world := snd (ext ?w (world s)), trace := trace s @ [(?w, fst (ext ?w (world s)))]\<rparr>"
  have "pipe_holds buf (n # ns) (world ?t)" using p(3) w(3) by (simp add: pipe_holds_def)
  from decode_wakeup [OF p(1) this ev(2) p(2)]
  have "wp (decode_event ext R ev) (\<lambda>r t. (True, [r]) = wakeup_report n \<and>
      linux_holds ext R self buf ns t) (\<lambda>_ _. False) ?t"
    by (rule wp_mono) (use h in \<open>auto simp: wakeup_report_def linux_holds_def\<close>)
  then show "wp (get_interrupt ext R (Suc k) []) (\<lambda>r t. r = wakeup_report n \<and>
      linux_holds ext R self buf ns t) (\<lambda>_ _. False) s"
    using w(1) ev(1)
    by (simp add: get_interrupt_def wp_bnd_eta wp_ret_eta wp_bnd wp_call case_prod_beta)
qed

subsection \<open>The kqueue reactor\<close>

definition kqueue_reports_pipe :: "'w ext \<Rightarrow> fd \<Rightarrow> fd \<Rightarrow> ('w \<Rightarrow> u8 list) \<Rightarrow> bool" where
  "kqueue_reports_pipe ext q pin buf \<longleftrightarrow> (\<forall>w. buf w \<noteq> [] \<longrightarrow>
     rv (fst (ext (Bsd (Kevent_wait q 128)) w)) = 1 \<and>
     map ident (r_kevents (fst (ext (Bsd (Kevent_wait q 128)) w))) = [pin] \<and>
     buf (snd (ext (Bsd (Kevent_wait q 128)) w)) = buf w)"

definition kq_holds :: "'w ext \<Rightarrow> ('w \<Rightarrow> u8 list) \<Rightarrow> int list \<Rightarrow> ('w, 'z) fbsd_scheme \<Rightarrow> bool" where
  "kq_holds ext buf ns s \<longleftrightarrow> is_pipe ext (kq_pipe_in s) (kq_pipe_out s) buf \<and>
     kqueue_reports_pipe ext (kqfd s) (kq_pipe_in s) buf \<and> pipe_holds buf ns (world s)"

text \<open>A wait of the kqueue reactor, and what \<open>who\<close> answers after it.\<close>

definition kq_wait_who :: "'w ext \<Rightarrow> (('w, 'z) fbsd_scheme, bool \<times> fd option) prog" where
  "kq_wait_who ext = bnd (kq_get_interrupt ext) (\<lambda>b. bnd (gets kq_who) (\<lambda>d. ret (b, d)))"

lemma kq_handle_wakeup:
  assumes "is_pipe ext (kq_pipe_in s) pout buf" and "pipe_holds buf (n # ns) (world s)"
    and "ident ev = kq_pipe_in s"
  shows "wp (kq_handle ext ev) (\<lambda>_ t. isocket t = Some n \<and> pipe_holds buf ns (world t) \<and>
     kq_pipe_in t = kq_pipe_in s \<and> kq_pipe_out t = kq_pipe_out s \<and> kqfd t = kqfd s) (\<lambda>_ _. False) s"
  using pipe_holds_read [OF assms(1,2)] assms(3)
  by (simp add: kq_handle_def kq_read_wakeup_def kq_report_def wp_simps)

interpretation kqueue: wakeups "kq_interrupt ext" "kq_wait_who ext" "\<lambda>n. (True, Some n)" "kq_holds ext buf"
  for ext :: "'w ext" and buf :: "'w \<Rightarrow> u8 list"
proof
  fix ns n and s :: "('w, 'z) fbsd_scheme"
  assume "kq_holds ext buf ns s" and "is_int32 n"
  then show "wp (kq_interrupt ext n) (\<lambda>_. kq_holds ext buf (ns @ [n])) (\<lambda>_ _. False) s"
    by (auto simp: kq_interrupt_def wp_simps kq_holds_def intro: pipe_holds_write)
next
  fix n ns and s :: "('w, 'z) fbsd_scheme"
  assume h: "kq_holds ext buf (n # ns) s"
  let ?w = "Bsd (Kevent_wait (kqfd s) 128)"
  from h have p: "is_pipe ext (kq_pipe_in s) (kq_pipe_out s) buf" "pipe_holds buf (n # ns) (world s)"
    by (auto simp: kq_holds_def)
  have w: "rv (fst (ext ?w (world s))) = 1" "map ident (r_kevents (fst (ext ?w (world s)))) = [kq_pipe_in s]"
      "buf (snd (ext ?w (world s))) = buf (world s)"
    using h pipe_holds_nonempty [OF p(2)] by (auto simp: kq_holds_def kqueue_reports_pipe_def)
  then obtain ev where ev: "r_kevents (fst (ext ?w (world s))) = [ev]" "ident ev = kq_pipe_in s" by auto
  let ?t = "s\<lparr>world := snd (ext ?w (world s)), trace := trace s @ [(?w, fst (ext ?w (world s)))]\<rparr>"
  have "is_pipe ext (kq_pipe_in ?t) (kq_pipe_out s) buf" "pipe_holds buf (n # ns) (world ?t)"
    "ident ev = kq_pipe_in ?t" using p w(3) ev(2) by (simp_all add: pipe_holds_def)
  from kq_handle_wakeup [OF this]
  have "wp (kq_handle ext ev) (\<lambda>_ t. isocket t = Some n \<and> kq_holds ext buf ns t) (\<lambda>_ _. False) ?t"
    by (rule wp_mono) (use h in \<open>auto simp: kq_holds_def\<close>)
  then show "wp (kq_wait_who ext) (\<lambda>r t. r = (True, Some n) \<and> kq_holds ext buf ns t) (\<lambda>_ _. False) s"
    using w(1) ev(1)
    by (simp add: kq_wait_who_def kq_get_interrupt_def kq_who_def wp_simps wp_eta)
qed


text \<open>
  The same of the kqueue reactor, where the report is what \<open>who\<close> answers after
  \<open>get_interrupt\<close>: every integer passed to \<open>interrupt\<close> comes back, in order.
\<close>

theorem kq_wakeups_in_order:
  fixes s :: "('w, 'z) fbsd_scheme"
  assumes "kq_holds ext buf [] s" and "\<forall>n \<in> set ns. is_int32 n"
  shows "fst (andthen (for_each (kq_interrupt ext) ns)
      (repeatedly (kq_wait_who ext) (length ns)) s) = Inr (map (\<lambda>n. (True, Some n)) ns)"
  using kqueue.wakeups_in_order [OF assms] by (auto simp: wp_def split: prod.splits sum.splits)

subsection \<open>A world with one pipe\<close>

text \<open>The bytes in the pipe (4, 5) are the world; descriptor 6 is the epoll or the kqueue.\<close>

fun pipe_world :: "u8 list ext" where
  "pipe_world (Os (Write d n)) bs = (plain_reply 4, bs @ int_bytes n)"
| "pipe_world (Os (Read d)) bs =
     ((plain_reply (int (length (take 4 bs))))\<lparr>r_bytes := take 4 bs\<rparr>, drop 4 bs)"
| "pipe_world (Epoll (Epoll_wait d n)) bs =
     ((plain_reply 1)\<lparr>r_events := [\<lparr>ee_events = EPOLLIN, ee_data = data_of_fd 4\<rparr>]\<rparr>, bs)"
| "pipe_world (Bsd (Kevent_wait d n)) bs =
     ((plain_reply 1)\<lparr>r_kevents := [ev_set 4 EVFILT_READ 0]\<rparr>, bs)"
| "pipe_world c bs = (plain_reply 0, bs)"

lemma pipe_world_pipe: "is_pipe pipe_world 4 5 id"
  by (simp add: is_pipe_def plain_reply_def)

definition pipe_reactor :: linux_reactor where
  "pipe_reactor = \<lparr>pipe_in = 4, pipe_out = 5, epfd = 6, threads = []\<rparr>"

definition pipe_base :: "u8 list base" where
  "pipe_base = \<lparr>world = [], trace = [], conn_heap = (\<lambda>_. None), recv_heap = (\<lambda>_. None),
     send_heap = (\<lambda>_. None), overlap_heap = (\<lambda>_. None), accept_heap = (\<lambda>_. None), last_addr = 0\<rparr>"

definition pipe_kq :: "u8 list fbsd" where
  "pipe_kq = \<lparr>world = [], trace = [], kqfd = 6, kq_pipe_in = 4, kq_pipe_out = 5, isocket = None, desc_set = []\<rparr>"


theorem kq_wakeups_in_order_witness:
  "fst (andthen (for_each (kq_interrupt pipe_world) [12, 0])
      (repeatedly (kq_wait_who pipe_world) 2) pipe_kq) = Inr [(True, Some 12), (True, Some 0)]"
proof -
  have "kq_holds pipe_world id [] pipe_kq"
    using pipe_world_pipe by (simp add: kq_holds_def kqueue_reports_pipe_def pipe_kq_def
        plain_reply_def ev_set_def)
  from kq_wakeups_in_order [OF this, of "[12, 0]"]
  show ?thesis by (simp add: is_int32_def numeral_2_eq_2)
qed

subsection \<open>Batches of the kqueue reactor\<close>

definition kq_delete :: "fd \<Rightarrow> fd \<Rightarrow> ext_call" where
  "kq_delete q d = Bsd (Kevent_change q (ev_set d EVFILT_READ EV_DELETE))"

lemma kq_handle_socket:
  assumes "\<And>w. rv (fst (ext (kq_delete (kqfd s) (ident ev)) w)) \<noteq> -1" and "kq_pipe_in s \<noteq> ident ev"
  shows "wp (kq_handle ext ev) (\<lambda>_ t. calls t = calls s @ [kq_delete (kqfd s) (ident ev)] \<and>
      isocket t = Some (ident ev) \<and> kqfd t = kqfd s \<and> kq_pipe_in t = kq_pipe_in s) (\<lambda>_ _. False) s"
  using assms by (auto simp: kq_handle_def kq_take_socket_def kq_report_def kq_delete_def wp_simps calls_def)

lemma kq_take_sockets:
  fixes s :: "('w, 'z) fbsd_scheme"
  assumes "\<And>w d. d \<in> set (map ident evs) \<Longrightarrow> rv (fst (ext (kq_delete (kqfd s) d) w)) \<noteq> -1"
    and "kq_pipe_in s \<notin> set (map ident evs)"
  shows "wp (for_each (kq_handle ext) evs) (\<lambda>_ t. calls t = calls s @ map (kq_delete (kqfd s) \<circ> ident) evs \<and>
      isocket t = (if evs = [] then isocket s else Some (ident (last evs)))) (\<lambda>_ _. False) s"
  using assms
proof (induction evs arbitrary: s)
  case (Cons ev evs)
  have "wp (kq_handle ext ev) (\<lambda>_. wp (for_each (kq_handle ext) evs)
      (\<lambda>_ t. calls t = calls s @ map (kq_delete (kqfd s) \<circ> ident) (ev # evs) \<and>
        isocket t = Some (ident (last (ev # evs)))) (\<lambda>_ _. False)) (\<lambda>_ _. False) s"
  proof (rule wp_mono [OF kq_handle_socket])
    fix t :: "('w, 'z) fbsd_scheme"
    assume "calls t = calls s @ [kq_delete (kqfd s) (ident ev)] \<and>
      isocket t = Some (ident ev) \<and> kqfd t = kqfd s \<and> kq_pipe_in t = kq_pipe_in s"
    with Cons.IH [of t] Cons.prems
    show "wp (for_each (kq_handle ext) evs)
      (\<lambda>_ t. calls t = calls s @ map (kq_delete (kqfd s) \<circ> ident) (ev # evs) \<and>
        isocket t = Some (ident (last (ev # evs)))) (\<lambda>_ _. False) t"
      by (auto elim!: wp_mono)
  qed (use Cons.prems in auto)
  then show ?case by (cases "evs = []") (simp_all add: wp_andthen o_def)
qed (simp add: wp_ret)

text \<open>
  A batch of readable sockets: \<open>get_interrupt\<close> of the kqueue reactor takes every one of
  them out of the kqueue, so that none is reported again, but afterwards \<open>who\<close> names the
  last one only; the others are lost.
\<close>

theorem kq_batch_keeps_the_last:
  fixes s :: "('w, 'z) fbsd_scheme"
  assumes "\<And>w d. d \<in> set ds \<Longrightarrow> rv (fst (ext (kq_delete (kqfd s) d) w)) \<noteq> -1"
    and "fst (ext (Bsd (Kevent_wait (kqfd s) 128)) (world s)) = r"
    and "rv r = int (length ds)" and "map ident (r_kevents r) = ds"
    and "kq_pipe_in s \<notin> set ds" and "ds \<noteq> []"
  shows "wp (kq_get_interrupt ext) (\<lambda>b t. b \<and> kq_who t = Some (last ds) \<and>
      calls t = calls s @ Bsd (Kevent_wait (kqfd s) 128) # map (kq_delete (kqfd s)) ds) (\<lambda>_ _. False) s"
proof -
  let ?w = "Bsd (Kevent_wait (kqfd s) 128)"
  let ?t = "s\<lparr>world := snd (ext ?w (world s)), trace := trace s @ [(?w, r)]\<rparr>"
  have l: "length (r_kevents r) = length ds" "r_kevents r \<noteq> []" using assms(4,6) by auto
  have "ident (last (r_kevents r)) = last ds" using assms(4) l(2) by (auto simp: last_map)
  then have "wp (for_each (kq_handle ext) (r_kevents r))
      (\<lambda>_ t. isocket t = Some (last ds) \<and> calls t = calls s @ ?w # map (kq_delete (kqfd s)) ds)
      (\<lambda>_ _. False) ?t"
    using assms(1,4,5) l(2)
    by (intro wp_mono [OF kq_take_sockets]) (auto simp: calls_def)
  then show ?thesis
    using assms(2,3,6) l
    by (simp add: kq_get_interrupt_def kq_who_def wp_simps wp_eta)
qed

text \<open>A kqueue with two readable sockets, of which one is lost.\<close>

fun two_ready :: "unit ext" where
  "two_ready (Bsd (Kevent_wait q n)) w =
     ((plain_reply 2)\<lparr>r_kevents := [ev_set 8 EVFILT_READ 0, ev_set 9 EVFILT_READ 0]\<rparr>, w)"
| "two_ready c w = (plain_reply 0, w)"

definition kq_start :: "unit fbsd" where
  "kq_start = \<lparr>world = (), trace = [], kqfd = 6, kq_pipe_in = 4, kq_pipe_out = 5, isocket = None, desc_set = []\<rparr>"

theorem kq_batch_keeps_the_last_witness:
  "wp (kq_get_interrupt two_ready) (\<lambda>b t. b \<and> kq_who t = Some 9 \<and>
      calls t = [Bsd (Kevent_wait 6 128), kq_delete 6 8, kq_delete 6 9]) (\<lambda>_ _. False) kq_start"
  using kq_batch_keeps_the_last [where ds = "[8, 9]" and s = kq_start and ext = two_ready, OF _ refl]
  by (simp add: kq_start_def kq_delete_def plain_reply_def ev_set_def calls_def)

subsection \<open>The select reactor\<close>

text \<open>The descriptors that \<open>FD_SET\<close> may be called with.\<close>

definition selectable :: "fd \<Rightarrow> bool" where
  "selectable d \<longleftrightarrow> 0 \<le> d \<and> d < FD_SETSIZE"

lemma wp_fd_set_add [wp_simps]:
  "wp (fd_set_add d ds) Q E s = (if selectable d then Q (List.insert d ds) s else E Out_of_bounds s)"
  by (simp add: fd_set_add_def selectable_def wp_simps)

lemma wp_fd_isset [wp_simps]:
  "wp (fd_isset d ds) Q E s = (if selectable d then Q (d \<in> set ds) s else E Out_of_bounds s)"
  by (simp add: fd_isset_def selectable_def wp_simps)

lemma fd_set_all_wp:
  "wp (fd_set_all ds own exc mx) (\<lambda>(own', exc', mx') t. t = s \<and> list_all selectable ds \<and>
      set own' = set own \<union> set ds \<and> set exc' = set exc \<union> set ds \<and> mx' = fold max ds mx)
    (\<lambda>e t. t = s \<and> e = Out_of_bounds \<and> \<not> list_all selectable ds) s"
proof (induction ds arbitrary: own exc mx)
  case (Cons d ds)
  show ?case
    using Cons [of "List.insert d own" "List.insert d exc" "max mx d"]
    by (auto simp: wp_simps max_def split: if_splits elim!: wp_mono)
qed (simp add: wp_simps)

text \<open>
  The sets that the select reactor builds before every wait: when each descriptor is
  below \<open>FD_SETSIZE\<close>, the reading set is the pipe and the sockets registered for accepting,
  the writing set the other ones, the error set both, and the bound passed to \<open>select\<close> the
  greatest of them; a descriptor out of that range makes it write outside of the arrays.
\<close>

theorem select_sets_built:
  "wp (select_sets pin rs ws)
     (\<lambda>(rset, wset, eset, mx) t. t = s \<and> list_all selectable (pin # rs @ ws) \<and>
        set rset = set (pin # rs) \<and> set wset = set ws \<and> set eset = set rs \<union> set ws \<and>
        mx = Max (set (pin # rs @ ws)))
     (\<lambda>e t. t = s \<and> e = Out_of_bounds \<and> \<not> list_all selectable (pin # rs @ ws)) s"
proof -
  have mx: "fold max ws (fold max rs pin) = Max (set (pin # rs @ ws))"
    by (metis Max.set_eq_fold fold_append o_apply)
  show ?thesis
    unfolding select_sets_def mx [symmetric]
    by (auto simp: wp_simps case_prod_beta intro!: wp_mono [OF fd_set_all_wp])
qed

lemma wp_no_close:
  "wp (call_or_throw ext c) (\<lambda>r t. (\<forall>d. c \<noteq> Os (Close d)) \<longrightarrow> rv r \<noteq> -1 \<and> calls t = calls s @ [c])
     (\<lambda>e t. calls t = calls s @ [c]) s"
  by (simp add: wp_simps calls_def)

text \<open>The descriptors that a sequence of calls closes.\<close>

definition closed_fds :: "ext_call list \<Rightarrow> fd list" where
  "closed_fds cs = concat (map (\<lambda>c. case c of Os (Close d) \<Rightarrow> [d] | _ \<Rightarrow> []) cs)"

text \<open>
  The constructor of the select reactor never closes anything: when it returns, both
  \<open>socket\<close> calls have been answered, the listener that it needed only to make the pair is
  still open, and nothing remembers its descriptor.  The same holds when it throws.
\<close>

theorem select_reactor_never_closes:
  "wp (new_socket_reactor ext) (\<lambda>_ t. closed_fds (calls t) = closed_fds (calls s))
     (\<lambda>_ t. closed_fds (calls t) = closed_fds (calls s)) s"
  by (simp add: new_socket_reactor_def select_open_pair_def loopback_def closed_fds_def calls_def wp_simps wp_eta)

lemma same_high_bytes:
  assumes "m div 256 = n div 256" and "(word_of_int m :: u8) = 0"
  shows "0 # drop 1 (int_bytes n) = int_bytes m"
proof -
  have "m div 65536 = n div 65536" "m div 16777216 = n div 16777216"
    using assms(1) by (metis div_bytes)+
  with assms show ?thesis by (simp add: int_bytes_def drop_bit_eq_div)
qed

lemma clear_low_byte: "0 # drop 1 (int_bytes n) = int_bytes (n - n mod 256)"
proof (rule same_high_bytes)
  show "(n - n mod 256) div 256 = n div 256" by (simp only: minus_mod_eq_div_mult)
  show "(word_of_int (n - n mod 256) :: u8) = 0" by (simp add: word_of_int_eq_iff take_bit_eq_mod)
qed

lemma int32_clear_low_byte: "is_int32 n \<Longrightarrow> is_int32 (n - n mod 256)"
proof -
  assume "is_int32 n"
  moreover have "n - n mod 256 = 256 * (n div 256)" by (simp only: minus_mod_eq_mult_div)
  moreover have "0 \<le> n mod 256" "n mod 256 < 256" by simp_all
  ultimately show ?thesis unfolding is_int32_def by simp linarith
qed

text \<open>
  A wake-up of the select reactor carries one zero byte.  So the value that the reader takes
  for the socket is the previous one with its lowest byte cleared: it is 0, the sign of an
  internal interrupt, only if the previous value was below 256.
\<close>

theorem select_wakeup_clears_one_byte:
  assumes "is_int32 (ready_socket s)"
    and "rv (fst (ext (Os (Read d)) (world s))) = 1" and "r_bytes (fst (ext (Os (Read d)) (world s))) = [0]"
  shows "wp (select_read_wakeup ext d)
     (\<lambda>_ t. ready_socket t = ready_socket s - ready_socket s mod 256) (\<lambda>_ _. False) s"
  using assms clear_low_byte [of "ready_socket s"]
  by (simp add: select_read_wakeup_def overwrite_int_def wp_simps int32_clear_low_byte)

end
