(* ===== verification/Win_Waits.thy ===== *)
theory Win_Waits
  imports Win_Properties Closing
begin

section \<open>The functions of the Windows dispatcher that wait\<close>

text \<open>
  The promises of \<open>close_conn_wait\<close> and \<open>break_send\<close>, from the invariants of \<open>Closing\<close> and
  \<open>Sends\<close>.
\<close>

subsection \<open>close_conn_wait\<close>

interpretation upn: win_send_frame "unposted :: ('w, 'z) win_scheme \<Rightarrow> ('w, 'z) win_scheme \<Rightarrow> bool"
  by unfold_locales (simp_all add: unposted_same unposted_call)

interpretation upc: win_conn_frame "unposted :: ('w, 'z) win_scheme \<Rightarrow> ('w, 'z) win_scheme \<Rightarrow> bool"
  by unfold_locales

lemma win_closed_conn:
  "triple (\<lambda>s. p \<le> last_addr s) (win_close_connection ext p iocp) (\<lambda>_. closed_at p) (\<lambda>_. True)"
proof (rule tripleI)
  fix s :: "('a, 'b) win_scheme" assume s: "p \<le> last_addr s"
  have rest: "triple (\<lambda>s. p \<le> last_addr s) (andthen (win_forget_callbacks p) m) (\<lambda>_. closed_at p) (\<lambda>_. True)"
    if "qt.keeps m" for m :: "(('a, 'b) win_scheme, unit) prog"
    unfolding win_forget_callbacks_def by (rule triple_seq [OF closed_set_conn closed_keeps [OF that]]) simp
  have live: "triple (\<lambda>s :: ('a, 'b) win_scheme. p \<le> last_addr s) (block [call_connected ext p False,
        win_forget_callbacks p, free_completed_conn ext p ''close_connection'']) (\<lambda>_. closed_at p) (\<lambda>_. True)"
    "triple (\<lambda>s :: ('a, 'b) win_scheme. p \<le> last_addr s) (block [call_closed ext p, win_forget_callbacks p,
        win_limiter (bw_erase p), win_close_socket ext p, whenever iocp (win_drop ext p)])
      (\<lambda>_. closed_at p) (\<lambda>_. True)"
    unfolding block.simps
    by (intro triple_seq [OF closed_calls(1)] triple_seq [OF closed_calls(2)] rest qt.keeps_basic
        wq.keeps_free_completed wq.keeps_win_limiter wq.keeps_win_thread)+
  have "triple (closed_at p) (block [win_close_socket ext p, whenever iocp (win_drop ext p)])
      (\<lambda>_. closed_at p :: ('a, 'b) win_scheme \<Rightarrow> bool) (\<lambda>_. True)"
    unfolding block.simps by (intro closed_keeps qt.keeps_basic wq.keeps_win_thread)
  from tripleD [OF this, of s] have "wp (block [win_close_socket ext p, whenever iocp (win_drop ext p)]) (\<lambda>_. closed_at p) (\<lambda>_ _. True) s"
    if "conn_heap s p = Some c" "conn_st c = Cs_closed" for c
    using s that by (simp add: closed_at_def)
  with live [THEN tripleD, OF s] show "wp (win_close_connection ext p iocp) (\<lambda>_. closed_at p) (\<lambda>_ _. True) s"
    unfolding win_close_connection_def
    by (simp add: wp_bnd wp_deref split: option.split conn_state.split)
qed

lemma win_closing_message: "triple closing_ok (win_close_wait ext p) (\<lambda>_. closing_ok) (\<lambda>_. True)"
  unfolding win_close_wait_def block.simps
  by (rule triple_andthen, rule closing_keeps [OF quiet_keeps up.keeps_modify], rule qt.keeps_modify,
      rule wq.conns_any, rule upn.conns_any, rule triple_seq,
      rule closing_closes [OF win_close_connection_triple upc.keeps_win_close_connection win_closed_conn],
      simp add: win_close_connection_def wp_simps, rule triple_seq, rule closing_posts,
      rule triple_andthen, rule closing_keeps [OF quiet_keeps up.keeps_conn_release],
      rule qt.keeps_conn_release, rule triple_ret)

lemma win_closing_handle_message:
  "triple (closing_ok :: ('w, 'z) win_scheme \<Rightarrow> bool) (win_handle_message ext im) (\<lambda>_. closing_ok) (\<lambda>_. True)"
proof (cases "im_code im = P_CLOSE_CONNECTION_WAIT")
  case True
  then show ?thesis
    unfolding win_handle_message_def win_with_ptr_def
    by (simp add: message_codes) (intro triple_andthen triple_option win_closing_message triple_ret
        closing_keeps [OF quiet_keeps up.keeps_throw] qt.keeps_throw)
next
  case False
  have "up.keeps (win_handle_message ext im :: (('w, 'z) win_scheme, bool) prog)"
    unfolding win_handle_message_def win_with_ptr_def
    by (intro up.keeps_basic upn.keeps_free_not_completed up.keeps_modify upn.stop_accepted_any
        upn.keeps_win_create upc.keeps_win_close upn.keeps_win_send_request upn.keeps_win_call_false_cb)
      (simp_all add: False)
  then show ?thesis by (rule closing_keeps [OF win_handle_message_triple])
qed

lemma win_handle_completion_unposted:
  "up.keeps (win_handle_completion ext code x peer :: (('w, 'z) win_scheme, unit) prog)"
proof -
  have "up.keeps ((case x of
        AcceptObj a \<Rightarrow> complete_accept ext peer a | OverlapObj p \<Rightarrow> complete_overlap ext p
      | RecvObj p \<Rightarrow> complete_recv ext p | SendObj p \<Rightarrow> complete_send ext p | ConnObj p \<Rightarrow> ret ())
      :: (('w, 'z) win_scheme, unit) prog)"
    by (cases x) (simp_all add: upn.keeps_complete_send up.keeps_ret upc.keeps_win_connections)
  then show ?thesis
    unfolding win_handle_completion_def
    by (intro up.keeps_if up.keeps_bnd up.keeps_obj_iov upc.keeps_win_close_connection)
qed

lemma win_closing_iteration:
  "triple (closing_ok :: ('w, 'z) win_scheme \<Rightarrow> bool) (win_iteration ext ub) (\<lambda>_. closing_ok) (\<lambda>_. True)"
  unfolding win_iteration_def win_handle_wakeup_def
  by (intro triple_bnd_inv triple_prod triple_andthen triple_entry triple_if triple_option triple_whenever
      triple_ret win_closing_handle_message
      closing_keeps [OF win_handle_completion_triple win_handle_completion_unposted]
      closing_keeps [OF quiet_keeps upn.keeps_with_cp] wq.keeps_with_cp qt.keeps_get_transfer up.keeps_get_transfer
      closing_keeps [OF quiet_keeps up.keeps_modify] qt.keeps_modify wq.transfered_any upn.transfered_any
      wq.messages_any upn.messages_any closing_keeps [OF quiet_keeps up.keeps_gets] qt.keeps_gets
      closing_keeps [OF quiet_keeps upn.keeps_win_recalc] wq.keeps_win_recalc
      closing_keeps [OF quiet_keeps upn.keeps_sendbt] wq.keeps_sendbt
      closing_keeps [OF quiet_keeps up.keeps_throw] qt.keeps_throw)

lemma win_discard_unposted: "up.keeps m \<Longrightarrow> up.keeps (win_discard m)"
  unfolding win_discard_def by (intro up.keeps_bnd up.keeps_ret)

lemma win_api_unposted: "up.keeps (run_win_api ext a)"
  by (cases a) (simp_all only: run_win_api.simps win_discard_unposted upn.keeps_win_interface
      upn.keeps_win_send upn.keeps_win_break_send upc.keeps_win_connect_conn)

lemma new_win_unposted:
  "up.keeps (new_win_tcp_dispatcher ext j port cb :: (('w, 'z) win_scheme, unit) prog)"
proof -
  have "unposted s (s\<lparr>w_bws := b, w_listening := d, w_accepted := a, w_stop_sem := n, w_cp := m,
      w_messages := q, w_transfered := k, w_overlaps := l1, w_accepts := l2, w_conns := l3,
      w_recvs := l4, w_sends := l5\<rparr>)" for s :: "('w, 'z) win_scheme" and b d a n m q k l1 l2 l3 l4 l5
    by (rule unposted_same) simp_all
  then show ?thesis
    unfolding new_win_tcp_dispatcher_def
    by (intro up.keeps_basic up.keeps_modify upn.keeps_win_start_listening up.keeps_delete_cp_reactor)
      simp_all
qed

interpretation win_closing: win_invariant ext "closing_ok :: 'w win \<Rightarrow> bool" "\<lambda>_. True"
  for ext :: "'w ext"
proof unfold_locales
  show "wp (run_win_api ext a) (\<lambda>_. closing_ok) (\<lambda>_ _. True) s"
    if "closing_ok s" "win_allowed a (th, s)" for s :: "'w win" and a th
    using run_win_api_proto [OF _ that(2), of ext] up.keepsD [OF win_api_unposted, of s ext a] that(1)
    by (auto simp: wp_def closing_ok_def intro: unposted_ok split: prod.split sum.split)
  show "wp (new_win_tcp_dispatcher ext j port cb) (\<lambda>_. closing_ok) (\<lambda>_ _. True) (empty_win w)"
    for j port cb and w :: 'w
    by (rule tripleD [OF closing_keeps [OF quiet_keeps [OF new_win_quiet] new_win_unposted]])
      (simp add: closing_ok_def sems_down_def empty_win_proto, simp add: empty_win_def)
qed (auto intro: win_closing_iteration)

interpretation win_waits: waiting_contract
    "\<lambda>cs. \<exists>ub th s. win_reachable ext ub (th, s) \<and> cs = calls s"
    "\<lambda>s. \<exists>ub. win_reachable ext ub (W_running, s)"
  for ext :: "'w ext"
proof unfold_locales
  fix s :: "'w win" assume s: "\<exists>ub. win_reachable ext ub (W_running, s)"
  then show "\<exists>ub th t. win_reachable ext ub (th, t) \<and> calls s = calls t" by blast
  from s obtain ub where "win_reachable ext ub (W_running, s)" by blast
  with win_closing.reachable_holds [of ext ub "(W_running, s)"] show "closing_ok s"
    by (simp add: win_closing.holds_def)
qed

text \<open>
  C11: The promise of \<open>close_conn_wait\<close> in the Windows dispatcher: while the dispatcher thread
  runs, when the wait for the semaphore of a connection ends, then the last callback of the
  connection has been called: \<open>closed\<close> if the connection had been established, otherwise
  \<open>connected(null)\<close>.
\<close>

theorem win_close_wait_returns_closed:
  assumes "win_reachable ext ub (W_running, s)" and "win_close_conn_wait_return p s = (Inr True, t)"
  shows "\<exists>before k after. calls t = before @ k # after
    \<and> (if \<exists>b \<in> set before. establishes p b then closes p k else fails p k)
    \<and> (\<forall>a \<in> set after. \<not> callback_of p a)"
  using assms(1) by (intro win_waits.wait_ends [OF _ assms(2) [unfolded win_close_conn_wait_return_def]]) blast

text \<open>A run in which a user waits until an established connection is closed.\<close>

definition win_waiting :: "win_thread \<times> win_sim win" where
  "win_waiting = win_play sim_win (\<lambda>_. 0)
     [Win_call (W_connect 0 80 win_callbacks), Win_step, Win_step, Win_call (W_close_conn_wait 2), Win_step]
     (win_boot [woken, completed (OverlapObj 3) [], woken])"

lemma win_waiting_run:
  "fst win_waiting = W_running"
  "map_option close_sem (conn_heap (snd win_waiting) 2) = Some 1"
  by (simp_all add: win_waiting_def win_boot_def win_simps cong: run_cong)

lemma win_waiting_reachable: "win_reachable sim_win (\<lambda>_. 0) (W_running, snd win_waiting)"
proof -
  have "win_reachable sim_win (\<lambda>_. 0) win_waiting"
    unfolding win_waiting_def by (intro win_play_reachable win_boot_reachable)
  with win_waiting_run(1) show ?thesis by (metis prod.collapse)
qed

theorem win_close_wait_returns_closed_witness:
  "\<exists>t before k after. win_close_conn_wait_return 2 (snd win_waiting) = (Inr True, t)
    \<and> calls t = before @ k # after
    \<and> (if \<exists>b \<in> set before. establishes 2 b then closes 2 k else fails 2 k)
    \<and> (\<forall>a \<in> set after. \<not> callback_of 2 a)"
proof -
  obtain t where "win_close_conn_wait_return 2 (snd win_waiting) = (Inr True, t)"
    using close_wait_runs [of 2 "snd win_waiting" 0] win_waiting_run(2) by (auto simp: win_close_conn_wait_return_def)
  with win_close_wait_returns_closed [OF win_waiting_reachable this] show ?thesis by blast
qed

subsection \<open>break_send\<close>

interpretation win_breaking: win_step_invariant ext "sends_ok A :: 'w win \<Rightarrow> bool" sends_safe
  for ext :: "'w ext" and A
  by unfold_locales (auto intro: sends_ok_safe win_sends_iteration run_win_api_sends_safe
      tripleD [OF sends_weak [OF run_win_api_sends]])

text \<open>
  C12: The promise of \<open>break_send\<close> in the Windows dispatcher: when a request had a callback in
  some reachable configuration and the wait for its semaphore ends in a later one, with the
  thread running, then the callback has been called, exactly once, and the request has none
  left to call.
\<close>

theorem win_break_send_returns_answered:
  assumes "win_reachable ext ub (W_running, s\<^sub>0)"
    and "send_heap s\<^sub>0 sr = Some q" and "sent_cb q = Some cb"
    and "(win_step ext ub)\<^sup>*\<^sup>* (W_running, s\<^sub>0) (W_running, s)"
    and "win_break_send_return sr s = (Inr True, t)"
  shows "length (filter (sent_to sr) (calls t)) = 1
    \<and> (\<forall>q. send_heap t sr = Some q \<longrightarrow> sent_cb q = None)"
proof -
  have "sends_ok {} s\<^sub>0"
    using win_sending.reachable_holds [OF assms(1)] by (simp add: win_sending.holds_def)
  from sends_ok_pledge [OF this assms(2,3)] have "win_breaking.holds {sr} (W_running, s\<^sub>0)"
    by (simp add: win_breaking.holds_def)
  from win_breaking.steps_holds [OF assms(4) this] have "sends_ok {sr} s"
    by (simp add: win_breaking.holds_def)
  from break_wait_answered [OF this assms(5) [unfolded win_break_send_return_def]] show ?thesis .
qed

text \<open>A run in which a request is sent, broken and waited for.\<close>

definition win_asked :: "win_thread \<times> win_sim win" where
  "win_asked = win_play sim_win (\<lambda>_. 0)
     [Win_call (W_connect 0 80 win_callbacks), Win_step, Win_step, Win_call (W_send 2 [5, 6] (Some 14))]
     (win_boot [woken, completed (OverlapObj 3) [], woken, woken])"

definition win_broken :: "win_thread \<times> win_sim win" where
  "win_broken = win_play sim_win (\<lambda>_. 0)
     [Win_call (W_break_send 5), Win_call (W_break_send_init 5), Win_step, Win_step] win_asked"

lemma win_broken_run:
  "fst win_asked = W_running" "map_option sent_cb (send_heap (snd win_asked) 5) = Some (Some 14)"
  "fst win_broken = W_running" "map_option break_sem (send_heap (snd win_broken) 5) = Some (Some 1)"
  by (simp_all add: win_broken_def win_asked_def win_boot_def win_simps cong: run_cong)

lemma win_play_steps: "(win_step ext ub)\<^sup>*\<^sup>* c (win_play ext ub acts c)"
proof (induction ext ub acts c rule: win_play.induct)
  case (2 ext ub acts c)
  then show ?case using converse_rtranclp_into_rtranclp [of "win_step ext ub", OF win_by_thread] by simp
next
  case (3 ext ub a acts c)
  then show ?case using converse_rtranclp_into_rtranclp [of "win_step ext ub", OF win_by_api]
    by (cases "win_allowed a c") simp_all
qed simp

theorem win_break_send_returns_answered_witness:
  "\<exists>t. win_break_send_return 5 (snd win_broken) = (Inr True, t)
    \<and> length (filter (sent_to 5) (calls t)) = 1"
proof -
  obtain t where t: "win_break_send_return 5 (snd win_broken) = (Inr True, t)"
    using break_wait_runs [of 5 "snd win_broken" 0] win_broken_run(4) by (auto simp: win_break_send_return_def)
  obtain q where q: "send_heap (snd win_asked) 5 = Some q" "sent_cb q = Some 14"
    using win_broken_run(2) by auto
  have "win_reachable sim_win (\<lambda>_. 0) win_asked"
    unfolding win_asked_def by (intro win_play_reachable win_boot_reachable)
  then have r: "win_reachable sim_win (\<lambda>_. 0) (W_running, snd win_asked)"
    using win_broken_run(1) by (metis prod.collapse)
  have "(win_step sim_win (\<lambda>_. 0))\<^sup>*\<^sup>* win_asked win_broken"
    unfolding win_broken_def by (rule win_play_steps)
  then have "(win_step sim_win (\<lambda>_. 0))\<^sup>*\<^sup>* (W_running, snd win_asked) (W_running, snd win_broken)"
    using win_broken_run(1,3) by (metis prod.collapse)
  from win_break_send_returns_answered [OF r q this t] t show ?thesis by blast
qed

end
