(* ===== verification/Win_Stopping.thy ===== *)
theory Win_Stopping
  imports Win_Properties
begin

section \<open>stop_accepting of the Windows dispatcher\<close>

text \<open>
  The promise of \<open>stop_accepting\<close>: there are no calls of the accepted callback after it
  returned.  The relation \<open>stops\<close> between the states of a run says that the semaphore it waits
  for is posted only when the callback is forgotten, and that it is not called and stays
  forgotten then.
\<close>

subsection \<open>The relation\<close>

fun accept_call :: "ext_call \<Rightarrow> bool" where
  "accept_call (User (Cb_accepted p cb)) = True"
| "accept_call k = False"

definition accepts :: "('w, 'z) win_scheme \<Rightarrow> ext_call list" where
  "accepts s = filter accept_call (calls s)"

definition stops :: "('w, 'z) win_scheme \<Rightarrow> ('w, 'z) win_scheme \<Rightarrow> bool" where
  "stops s t \<longleftrightarrow> (w_accepted s = None \<longrightarrow> w_accepted t = None \<and> accepts t = accepts s)
     \<and> (w_stop_sem s < w_stop_sem t \<longrightarrow> w_accepted t = None)"

lemma stops_same:
  "w_accepted t = w_accepted s \<Longrightarrow> w_stop_sem t = w_stop_sem s \<Longrightarrow> trace t = trace s \<Longrightarrow> stops s t"
  by (simp add: stops_def accepts_def calls_def)

lemma stops_call:
  "\<not> accept_call k \<Longrightarrow> stops s (s\<lparr>world := w, trace := trace s @ [(k, r)]\<rparr>)"
  by (simp add: stops_def accepts_def calls_def)

lemma stops_trans: "stops s t \<Longrightarrow> stops t u \<Longrightarrow> stops s u"
  unfolding stops_def by (cases "w_stop_sem s < w_stop_sem t") auto

lemma not_accept_call: "(\<And>p cb. u \<noteq> Cb_accepted p cb) \<Longrightarrow> \<not> accept_call (User u)"
  by (cases u) auto

lemma not_user_call: "(\<And>u. k \<noteq> User u) \<Longrightarrow> \<not> accept_call k"
  by (cases k) auto

interpretation st: win_base_send "stops :: ('w, 'z) win_scheme \<Rightarrow> ('w, 'z) win_scheme \<Rightarrow> bool"
proof unfold_locales
  fix s t u :: "('w, 'z) win_scheme"
  show "stops s t \<Longrightarrow> stops t u \<Longrightarrow> stops s u" by (rule stops_trans)
next
  fix s :: "('w, 'z) win_scheme" and k w r
  assume "\<And>u. k \<noteq> User u"
  then show "stops s (s\<lparr>world := w, trace := trace s @ [(k, r)]\<rparr>)" by (intro stops_call not_user_call)
qed (rule stops_same stops_call, simp_all)+

interpretation stc: win_base_closing "stops :: ('w, 'z) win_scheme \<Rightarrow> ('w, 'z) win_scheme \<Rightarrow> bool"
  by unfold_locales (rule stops_same stops_call not_accept_call, simp_all)+

subsection \<open>The functions that accept and stop\<close>

text \<open>No other function posts the semaphore.\<close>

interpretation ns: win_base_accepting "\<lambda>s t :: ('w, 'z) win_scheme. w_accepted t = w_accepted s \<and> w_stop_sem t = w_stop_sem s"
  by unfold_locales auto

lemma accept_stops: "st.keeps (complete_accept ext peer a)"
proof (rule st.keepsI)
  fix s :: "('a, 'b) win_scheme"
  show "wp (complete_accept ext peer a) (\<lambda>_. stops s) (\<lambda>_. stops s) s"
  proof (cases "w_accepted s")
    case None
    have "st.keeps (andthen (free_completed_accept ext a ''accept_complete'') (accept_request ext))"
      by (intro st.keeps_andthen st.keeps_free_completed st.keeps_accept_request)
    moreover have "complete_accept ext peer a s =
        andthen (free_completed_accept ext a ''accept_complete'') (accept_request ext) s"
      by (simp add: complete_accept_def None bnd_def gets_def andthen_def ret_def)
    ultimately have "stops s (snd (complete_accept ext peer a s))" using st.keepsD by metis
    then show ?thesis by (simp add: wp_snd)
  next
    case (Some cb)
    from ns.keepsD [OF ns.keeps_complete_accept [of ext peer a], of s] have "stops s (snd (complete_accept ext peer a s))"
      by (simp add: stops_def Some)
    then show ?thesis by (simp add: wp_snd)
  qed
qed

lemma message_stops: "st.keeps (win_handle_message ext im)"
proof -
  have "st.keeps (modify (\<lambda>s. s\<lparr>w_accepted := None, w_stop_sem := Suc (w_stop_sem s)\<rparr>))"
    by (rule st.keeps_modify) (simp add: stops_def accepts_def calls_def)
  then show ?thesis
    unfolding win_handle_message_def win_with_ptr_def
    by (intro st.keeps_basic st.keeps_free_not_completed st.keeps_win_create stc.keeps_win_closing
        st.keeps_win_send_request st.keeps_win_call_false_cb)
qed

lemma return_stops: "st.keeps win_stop_accepting_return"
  unfolding win_stop_accepting_return_def
  by (rule st.keepsI) (auto simp: wp_simps stops_def accepts_def calls_def)

lemma completion_stops: "st.keeps (win_handle_completion ext code x peer)"
proof -
  have "st.keeps (case x of
        AcceptObj a \<Rightarrow> complete_accept ext peer a | OverlapObj p \<Rightarrow> complete_overlap ext p
      | RecvObj p \<Rightarrow> complete_recv ext p | SendObj p \<Rightarrow> complete_send ext p | ConnObj p \<Rightarrow> ret ())"
    by (cases x) (simp_all add: accept_stops st.keeps_complete_send st.keeps_ret stc.keeps_win_closings)
  then show ?thesis
    unfolding win_handle_completion_def
    by (intro st.keeps_if st.keeps_bnd st.keeps_obj_iov stc.keeps_win_close_connection)
qed

lemma entry_stops:
  "st.keeps m \<Longrightarrow> (\<And>k code. st.keeps (f k code)) \<Longrightarrow>
   st.keeps (case es of [] \<Rightarrow> m | (k, code) # rest \<Rightarrow> f k code)"
  by (auto split: list.split)

lemma iteration_stops: "st.keeps (win_iteration ext ub)"
  unfolding win_iteration_def win_handle_wakeup_def
  by (intro st.keeps_basic entry_stops st.keeps_with_cp st.keeps_get_transfer st.keeps_modify st.member_any message_stops
      completion_stops st.keeps_win_recalc st.keeps_sendbt)

lemma discard_stops: "st.keeps m \<Longrightarrow> st.keeps (win_discard m)"
  unfolding win_discard_def by (intro st.keeps_bnd st.keeps_ret)

lemma api_stops: "st.keeps (run_win_api ext a)"
  by (cases a) (simp_all only: run_win_api.simps discard_stops st.keeps_win_functions return_stops
      st.keeps_win_send st.keeps_win_break_send stc.keeps_win_connect_conn)

subsection \<open>Every run\<close>

lemma step_stops: "win_step ext ub c d \<Longrightarrow> stops (snd c) (snd d)"
proof (erule win_step.cases)
  have thread: "stops s (snd (win_thread_step ext ub (th, s)))" for th s
    using st.keepsD [OF iteration_stops, of s ext ub] st.refl [of s]
    by (cases th) (auto split: prod.split sum.split)
  have api: "stops s (snd (win_api_step ext a (th, s)))" for a th s
    using st.keepsD [OF api_stops, of s ext a] st.refl [of s]
    by (cases th) (auto split: prod.split sum.split)
  show "c = c' \<Longrightarrow> d = win_thread_step ext ub c' \<Longrightarrow> stops (snd c) (snd d)" for c'
    using thread by (cases c') simp
  show "c = c' \<Longrightarrow> d = win_api_step ext a c' \<Longrightarrow> win_allowed a c' \<Longrightarrow> stops (snd c) (snd d)" for c' a
    using api by (cases c') simp
qed

lemma steps_stops: "(win_step ext ub)\<^sup>*\<^sup>* c d \<Longrightarrow> stops (snd c) (snd d)"
  by (induction rule: rtranclp_induct) (auto intro: st.refl st.trans step_stops)

definition stopped_ok :: "('w, 'z) win_scheme \<Rightarrow> bool" where
  "stopped_ok s \<longleftrightarrow> (0 < w_stop_sem s \<longrightarrow> w_accepted s = None)"

lemma stops_ok: "stops s t \<Longrightarrow> stopped_ok s \<Longrightarrow> stopped_ok t"
  unfolding stops_def stopped_ok_def by (cases "w_stop_sem s < w_stop_sem t") auto

text \<open>The constructor leaves the semaphore at 0.\<close>

interpretation zero: win_base_accepting "\<lambda>s t :: ('w, 'z) win_scheme. w_stop_sem s = 0 \<longrightarrow> w_stop_sem t = 0"
  by unfold_locales simp_all

lemma start_zero: "zero.keeps (new_win_tcp_dispatcher ext j port cb)"
  unfolding new_win_tcp_dispatcher_def win_start_listening_def
  by (intro zero.keeps_basic zero.keeps_port zero.keeps_accept_request zero.keeps_modify zero.keeps_delete_cp_reactor)
    simp_all

lemma start_stopped: "w_stop_sem (snd (new_win_tcp_dispatcher ext j port cb (empty_win w))) = 0"
  using zero.keepsD [OF start_zero, of "empty_win w"] by (simp add: empty_win_def)

lemma reachable_stopped: "win_reachable ext ub c \<Longrightarrow> stopped_ok (snd c)"
proof (induction rule: win_reachable.induct)
  case (win_start c)
  then obtain w j port cb t where
    "new_win_tcp_dispatcher ext j port cb (empty_win w) = (Inr (), t)" "c = (W_running, t)"
    by (auto simp: win_initial_def)
  with start_stopped [of ext j port cb w] show ?case by (simp add: stopped_ok_def)
next
  case (win_next c d)
  then show ?case using stops_ok step_stops by blast
qed

text \<open>
  C13: The promise of \<open>stop_accepting\<close> in the Windows dispatcher, whatever the operating system,
  the callbacks and the interleaving of the threads do: once the wait for its semaphore has
  ended, the accepted callback is not called any more.
\<close>

theorem win_stop_accepting_stops:
  assumes "win_reachable ext ub (th, s)" and "win_stop_accepting_return s = (Inr True, t)"
    and "(win_step ext ub)\<^sup>*\<^sup>* (th, t) (th', u)"
  shows "filter accept_call (calls u) = filter accept_call (calls s)"
proof -
  have "0 < w_stop_sem s" and t: "t = s\<lparr>w_stop_sem := w_stop_sem s - 1\<rparr>"
    using assms(2) by (auto simp: win_stop_accepting_return_def bnd_def gets_def modify_def andthen_def ret_def
        split: if_splits)
  with reachable_stopped [OF assms(1)] have "w_accepted t = None" by (simp add: stopped_ok_def)
  with steps_stops [OF assms(3)] have "accepts u = accepts t" by (simp add: stops_def)
  with t show ?thesis by (simp add: accepts_def calls_def)
qed

text \<open>A run in which accepting is stopped while an \<open>AcceptEx\<close> is pending, which then completes.\<close>

definition win_stopped :: "win_thread \<times> win_sim win" where
  "win_stopped = win_play sim_win (\<lambda>_. 0) [Win_call W_stop_accepting, Win_step]
     (win_boot [woken, completed (AcceptObj 1) []])"

lemma win_stopped_run:
  "fst win_stopped = W_running" "w_stop_sem (snd win_stopped) = 1"
  "filter accept_call (calls (snd win_stopped)) = []"
  by (simp_all add: win_stopped_def win_boot_def calls_def win_simps cong: run_cong)

lemma win_stopped_reachable: "win_reachable sim_win (\<lambda>_. 0) (W_running, snd win_stopped)"
proof -
  have "win_reachable sim_win (\<lambda>_. 0) win_stopped"
    unfolding win_stopped_def by (intro win_play_reachable win_boot_reachable)
  with win_stopped_run(1) show ?thesis by (metis prod.collapse)
qed

theorem win_stop_accepting_stops_witness:
  "\<exists>t. win_stop_accepting_return (snd win_stopped) = (Inr True, t)
    \<and> filter accept_call (calls (snd (win_thread_step sim_win (\<lambda>_. 0) (W_running, t)))) = []"
proof -
  obtain t where t: "win_stop_accepting_return (snd win_stopped) = (Inr True, t)"
    using win_stopped_run(2)
    by (auto simp: win_stop_accepting_return_def bnd_def gets_def modify_def andthen_def ret_def)
  have "(win_step sim_win (\<lambda>_. 0))\<^sup>*\<^sup>* (W_running, t) (fst (win_thread_step sim_win (\<lambda>_. 0) (W_running, t)),
      snd (win_thread_step sim_win (\<lambda>_. 0) (W_running, t)))"
    unfolding prod.collapse by (rule r_into_rtranclp, rule win_by_thread)
  from win_stop_accepting_stops [OF win_stopped_reachable t this] t win_stopped_run(3) show ?thesis by auto
qed

end
