(* ===== verification/Win_Handlers.thy ===== *)
theory Win_Handlers
  imports Win_Properties
begin

section \<open>What the handlers of the Windows dispatcher do\<close>

subsection \<open>Giving up the operations at the end\<close>

text \<open>A program that returns, having changed nothing itself and made the calls \<open>ks\<close>.\<close>

definition only_calls :: "(('w, 'z) base_scheme, unit) prog \<Rightarrow> ('w, 'z) base_scheme \<Rightarrow> ext_call list \<Rightarrow> bool" where
  "only_calls m s ks \<longleftrightarrow> (\<exists>w tr. m s = (Inr (), s\<lparr>world := w, trace := tr\<rparr>) \<and> map fst tr = calls s @ ks)"

lemma only_calls_wp:
  assumes "only_calls m s ks"
    and "\<And>w tr. map fst tr = calls s @ ks \<Longrightarrow> Q () (s\<lparr>world := w, trace := tr\<rparr>)"
  shows "wp m Q E s"
  using assms by (auto simp: only_calls_def wp_def)

lemma only_calls_call:
  "ext k (world s) = (r, w) \<Longrightarrow>
   \<exists>w' tr. s\<lparr>world := w, trace := trace s @ [(k, r)]\<rparr> = s\<lparr>world := w', trace := tr\<rparr>
     \<and> map fst tr = calls s @ [k]"
  by (intro exI conjI, rule refl) (simp add: calls_def)

lemma only_calls_for_each:
  fixes s :: "('w, 'z) base_scheme"
  assumes body: "\<And>x (s :: ('w, 'z) base_scheme). live s x \<Longrightarrow> only_calls (body x) s [k x]"
    and keep: "\<And>(s :: ('w, 'z) base_scheme) w tr x. live (s\<lparr>world := w, trace := tr\<rparr>) x = live s x"
    and "\<forall>x \<in> set xs. live s x"
  shows "only_calls (for_each body xs) s (map k xs)"
  using assms(3)
proof (induction xs arbitrary: s)
  case Nil
  have "map fst (trace s) = calls s" by (simp add: calls_def)
  then show ?case
    unfolding only_calls_def by (intro exI [of _ "world s"] exI [of _ "trace s"]) (simp add: ret_def)
next
  case (Cons x xs)
  then obtain w tr where b: "body x s = (Inr (), s\<lparr>world := w, trace := tr\<rparr>)"
    "map fst tr = calls s @ [k x]"
    using body [of s x] unfolding only_calls_def by auto
  have "\<forall>x \<in> set xs. live (s\<lparr>world := w, trace := tr\<rparr>) x" using Cons.prems keep by simp
  from Cons.IH [OF this] b show ?case by (auto simp: only_calls_def andthen_run calls_def)
qed

lemma succeeds: "all_succeed ext \<Longrightarrow> ext k w = (r, w') \<Longrightarrow> rv r = 0"
  unfolding all_succeed_def by (metis fst_conv)

lemma all_succeed_rv: "all_succeed ext \<Longrightarrow> rv (fst (ext k w)) = 0"
  by (simp add: all_succeed_def)

lemmas release_run = bnd_run deref_def call_run whenever_def ret_def only_calls_def

lemma only_release:
  assumes "all_succeed ext" and "p \<noteq> 0"
  shows "conn_heap s p \<noteq> None \<Longrightarrow> only_calls (conn_release ext p m) s [Release (ConnObj p) m]"
    and "recv_heap s p \<noteq> None \<Longrightarrow> only_calls (recv_release ext p m) s [Release (RecvObj p) m]"
    and "send_heap s p \<noteq> None \<Longrightarrow> only_calls (send_release ext p m) s [Release (SendObj p) m]"
    and "overlap_heap s p \<noteq> None \<Longrightarrow> only_calls (overlap_release ext p m) s [Release (OverlapObj p) m]"
    and "accept_heap s p \<noteq> None \<Longrightarrow> only_calls (accept_release ext p m) s [Release (AcceptObj p) m]"
  using assms(2)
  by (auto simp: conn_release_def recv_release_def send_release_def overlap_release_def
      accept_release_def release_run succeeds [OF assms(1)] only_calls_call split: prod.split)

lemma only_releases:
  assumes "all_succeed ext"
  shows "\<forall>p \<in> set ps. p \<noteq> 0 \<and> conn_heap s p \<noteq> None \<Longrightarrow>
      only_calls (for_each (\<lambda>p. conn_release ext p m) ps) s (map (\<lambda>p. Release (ConnObj p) m) ps)"
    and "\<forall>p \<in> set ps. p \<noteq> 0 \<and> recv_heap s p \<noteq> None \<Longrightarrow>
      only_calls (for_each (\<lambda>p. recv_release ext p m) ps) s (map (\<lambda>p. Release (RecvObj p) m) ps)"
    and "\<forall>p \<in> set ps. p \<noteq> 0 \<and> send_heap s p \<noteq> None \<Longrightarrow>
      only_calls (for_each (\<lambda>p. send_release ext p m) ps) s (map (\<lambda>p. Release (SendObj p) m) ps)"
    and "\<forall>p \<in> set ps. p \<noteq> 0 \<and> overlap_heap s p \<noteq> None \<Longrightarrow>
      only_calls (for_each (\<lambda>p. overlap_release ext p m) ps) s (map (\<lambda>p. Release (OverlapObj p) m) ps)"
    and "\<forall>p \<in> set ps. p \<noteq> 0 \<and> accept_heap s p \<noteq> None \<Longrightarrow>
      only_calls (for_each (\<lambda>p. accept_release ext p m) ps) s (map (\<lambda>p. Release (AcceptObj p) m) ps)"
  by (rule only_calls_for_each [where live = "\<lambda>s p. p \<noteq> 0 \<and> conn_heap s p \<noteq> None"]
      only_calls_for_each [where live = "\<lambda>s p. p \<noteq> 0 \<and> recv_heap s p \<noteq> None"]
      only_calls_for_each [where live = "\<lambda>s p. p \<noteq> 0 \<and> send_heap s p \<noteq> None"]
      only_calls_for_each [where live = "\<lambda>s p. p \<noteq> 0 \<and> overlap_heap s p \<noteq> None"]
      only_calls_for_each [where live = "\<lambda>s p. p \<noteq> 0 \<and> accept_heap s p \<noteq> None"];
      simp add: only_release [OF assms])+

definition vectors_live :: "('w, 'z) win_scheme \<Rightarrow> bool" where
  "vectors_live s \<longleftrightarrow> (\<forall>p \<in> set (w_overlaps s). p \<noteq> 0 \<and> overlap_heap s p \<noteq> None)
    \<and> (\<forall>p \<in> set (w_accepts s). p \<noteq> 0 \<and> accept_heap s p \<noteq> None)
    \<and> (\<forall>p \<in> set (w_sends s). p \<noteq> 0 \<and> send_heap s p \<noteq> None)
    \<and> (\<forall>p \<in> set (w_recvs s). p \<noteq> 0 \<and> recv_heap s p \<noteq> None)
    \<and> (\<forall>p \<in> set (w_conns s). p \<noteq> 0 \<and> conn_heap s p \<noteq> None)"


definition exit_state :: "unit win" where
  "exit_state = (empty_win ())\<lparr>conn_heap := [2 \<mapsto> new_conn_struct 8 win_callbacks],
     overlap_heap := [3 \<mapsto> \<lparr>iov_sock = 8, iov_code = FD_CONNECT, iov_conn = 2\<rparr>],
     w_overlaps := [3], w_conns := [2, 2], last_addr := 3\<rparr>"


subsection \<open>A completed send\<close>

lemmas complete_send_defs = complete_send_def win_limiter_def win_limiter_insert_def
  send_callback_def free_completed_send_def send_release_def

lemma unchanged_cb: "sent_cb q = c \<Longrightarrow> q\<lparr>sent_bytes := n, sent_cb := c\<rparr> = q\<lparr>sent_bytes := n\<rparr>"
  by simp

lemma bw_max [simp]: "max_bw (bw_on p b) = max_bw b" "max_bw (bw_insert p n t b) = max_bw b"
  by (simp_all add: bw_on_def bw_insert_def bw_find_def Let_def split: option.splits)

text \<open>
  C28: The completion of a send adds the transferred bytes to what is already sent, makes the
  connection active for the limiter and, when there is a limit, charges it with them.  When
  everything is sent now, and only then, the request's callback is called with true, it is
  forgotten, the request is erased from the vector of pending ones and released; nothing
  else is called.
\<close>

theorem complete_send_effect:
  fixes s :: "('w, 'z) win_scheme"
  assumes "all_succeed ext" and "sr \<noteq> 0" and "send_heap s sr = Some q"
  shows "\<exists>t. complete_send ext sr s = (Inr (), t)
    \<and> calls t = calls s
        @ (if max_bw (w_bws s) = 0 then [] else [Os Ftime])
        @ (if sent_bytes q + w_transfered s \<noteq> total_bytes q then []
           else (case sent_cb q of None \<Rightarrow> [] | Some cb \<Rightarrow> [User (Cb_sent sr cb True)])
             @ [Release (SendObj sr) ''sending's_done.''])
    \<and> send_heap t = (send_heap s)(sr \<mapsto> q\<lparr>sent_bytes := sent_bytes q + w_transfered s,
        sent_cb := if sent_bytes q + w_transfered s = total_bytes q then None else sent_cb q\<rparr>)
    \<and> w_sends t = (if sent_bytes q + w_transfered s = total_bytes q then remove1 sr (w_sends s)
        else w_sends s)
    \<and> w_bws t = (let p = iov_conn (send_iov q); b = bw_on p (w_bws s)
        in if max_bw b = 0 then b else bw_insert p (w_transfered s) (r_time (fst (ext (Os Ftime) (world s)))) b)"
proof -
  have "wp (complete_send ext sr) (\<lambda>_ t. calls t = calls s
        @ (if max_bw (w_bws s) = 0 then [] else [Os Ftime])
        @ (if sent_bytes q + w_transfered s \<noteq> total_bytes q then []
           else (case sent_cb q of None \<Rightarrow> [] | Some cb \<Rightarrow> [User (Cb_sent sr cb True)])
             @ [Release (SendObj sr) ''sending's_done.''])
    \<and> send_heap t = (send_heap s)(sr \<mapsto> q\<lparr>sent_bytes := sent_bytes q + w_transfered s,
        sent_cb := if sent_bytes q + w_transfered s = total_bytes q then None else sent_cb q\<rparr>)
    \<and> w_sends t = (if sent_bytes q + w_transfered s = total_bytes q then remove1 sr (w_sends s)
        else w_sends s)
    \<and> w_bws t = (let p = iov_conn (send_iov q); b = bw_on p (w_bws s)
        in if max_bw b = 0 then b else bw_insert p (w_transfered s) (r_time (fst (ext (Os Ftime) (world s)))) b)) (\<lambda>_ _. False) s"
    using assms(2,3) all_succeed_rv [OF assms(1)]
    by (cases "sent_cb q"; cases "max_bw (w_bws s) = 0"; cases "sent_bytes q + w_transfered s = total_bytes q";
        simp add: complete_send_defs wp_simps wp_ret_eta calls_def Let_def unchanged_cb)
  from wp_returns [OF this] show ?thesis by auto
qed

definition half_sent :: "unit win" where
  "half_sent = (empty_win ())\<lparr>send_heap := [5 \<mapsto> \<lparr>send_iov = \<lparr>iov_sock = 8, iov_code = FD_WRITE,
       iov_conn = 2\<rparr>, break_sem = None, total_bytes = 3, sent_bytes = 1, sent_cb = Some 14,
       send_data = [1, 2, 3]\<rparr>], w_sends := [4, 5], w_transfered := 2, last_addr := 5\<rparr>"

theorem complete_send_effect_witness:
  "\<exists>t. complete_send quiet_world 5 half_sent = (Inr (), t)
    \<and> calls t = [User (Cb_sent 5 14 True), Release (SendObj 5) ''sending's_done.'']
    \<and> w_sends t = [4]"
proof -
  obtain q where "send_heap half_sent 5 = Some q" "sent_bytes q = 1" "total_bytes q = 3" "sent_cb q = Some 14"
    by (simp add: half_sent_def)
  then show ?thesis
    using complete_send_effect [OF all_succeed_quiet, of 5 half_sent q]
    by (auto simp: half_sent_def empty_win_def new_bwstop_def calls_def)
qed

subsection \<open>A completed receive\<close>


definition received_state :: "unit win" where
  "received_state = (empty_win ())\<lparr>conn_heap := [2 \<mapsto> new_conn_struct 8 win_callbacks],
     recv_heap := [3 \<mapsto> \<lparr>recv_iov = \<lparr>iov_sock = 8, iov_code = FD_READ, iov_conn = 2\<rparr>,
       recv_size = 0, recv_data = [5, 6, 7]\<rparr>], w_transfered := 2, last_addr := 3\<rparr>"


subsection \<open>A receive that cannot be started\<close>

text \<open>
  A world in which \<open>WSARecv\<close> fails with an error other than that the operation is pending;
  every other call succeeds, and releasing a receive request may destroy it.
\<close>

definition no_receiving :: "'w ext \<Rightarrow> bool" where
  "no_receiving ext \<longleftrightarrow>
     (\<forall>d n rr w. rv (fst (ext (Win (Wsa_recv d n rr)) w)) = -1
        \<and> err (fst (ext (Win (Wsa_recv d n rr)) w)) \<noteq> WSA_IO_PENDING)
     \<and> (\<forall>p m w. rv (fst (ext (Addref (ConnObj p) m) w)) = 0 \<and> rv (fst (ext (Release (ConnObj p) m) w)) = 0)
     \<and> (\<forall>u w. rv (fst (ext (User u) w)) = 0)"

lemma receiving_fails:
  fixes s :: "('w, 'z) win_scheme"
  assumes "no_receiving ext" and "p \<noteq> 0" and "conn_heap s p = Some c"
  shows "wp (activate_receiving ext p) (\<lambda>ok t. \<not> ok \<and> conn_heap t p = Some (c\<lparr>conn_recv := 0\<rparr>)
    \<and> filter conn_call (calls t) = filter conn_call (calls s)) (\<lambda>_ _. False) s"
  using assms(1) [unfolded no_receiving_def] assms(2,3)
  by (simp add: activate_receiving_def new_recv_req_def conn_addref_def recv_addref_def
      recv_release_def destroy_recv_def conn_release_def wp_simps wp_ret_eta calls_def)

lemma close_without_receive:
  fixes s :: "('w, 'z) win_scheme"
  assumes "no_receiving ext" and "p \<noteq> 0" and "conn_heap s p = Some c" and "conn_st c = Cs_connected"
    and "cb_closed (cbs c) = Some cb" and "conn_recv c = 0"
  shows "wp (win_close_connection ext p True) (\<lambda>_ _. False) (\<lambda>e t. e = Null_deref
    \<and> filter conn_call (calls t) = filter conn_call (calls s) @ [User (Cb_closed p cb)]) s"
  using assms(1) [unfolded no_receiving_def] assms(2-)
  by (simp add: win_close_connection_def call_closed_def win_forget_callbacks_def win_limiter_def
      win_close_socket_def win_drop_def free_completed_recv_def recv_release_def set_conn_def
      wp_simps wp_ret_eta calls_def)

lemma start_crashes:
  fixes s :: "('w, 'z) win_scheme"
  assumes "no_receiving ext" and "p \<noteq> 0" and "conn_heap s p = Some c" and "conn_st c = Cs_connected"
    and "cb_closed (cbs c) = Some cb"
  shows "wp (start_connection ext p) (\<lambda>_ _. False) (\<lambda>e t. e = Null_deref
    \<and> filter conn_call (calls t) = filter conn_call (calls s) @ [User (Cb_closed p cb)]) s"
proof -
  have *: "wp (bnd (activate_receiving ext p) (\<lambda>ok. whenever (\<not> ok) (win_close_connection ext p True)))
      (\<lambda>_ _. False) (\<lambda>e t. e = Null_deref
        \<and> filter conn_call (calls t) = filter conn_call (calls s) @ [User (Cb_closed p cb)]) u"
    if "conn_heap u p = Some c" "filter conn_call (calls u) = filter conn_call (calls s)"
    for u :: "('w, 'z) win_scheme"
    unfolding wp_bnd
  proof (rule wp_mono [OF receiving_fails [OF assms(1,2) that(1)]])
    fix ok and t :: "('w, 'z) win_scheme"
    assume t: "\<not> ok \<and> conn_heap t p = Some (c\<lparr>conn_recv := 0\<rparr>)
      \<and> filter conn_call (calls t) = filter conn_call (calls u)"
    with close_without_receive [OF assms(1,2), of t "c\<lparr>conn_recv := 0\<rparr>" cb] assms(4,5) that(2)
    show "wp (whenever (\<not> ok) (win_close_connection ext p True)) (\<lambda>_ _. False) (\<lambda>e t. e = Null_deref
        \<and> filter conn_call (calls t) = filter conn_call (calls s) @ [User (Cb_closed p cb)]) t"
      by (simp add: wp_whenever)
  qed simp
  have "wp (win_limiter_insert ext p 0) (\<lambda>_ u. conn_heap u p = Some c
      \<and> filter conn_call (calls u) = filter conn_call (calls s)) (\<lambda>_ _. False) s"
    using assms(3) by (simp add: win_limiter_insert_def win_limiter_def wp_simps calls_def)
  then show ?thesis
    unfolding start_connection_def wp_andthen by (rule wp_mono) (use * in auto)
qed

text \<open>
  A connection is established and its first \<open>WSARecv\<close> fails: \<open>activate_receiving\<close> sets
  the connection's receive request to null, \<open>connected\<close> and \<open>closed\<close> have been called, and
  then \<open>close_connection\<close> releases the null pointer.
\<close>

theorem failed_receive_crashes:
  fixes s :: "('w, 'z) win_scheme"
  assumes "no_receiving ext" and "ov \<noteq> 0" and "overlap_heap s ov = Some i"
    and "iov_conn i \<noteq> 0" and "conn_heap s (iov_conn i) = Some c"
    and "cb_connected (cbs c) = Some cb" and "cb_closed (cbs c) = Some cb'"
  shows "\<exists>t. complete_overlap ext ov s = (Inl Null_deref, t)
    \<and> filter conn_call (calls t) = filter conn_call (calls s)
        @ [User (Cb_connected (iov_conn i) cb True), User (Cb_closed (iov_conn i) cb')]"
proof -
  have "wp (complete_overlap ext ov) (\<lambda>_ _. False) (\<lambda>e t. e = Null_deref
    \<and> filter conn_call (calls t) = filter conn_call (calls s)
        @ [User (Cb_connected (iov_conn i) cb True), User (Cb_closed (iov_conn i) cb')]) s"
    using assms(1) [unfolded no_receiving_def] assms(2-)
    by (auto simp: complete_overlap_def call_connected_def win_set_connected_def set_conn_def
        wp_simps wp_ret_eta calls_def Let_def intro!: wp_mono [OF start_crashes [OF assms(1)]])
  then show ?thesis by (cases "complete_overlap ext ov s") (auto simp: wp_def split: sum.splits)
qed

text \<open>The receive is refused with \<open>WSAECONNRESET\<close>.\<close>

fun refusing_world :: "unit ext" where
  "refusing_world (Win (Wsa_recv d n rr)) w = ((plain_reply (-1))\<lparr>err := WSAECONNRESET\<rparr>, w)"
| "refusing_world k w = (plain_reply 0, w)"

theorem failed_receive_crashes_witness:
  "\<exists>t. complete_overlap refusing_world 3 exit_state = (Inl Null_deref, t)
    \<and> filter conn_call (calls t) = [User (Cb_connected 2 13 True), User (Cb_closed 2 12)]"
proof -
  have "no_receiving refusing_world"
    by (simp add: no_receiving_def plain_reply_def wsa_defs)
  from failed_receive_crashes [OF this, of 3 exit_state "\<lparr>iov_sock = 8, iov_code = FD_CONNECT, iov_conn = 2\<rparr>"
      "new_conn_struct 8 win_callbacks" 13 12]
  show ?thesis
    by (simp add: exit_state_def empty_win_def new_conn_struct_def win_callbacks_def calls_def)
qed

end
