(* ===== verification/Win_Findings.thy ===== *)
theory Win_Findings
  imports Win_Handlers
begin

section \<open>Where the Windows dispatcher departs from its interface's documentation\<close>

text \<open>
  \<open>close_conn\<close> \<open>can be called multiple times\<close>.  A connection is established, closed twice,
  its external reference is released, and the dispatcher is deleted.
\<close>

definition closed_twice :: "win_thread \<times> win_sim win" where
  "closed_twice = win_play sim_win (\<lambda>_. 0)
     [Win_call (W_connect 0 80 win_callbacks), Win_step, Win_step,
      Win_call (W_close_conn 2), Win_call (W_close_conn 2), Win_call (W_release 2), Win_step, Win_step,
      Win_call W_delete, Win_step]
     (win_boot [woken, completed (OverlapObj 3) [], woken, woken, woken])"

text \<open>
  C38: There is a run that uses the interface as documented in which the dispatcher thread
  ends with the release of a connection that is already destroyed: each \<open>close_conn\<close> records
  the connection once more among the waiting ones without a reference for it, and the
  thread gives a reference back for every record when it exits.
\<close>

theorem double_close_dangling:
  "win_reachable sim_win (\<lambda>_. 0) closed_twice \<and> fst closed_twice = W_failed Dangling
    \<and> filter conn_call (calls (snd closed_twice)) = [User (Cb_connected 2 13 True), User (Cb_closed 2 12)]"
proof -
  have "fst closed_twice = W_failed Dangling
    \<and> filter conn_call (calls (snd closed_twice)) = [User (Cb_connected 2 13 True), User (Cb_closed 2 12)]"
    by (simp add: closed_twice_def win_boot_def calls_def win_simps cong: run_cong)
  moreover have "win_reachable sim_win (\<lambda>_. 0) closed_twice"
    unfolding closed_twice_def by (intro win_play_reachable win_boot_reachable)
  ultimately show ?thesis by blast
qed

subsection \<open>A pending request under a limit\<close>

text \<open>
  With a limit \<open>sendbt\<close> runs at every time-out of the port.  One of its passes over a request
  whose send is still pending hands the rest of the request over once more.
\<close>

definition sends_pending :: "'w ext \<Rightarrow> bool" where
  "sends_pending ext \<longleftrightarrow> (\<forall>d bs sr w. rv (fst (ext (Win (Wsa_send d bs sr)) w)) = -1
     \<and> err (fst (ext (Win (Wsa_send d bs sr)) w)) = WSA_IO_PENDING)"

definition rest_of :: "send_req \<Rightarrow> u8 list" where
  "rest_of q = take (unat (total_bytes q - sent_bytes q)) (drop (unat (sent_bytes q)) (send_data q))"

lemma sendbt_once:
  fixes s :: "('w, 'z) win_scheme"
  assumes "sends_pending ext" and "w_sends s = [sr]" and "sr \<noteq> 0" and "send_heap s sr = Some q"
    and "iov_conn (send_iov q) \<noteq> 0" and "conn_heap s (iov_conn (send_iov q)) = Some c"
    and "sock c \<noteq> -1" and "conn_st c \<noteq> Cs_closed" and "conn_guess c \<noteq> 0"
    and "total_bytes q - sent_bytes q \<le> conn_guess c"
  shows "wp (sendbt ext) (\<lambda>_ t. calls t = calls s @ [Win (Wsa_send (iov_sock (send_iov q)) (rest_of q) sr)]
    \<and> w_sends t = [sr] \<and> send_heap t = send_heap s
    \<and> conn_heap t = (conn_heap s)(iov_conn (send_iov q) \<mapsto>
        c\<lparr>conn_guess := conn_guess c - (total_bytes q - sent_bytes q)\<rparr>)) (\<lambda>_ _. False) s"
proof -
  have "win_send_size q (Some (conn_guess c)) = total_bytes q - sent_bytes q"
    using assms(10) by (auto simp: win_send_size_def Let_def)
  then show ?thesis
    using assms(1) [unfolded sends_pending_def] assms(2-9)
    by (auto simp: sendbt_def win_do_send_def set_conn_def win_limiter_def rest_of_def
        wp_simps wp_ret_eta calls_def Let_def)
qed

text \<open>
  C36: A request whose send is pending is handed to the operating system again by every pass:
  as long as the connection's budget lasts, \<open>n\<close> passes start \<open>n\<close> sends of all the bytes that
  are not known to be sent, and nothing else is called.
\<close>

theorem win_pending_sent_again:
  fixes s :: "('w, 'z) win_scheme"
  assumes "sends_pending ext" and "w_sends s = [sr]" and "sr \<noteq> 0" and "send_heap s sr = Some q"
    and "iov_conn (send_iov q) \<noteq> 0" and "conn_heap s (iov_conn (send_iov q)) = Some c"
    and "sock c \<noteq> -1" and "conn_st c \<noteq> Cs_closed" and "sent_bytes q \<noteq> total_bytes q"
    and "n * unat (total_bytes q - sent_bytes q) \<le> unat (conn_guess c)"
  shows "\<exists>t. for_each (\<lambda>_. sendbt ext) (replicate n ()) s = (Inr (), t)
    \<and> calls t = calls s @ replicate n (Win (Wsa_send (iov_sock (send_iov q)) (rest_of q) sr))"
  using assms(2,4,6-8,10)
proof (induction n arbitrary: s c)
  case 0
  show ?case by (simp add: ret_def)
next
  case (Suc n)
  let ?len = "total_bytes q - sent_bytes q" and ?p = "iov_conn (send_iov q)"
  let ?c = "c\<lparr>conn_guess := conn_guess c - ?len\<rparr>"
  have len: "unat ?len \<le> unat (conn_guess c)" using Suc.prems(6) by simp
  then have le: "?len \<le> conn_guess c" by (simp add: word_le_nat_alt)
  have "unat ?len \<noteq> 0" using assms(9) by (simp add: unat_eq_0)
  with len have "conn_guess c \<noteq> 0" by auto
  from wp_returns [OF sendbt_once [OF assms(1) Suc.prems(1) assms(3) Suc.prems(2) assms(5) Suc.prems(3-5) this le]]
  obtain u where u: "sendbt ext s = (Inr (), u)"
    "calls u = calls s @ [Win (Wsa_send (iov_sock (send_iov q)) (rest_of q) sr)]"
    "w_sends u = [sr]" "send_heap u = send_heap s" "conn_heap u = (conn_heap s)(?p \<mapsto> ?c)"
    by auto
  have "n * unat ?len \<le> unat (conn_guess ?c)"
    using Suc.prems(6) le by (simp add: unat_sub)
  with u Suc.prems(2,4,5) obtain t where "for_each (\<lambda>_. sendbt ext) (replicate n ()) u = (Inr (), t)"
    "calls t = calls u @ replicate n (Win (Wsa_send (iov_sock (send_iov q)) (rest_of q) sr))"
    using Suc.IH [of u ?c] by auto
  moreover have "for_each (\<lambda>_. sendbt ext) (replicate (Suc n) ()) s = for_each (\<lambda>_. sendbt ext) (replicate n ()) u"
    using u(1) by (simp add: andthen_run)
  ultimately show ?case using u(2) by simp
qed

definition slow_world :: "unit ext" where
  "slow_world k w = (case k of Win (Wsa_send d bs sr) \<Rightarrow> pending_reply | _ \<Rightarrow> plain_reply 0, w)"

definition limited_state :: "unit win" where
  "limited_state = half_sent\<lparr>conn_heap := [2 \<mapsto> (new_conn_struct 8 win_callbacks)\<lparr>
     conn_st := Cs_connected, conn_guess := 100\<rparr>], w_sends := [5]\<rparr>"

theorem win_pending_sent_again_witness:
  "\<exists>t. for_each (\<lambda>_. sendbt slow_world) (replicate 3 ()) limited_state = (Inr (), t)
    \<and> calls t = [Win (Wsa_send 8 [2, 3] 5), Win (Wsa_send 8 [2, 3] 5), Win (Wsa_send 8 [2, 3] 5)]"
proof -
  have "sends_pending slow_world"
    by (simp add: sends_pending_def slow_world_def pending_reply_def plain_reply_def)
  moreover obtain q where q: "send_heap limited_state 5 = Some q" "total_bytes q = 3" "sent_bytes q = 1"
    "iov_conn (send_iov q) = 2" "iov_sock (send_iov q) = 8" "send_data q = [1, 2, 3]"
    by (simp add: limited_state_def half_sent_def)
  moreover have "rest_of q = [2, 3]" using q by (simp add: rest_of_def)
  ultimately show ?thesis
    using win_pending_sent_again [of slow_world limited_state 5 q
        "(new_conn_struct 8 win_callbacks)\<lparr>conn_st := Cs_connected, conn_guess := 100\<rparr>" 3]
    by (simp add: limited_state_def half_sent_def empty_win_def new_conn_struct_def calls_def numeral_3_eq_3)
qed

end
