(* ===== verification/Biocp_Findings.thy ===== *)
theory Biocp_Findings
  imports Biocp_Properties
begin

section \<open>Where the older Windows dispatcher departs from its interface's documentation\<close>

subsection \<open>Partial sends\<close>

text \<open>
  The completion of a part of a send: the port stores the size, the dispatcher goes on.
  \<open>sends_taken\<close> is a world that accepts every send.
\<close>

definition part_completed :: "'w ext \<Rightarrow> addr \<Rightarrow> u32 \<Rightarrow> (('w, 'z) bi_scheme, unit) prog" where
  "part_completed ext sr n = bnd (done_transfer ((plain_reply 1)\<lparr>r_done := Some (SendObj sr), r_size := n\<rparr>) [])
     (bi_handle_completion ext FD_WRITE)"

definition sends_taken :: "'w ext \<Rightarrow> bool" where
  "sends_taken ext \<longleftrightarrow> (\<forall>d bs sr w. rv (fst (ext (Win (Wsa_send d bs sr)) w)) = -1 \<longrightarrow>
     err (fst (ext (Win (Wsa_send d bs sr)) w)) = WSA_IO_PENDING)"

lemma part_completed_once:
  fixes s :: "('w, 'z) bi_scheme"
  assumes "sends_taken ext" and "sr \<noteq> 0" and "send_heap s sr = Some q" and "n < total_bytes q"
  shows "wp (part_completed ext sr n) (\<lambda>_ t. calls t = calls s @ [Win (Wsa_send (iov_sock (send_iov q))
      (take (unat (total_bytes q - n)) (drop (unat n) (send_data q))) sr)]
    \<and> send_heap t = (send_heap s)(sr \<mapsto> q\<lparr>sent_bytes := n\<rparr>)) (\<lambda>_ _. False) s"
  using assms(1) [unfolded sends_taken_def] assms(2-)
  by (auto simp: part_completed_def done_transfer_def bi_handle_completion_def bi_send_complete_def
      set_send_def fd_codes wp_simps wp_ret_eta calls_def)

text \<open>
  C37: The number of bytes sent is overwritten by each completion instead of added up.  So when
  a send completes in parts, each of fewer bytes than the request has, then whatever their
  sum is the request is not done: every part starts another send of the bytes from the size
  of that part on, and the request's callback is not called.
\<close>

theorem bi_partial_send_never_done:
  fixes s :: "('w, 'z) bi_scheme"
  assumes "sends_taken ext" and "sr \<noteq> 0" and "send_heap s sr = Some q"
    and "\<forall>n \<in> set ns. n < total_bytes q"
  shows "\<exists>t. for_each (part_completed ext sr) ns s = (Inr (), t)
    \<and> calls t = calls s @ map (\<lambda>n. Win (Wsa_send (iov_sock (send_iov q))
        (take (unat (total_bytes q - n)) (drop (unat n) (send_data q))) sr)) ns"
  using assms(3,4)
proof (induction ns arbitrary: s q)
  case (Cons n ns)
  from wp_returns [OF part_completed_once [OF assms(1,2) Cons.prems(1), of n]] Cons.prems(2) obtain u where
    u: "part_completed ext sr n s = (Inr (), u)"
      "calls u = calls s @ [Win (Wsa_send (iov_sock (send_iov q))
        (take (unat (total_bytes q - n)) (drop (unat n) (send_data q))) sr)]"
      "send_heap u sr = Some (q\<lparr>sent_bytes := n\<rparr>)"
    by auto
  with Cons.IH [of u "q\<lparr>sent_bytes := n\<rparr>"] Cons.prems(2) show ?case
    by (auto simp: andthen_run)
qed (simp add: ret_def)

text \<open>Five bytes, of which two and then three are sent.\<close>

definition parts_state :: "bi_sim bi" where
  "parts_state = (empty_bi (bi_sim_start [] [] []))\<lparr>send_heap := [4 \<mapsto> \<lparr>send_iov = \<lparr>iov_sock = 8,
     iov_code = FD_WRITE, iov_conn = 2\<rparr>, break_sem = None, total_bytes = 5, sent_bytes = 0,
     sent_cb = Some 14, send_data = [1, 2, 3, 4, 5]\<rparr>], b_sends := [4]\<rparr>"

theorem bi_partial_send_never_done_witness:
  "\<exists>t. for_each (part_completed sim_bi 4) [2, 3] parts_state = (Inr (), t)
    \<and> calls t = [Win (Wsa_send 8 [3, 4, 5] 4), Win (Wsa_send 8 [4, 5] 4)]"
proof -
  have "sends_taken sim_bi" by (simp add: sends_taken_def pending_reply_def)
  moreover obtain q where q: "send_heap parts_state 4 = Some q" "total_bytes q = 5"
    "iov_sock (send_iov q) = 8" "send_data q = [1, 2, 3, 4, 5]"
    by (simp add: parts_state_def)
  ultimately show ?thesis
    using bi_partial_send_never_done [of sim_bi 4 parts_state q "[2, 3]"]
    by (simp add: parts_state_def empty_bi_def calls_def)
qed

subsection \<open>Failed operations\<close>

text \<open>
  When an operation completes with an error other than that the connection was aborted
  or its peer is gone, the dispatcher thread dereferences a null pointer: \<open>get_transfer\<close>
  never assigns the connection it is to report.
\<close>

theorem failed_completion_crashes:
  fixes s :: "('w, 'z) bi_scheme"
  assumes "b_iocp s = Some R" and "ext (Win (Iocp_get (iocp_hcport R))) (world s) = (r, w)" and "rv r = 0"
    and "err r \<noteq> ERROR_CONNECTION_ABORTED" and "err r \<noteq> ERROR_NETNAME_DELETED"
    and "r_done r = Some x" and "fst (obj_iov x s) = Inr i" and "iov_sock i \<noteq> 0"
  shows "\<exists>t. bi_iteration ext s = (Inl Null_deref, t)"
proof -
  have iov: "obj_iov x (s\<lparr>world := w', trace := tr\<rparr>) = (Inr i, s\<lparr>world := w', trace := tr\<rparr>)" for w' tr
    using assms(7) by (cases x) (auto simp: bnd_run deref_def ret_def throw_def split: option.splits if_splits)
  show ?thesis
    using assms iov
    by (simp add: bi_iteration_def bi_iteration_body_def with_iocp_def iocp_get_transfer_def
        failed_transfer_def bi_handle_completion_def bi_close_connection_def run_basic)
qed

theorem failed_completion_crashes_witness:
  "\<exists>t. bi_iteration sim_bi (parts_state\<lparr>b_iocp := Some \<lparr>iocp_hcport = 3, iocp_threads = []\<rparr>,
      world := bi_sim_start [(plain_reply 0)\<lparr>err := 121, r_done := Some (SendObj 4)\<rparr>] [] []\<rparr>) =
    (Inl Null_deref, t)"
  by (rule failed_completion_crashes [where x = "SendObj 4" and r = "(plain_reply 0)\<lparr>err := 121, r_done := Some (SendObj 4)\<rparr>"
      and R = "\<lparr>iocp_hcport = 3, iocp_threads = []\<rparr>" and i = "\<lparr>iov_sock = 8, iov_code = FD_WRITE, iov_conn = 2\<rparr>"
      and w = "bi_sim_start [] [] []"])
    (simp_all add: parts_state_def bi_sim_start_def ERROR_CONNECTION_ABORTED_def
      ERROR_NETNAME_DELETED_def bnd_run deref_def ret_def plain_reply_def)

subsection \<open>A connection that is refused\<close>

definition refused_run :: "bi_sim bi_config" where
  "refused_run = bi_play sim_bi
     [Bi_call (B_connect 0 80 win_callbacks), Bi_dispatch,
      Bi_listen, Bi_listen, Bi_listen, Bi_listen, Bi_dispatch]
     (bi_boot [woken, woken] [3] [(FD_CONNECT, [0, 0, 0, 0, 10061])])"

text \<open>
  C39: There is a run in which a connection attempt is refused: the listening thread reports
  \<open>FD_CLOSE\<close>, the dispatcher thread calls \<open>connected\<close> with null, \<open>close_connection\<close> erases the
  connection from the vector, and the loop goes on to use the iterator of the erased entry.
\<close>

theorem refused_connect_crashes:
  "bi_reachable sim_bi refused_run \<and> fst refused_run = B_failed Bad_iterator
    \<and> filter conn_call (calls (snd (snd refused_run))) = [User (Cb_connected 1 13 False)]"
proof -
  have "fst refused_run = B_failed Bad_iterator
    \<and> filter conn_call (calls (snd (snd refused_run))) = [User (Cb_connected 1 13 False)]"
    by (simp add: refused_run_def bi_boot_def calls_def bi_simps cong: run_cong)
  moreover have "bi_reachable sim_bi refused_run"
    unfolding refused_run_def by (intro bi_play_reachable bi_boot_reachable)
  ultimately show ?thesis by blast
qed

subsection \<open>break_send\<close>

definition broken_run :: "bi_sim bi_config" where
  "broken_run = bi_play sim_bi
     [Bi_call (B_connect 0 80 win_callbacks), Bi_dispatch, Bi_call (B_send 1 [5, 6] (Some 14)),
      Bi_dispatch, Bi_call (B_break_send 2), Bi_dispatch]
     (bi_boot [woken, woken, woken] [3] [])"

text \<open>
  There is a run in which a request is sent and broken: the dispatcher thread calls its callback
  with false and then posts a semaphore that nothing ever initialised.
\<close>

theorem bi_break_send_crashes:
  "bi_reachable sim_bi broken_run \<and> fst broken_run = B_failed Bad_semaphore
    \<and> filter (sent_to 2) (calls (snd (snd broken_run))) = [User (Cb_sent 2 14 False)]"
proof -
  have "fst broken_run = B_failed Bad_semaphore
    \<and> filter (sent_to 2) (calls (snd (snd broken_run))) = [User (Cb_sent 2 14 False)]"
    by (simp add: broken_run_def bi_boot_def calls_def bi_simps cong: run_cong)
  moreover have "bi_reachable sim_bi broken_run"
    unfolding broken_run_def by (intro bi_play_reachable bi_boot_reachable)
  ultimately show ?thesis by blast
qed

subsection \<open>The listening thread\<close>

definition deaf_run :: "bi_sim bi_config" where
  "deaf_run = bi_play sim_bi
     [Bi_call (B_connect 0 80 win_callbacks), Bi_dispatch, Bi_listen, Bi_listen,
      Bi_call (B_close_conn 1), Bi_dispatch, Bi_listen]
     (bi_boot [woken, woken] [3] [])"

text \<open>
  There is a run in which the event of a connection is signalled and the connection is
  closed before the listening thread looks the event up: the lookup fails,
  \<open>get_interrupt\<close> answers false and the listening thread ends, while the dispatcher goes on
  without it and no connection is accepted or established any more.
\<close>

theorem listening_thread_lost:
  "bi_reachable sim_bi deaf_run \<and> fst deaf_run = B_running \<and> fst (snd deaf_run) = Li_ended
    \<and> b_accepted (snd (snd deaf_run)) = Some 9"
proof -
  have "fst deaf_run = B_running \<and> fst (snd deaf_run) = Li_ended
    \<and> b_accepted (snd (snd deaf_run)) = Some 9"
    by (simp add: deaf_run_def bi_boot_def calls_def bi_simps cong: run_cong)
  moreover have "bi_reachable sim_bi deaf_run"
    unfolding deaf_run_def by (intro bi_play_reachable bi_boot_reachable)
  ultimately show ?thesis by blast
qed

end
