(* ===== verification/Wsa_Props.thy ===== *)
theory Wsa_Props
  imports Wsa_Reactor Running
begin

section \<open>Properties of the event reactor\<close>

text \<open>
  What \<open>WaitForMultipleObjects\<close> promises for at most 64 events, of which \<open>sig\<close> are signalled
  during the whole call: the least index of a signalled event, or a time-out.
\<close>

definition waits_for :: "'w ext \<Rightarrow> (nat \<Rightarrow> bool) \<Rightarrow> bool" where
  "waits_for ext sig \<longleftrightarrow> (\<forall>hs time w. length hs \<le> 64 \<longrightarrow>
     ((\<exists>h \<in> set hs. sig h) \<longrightarrow>
        rv (fst (ext (Win (Wait_events hs time)) w)) = int (length (takeWhile (\<lambda>h. \<not> sig h) hs)))
     \<and> ((\<forall>h \<in> set hs. \<not> sig h) \<and> time \<noteq> None \<longrightarrow>
        rv (fst (ext (Win (Wait_events hs time)) w)) = WAIT_TIMEOUT))"

subsection \<open>The search\<close>

abbreviation first_signalled :: "(nat \<Rightarrow> bool) \<Rightarrow> nat list \<Rightarrow> nat" where
  "first_signalled sig hs \<equiv> length (takeWhile (\<lambda>h. \<not> sig h) hs)"

lemma first_signalled_nth:
  "\<exists>h \<in> set hs. sig h \<Longrightarrow> first_signalled sig hs < length hs \<and> hs ! first_signalled sig hs = hd (filter sig hs)"
  by (induction hs) auto

lemma first_in_group:
  assumes "j \<le> first_signalled sig hs"
  shows "first_signalled sig (drop j hs) = first_signalled sig hs - j"
  using assms
proof (induction hs arbitrary: j)
  case (Cons h hs)
  then show ?case by (cases j) (auto split: if_splits)
qed simp

lemma first_in_take:
  "first_signalled sig (take n hs) = min n (first_signalled sig hs)"
  by (induction hs arbitrary: n) (auto simp: take_Cons')

text \<open>The group at \<open>j\<close> is the next 60 events or what is left.\<close>

lemma group_size:
  assumes "60 dvd j" and "j < length hs" and "length hs < j + 60"
  shows "take (length hs mod 60) (drop j hs) = take 60 (drop j hs)"
proof -
  from assms(1) obtain k where k: "j = 60 * k" by (rule dvdE)
  obtain r where r: "length hs = j + r" 
    using that [of "length hs - j"] assms(2) by simp
  then have "length hs mod 60 = r" using k assms(3) by (simp add: mod_mult_self4)
  then show ?thesis using r assms(3) by simp
qed

lemma poll_group_eq:
  assumes "60 dvd j" and "j < length events"
  shows "wsa_poll_group ext events j = bnd (call ext (Win (Wait_events (take 60 (drop j events))
      (Some (if length events < j + 60 then 100 else 0))))) (\<lambda>r.
        if rv r = WAIT_FAILED then throw (Lib_exception ''WaitForMultipleObjects'' (err r))
        else if rv r = WAIT_TIMEOUT then ret None
        else ret (Some (nat (rv r) + j)))"
  using assms by (simp add: wsa_poll_group_def Let_def group_size)

lemma poll_group_found:
  fixes s :: "('w, 'z) base_scheme"
  assumes "waits_for ext sig" and "60 dvd j" and "j \<le> first_signalled sig events"
    and "first_signalled sig events < length events"
  shows "wp (wsa_poll_group ext events j) (\<lambda>x _.
    x = (if first_signalled sig events < j + 60 then Some (first_signalled sig events) else None)) (\<lambda>_ _. False) s"
proof -
  let ?g = "take 60 (drop j events)" and ?i = "first_signalled sig events"
  have all: "first_signalled sig hs = length hs" if "\<forall>h \<in> set hs. \<not> sig h" for hs
    using that by (induction hs) simp_all
  have first: "first_signalled sig ?g = min 60 (?i - j)"
    by (simp add: first_in_take first_in_group [OF assms(3)])
  have len: "length ?g \<le> 64" by simp
  have found: "\<exists>h \<in> set ?g. sig h" if "?i < j + 60"
  proof (rule ccontr)
    assume "\<not> (\<exists>h \<in> set ?g. sig h)"
    then have "first_signalled sig ?g = length ?g" by (intro all) blast
    with first that assms(3,4) show False by simp
  qed
  have none: "\<forall>h \<in> set ?g. \<not> sig h" if "j + 60 \<le> ?i"
  proof (rule ccontr)
    assume "\<not> (\<forall>h \<in> set ?g. \<not> sig h)"
    then have "first_signalled sig ?g < length ?g" using first_signalled_nth by blast
    with first that show False by simp
  qed
  have j: "j < length events" using assms(3,4) by simp
  show ?thesis
  proof (cases "?i < j + 60")
    case True
    with first assms(3) have "first_signalled sig ?g = ?i - j" by simp
    with assms(1) found [OF True] len have
      "rv (fst (ext (Win (Wait_events ?g (Some (if length events < j + 60 then 100 else 0)))) (world s)))
        = int (?i - j)"
      by (simp add: waits_for_def)
    with True assms(3) show ?thesis
      by (simp add: poll_group_eq [OF assms(2) j] wp_simps WAIT_FAILED_def WAIT_TIMEOUT_def)
  next
    case False
    with assms(1) none len have
      "rv (fst (ext (Win (Wait_events ?g (Some (if length events < j + 60 then 100 else 0)))) (world s)))
        = WAIT_TIMEOUT"
      by (simp add: waits_for_def)
    with False show ?thesis
      by (simp add: poll_group_eq [OF assms(2) j] wp_simps WAIT_FAILED_def WAIT_TIMEOUT_def)
  qed
qed

lemma poll_finds:
  fixes s :: "('w, 'z) base_scheme"
  assumes "waits_for ext sig" and "first_signalled sig events < length events"
  shows "60 dvd j \<Longrightarrow> j \<le> first_signalled sig events \<Longrightarrow> (first_signalled sig events - j) div 60 < fuel \<Longrightarrow>
    \<exists>t. wsa_poll ext events j fuel s = (Inr (first_signalled sig events), t)"
proof (induction fuel arbitrary: j s)
  case (Suc fuel)
  let ?i = "first_signalled sig events"
  from wp_returns [OF poll_group_found [OF assms(1) Suc.prems(1,2) assms(2), of s]] obtain t where
    t: "wsa_poll_group ext events j s = (Inr (if ?i < j + 60 then Some ?i else None), t)" by blast
  have j: "j < length events" using Suc.prems(2) assms(2) by simp
  show ?case
  proof (cases "?i < j + 60")
    case True
    with t j show ?thesis by (simp add: bnd_run ret_def)
  next
    case False
    then have "60 dvd j + 60" "j + 60 \<le> ?i" using Suc.prems(1) by auto
    moreover have "(?i - (j + 60)) div 60 < fuel"
    proof -
      have "(?i - (j + 60)) + 60 = ?i - j" using False by simp
      moreover have "((?i - (j + 60)) + 60) div 60 = (?i - (j + 60)) div 60 + 1"
        by (rule div_add_self2) simp
      ultimately show ?thesis using Suc.prems(3) by (metis Suc_eq_plus1 Suc_less_eq)
    qed
    ultimately obtain u where "wsa_poll ext events (j + 60) fuel t = (Inr ?i, u)"
      using Suc.IH by blast
    with t j False show ?thesis by (simp add: bnd_run)
  qed
qed simp

lemma wait_finds:
  fixes s :: "('w, 'z) base_scheme"
  assumes "waits_for ext sig" and "\<exists>h \<in> set events. sig h" and "length events div 60 < fuel"
  shows "\<exists>t. wsa_wait ext events fuel s = (Inr (hd (filter sig events)), t)"
proof -
  let ?i = "first_signalled sig events"
  note i = first_signalled_nth [OF assms(2)]
  show ?thesis
  proof (cases "length events > 60")
    case True
    have "?i div 60 \<le> length events div 60" using i by (simp add: div_le_mono)
    then obtain t where "wsa_poll ext events 0 fuel s = (Inr ?i, t)"
      using poll_finds [OF assms(1), of events 0 fuel s] i assms(3) by auto
    with True i show ?thesis by (simp add: wsa_wait_def wsa_handle_def bnd_run ret_def)
  next
    case False
    with assms(1,2) have "rv (fst (ext (Win (Wait_events events None)) (world s))) = int ?i"
      by (simp add: waits_for_def)
    with False i have "wp (wsa_wait ext events fuel) (\<lambda>h _. h = hd (filter sig events)) (\<lambda>_ _. False) s"
      by (simp add: wsa_wait_def wsa_wait_all_def wsa_handle_def wp_simps WAIT_FAILED_def)
    from wp_returns [OF this] show ?thesis by blast
  qed
qed

text \<open>
  C18: Waiting for any number of events, when at least one is signalled during the call,
  yields the first signalled handle in the order of the array, whether one wait for all or
  the polling in groups of 60 is used; the polling needs no more than one wait for every 60
  events.
\<close>

theorem wait_finds_first:
  fixes s :: "('w, 'z) base_scheme"
  assumes "waits_for ext sig" and "\<exists>h \<in> set events. sig h" and "length events div 60 < fuel"
  shows "\<exists>t. wsa_wait ext events fuel s = (Inr (hd (filter sig events)), t)"
  by (rule wait_finds [OF assms])

text \<open>An outside world in which exactly the event 75 is signalled.\<close>

definition event_world :: "unit ext" where
  "event_world k w = (case k of
     Win (Wait_events hs time) \<Rightarrow> plain_reply (if 75 \<in> set hs then int (first_signalled (\<lambda>h. h = 75) hs)
       else WAIT_TIMEOUT)
   | _ \<Rightarrow> plain_reply 0, w)"

lemma event_world_waits: "waits_for event_world (\<lambda>h. h = 75)"
  by (auto simp: waits_for_def event_world_def plain_reply_def)

definition event_state :: "unit base" where
  "event_state = \<lparr>world = (), trace = [], conn_heap = (\<lambda>_. None), recv_heap = (\<lambda>_. None),
     send_heap = (\<lambda>_. None), overlap_heap = (\<lambda>_. None), accept_heap = (\<lambda>_. None), last_addr = 0\<rparr>"

theorem wait_finds_first_witness:
  "\<exists>t. wsa_wait event_world [1..<101] 2 event_state = (Inr 75, t)"
proof -
  have "filter (\<lambda>h. h = 75) [1..<101] = [75]" by (simp add: upt_rec)
  with wait_finds_first [OF event_world_waits, of "[1..<101]" 2 event_state] show ?thesis by simp
qed

subsection \<open>Polling without rest\<close>

lemma multiples_apart:
  fixes i j :: nat
  assumes "60 dvd i" "60 dvd j" "j < i"
  shows "j + 60 \<le> i"
proof -
  from assms obtain a b where "i = 60 * a" "j = 60 * b" by (metis dvdE)
  then show ?thesis using assms(3) by simp
qed

text \<open>
  When the number of events is a multiple of 60, every wait of the polling has the
  time-out 0, whatever it answers and however long the polling goes on: the condition for
  the last group, which is to wait for 100 milliseconds, is never met and the thread polls
  without a rest.
\<close>

theorem busy_polling:
  fixes s :: "('w, 'z) base_scheme"
  assumes "60 dvd length events"
  shows "\<exists>es. trace (snd (wsa_poll ext events 0 fuel s)) = trace s @ es
    \<and> (\<forall>k \<in> set (map fst es). \<exists>hs. k = Win (Wait_events hs (Some 0)))"
proof -
  define quiet where "quiet t \<longleftrightarrow> (\<exists>es. trace t = trace s @ es
    \<and> (\<forall>k \<in> set (map fst es). \<exists>hs. k = Win (Wait_events hs (Some 0))))" for t :: "('w, 'z) base_scheme"
  have "quiet u \<Longrightarrow> 60 dvd j \<Longrightarrow> wp (wsa_poll ext events j fuel) (\<lambda>_. quiet) (\<lambda>_. quiet) u" for u j
  proof (induction fuel arbitrary: u j)
    case (Suc fuel)
    have next_round: "quiet t \<Longrightarrow> wp (wsa_poll ext events (j + 60) fuel) (\<lambda>_. quiet) (\<lambda>_. quiet) t" for t
      by (rule Suc.IH) (simp_all add: Suc.prems(2))
    show ?case
    proof (cases "j < length events")
      case True
      then have "\<not> length events < j + 60" using multiples_apart [OF assms Suc.prems(2)] by simp
      then have group: "wp (wsa_poll_group ext events j) (\<lambda>_. quiet) (\<lambda>_. quiet) u"
        using Suc.prems(1)
        by (auto simp: poll_group_eq [OF Suc.prems(2) True] wp_simps quiet_def)
      have "wp (case x of None \<Rightarrow> wsa_poll ext events (j + 60) fuel | Some i \<Rightarrow> ret i)
          (\<lambda>_. quiet) (\<lambda>_. quiet) t" if "quiet t" for x t
        using that next_round by (cases x) (simp_all add: wp_simps)
      with group True show ?thesis by (simp add: wp_bnd) (rule wp_mono)
    qed (simp add: Suc)
  qed (simp add: wp_simps)
  moreover have "quiet s" by (simp add: quiet_def)
  ultimately have "quiet (snd (wsa_poll ext events 0 fuel s))" unfolding wp_snd by simp
  then show ?thesis unfolding quiet_def .
qed

theorem busy_polling_witness:
  "\<exists>es. trace (snd (wsa_poll event_world [1..<121] 0 9 event_state)) = es
    \<and> (\<forall>k \<in> set (map fst es). \<exists>hs. k = Win (Wait_events hs (Some 0)))"
  using busy_polling [of "[1..<121]" event_world 9 event_state] by (simp add: event_state_def)

subsection \<open>Reporting\<close>

text \<open>The kinds of events and the places of their error codes.\<close>

definition event_kinds :: "(u32 \<times> nat) set" where
  "event_kinds = {(FD_READ, 0), (FD_WRITE, 1), (FD_OOB, 2), (FD_ACCEPT, 3), (FD_CONNECT, 4), (FD_CLOSE, 5),
     (FD_QOS, 6), (FD_GROUP_QOS, 7), (FD_ROUTING_INTERFACE_CHANGE, 8), (FD_ADDRESS_LIST_CHANGE, 9)}"

lemma what_happened_iff:
  "what_happened events codes \<longleftrightarrow>
     \<not> (\<exists>k \<in> event_kinds. and events (fst k) \<noteq> 0 \<and> net_error codes (snd k) \<noteq> 0)"
proof -
  have "event_kinds = set [(FD_READ, 0), (FD_WRITE, 1), (FD_OOB, 2), (FD_ACCEPT, 3), (FD_CONNECT, 4),
      (FD_CLOSE, 5), (FD_QOS, 6), (FD_GROUP_QOS, 7), (FD_ROUTING_INTERFACE_CHANGE, 8),
      (FD_ADDRESS_LIST_CHANGE, 9)]"
    by (simp add: event_kinds_def)
  from this [symmetric] show ?thesis
    unfolding what_happened_def list_all_iff by (simp only:) (auto simp: case_prod_beta)
qed

text \<open>
  C23: When the event of a registered socket is the first signalled one and its events can be
  read, \<open>get_interrupt\<close> answers true and adds for that socket exactly the events that
  occurred; if one of them, of any of the ten kinds, has an error code, it adds \<open>FD_CLOSE\<close>
  instead and forgets the event.
\<close>

theorem wsa_reports:
  fixes s :: "('w, 'z) base_scheme"
  assumes "waits_for ext sig" and "length (wait_map R) \<le> 1998" and "length (wait_map R) + 2 < 60 * fuel"
    and "h = hd (filter sig (hInterruptEvent R # hExitEvent R # map_keys (wait_map R)))" and "sig h"
    and "h \<notin> {hInterruptEvent R, hExitEvent R}" and "map_find h (wait_map R) = Some d"
    and "\<forall>w. fst (ext (Win (Enum_events d h)) w) = r" and "rv r = 0"
  shows "\<exists>t. wsa_get_interrupt ext R fuel result s =
      (if \<exists>k \<in> event_kinds. and (r_net r) (fst k) \<noteq> 0 \<and> net_error (r_net_errors r) (snd k) \<noteq> 0
       then (Inr (True, map_insert d FD_CLOSE result, R\<lparr>wait_map := map_erase h (wait_map R)\<rparr>), t)
       else (Inr (True, map_insert d (r_net r) result, R), t))"
proof -
  let ?events = "hInterruptEvent R # hExitEvent R # map_keys (wait_map R)"
  have len: "length ?events = length (wait_map R) + 2" by (simp add: map_keys_def)
  have "h \<in> set ?events" using map_find_key [OF assms(7)] by simp
  then have "\<exists>h \<in> set ?events. sig h" using assms(5) by blast
  moreover have "length ?events div 60 < fuel" using len assms(3) by (simp add: div_less_iff_less_mult)
  ultimately obtain u where u: "wsa_wait ext ?events fuel s = (Inr h, u)"
    using wait_finds [OF assms(1), of ?events fuel s] assms(4) by blast
  have collect: "wsa_collect R s = (Inr ?events, s)"
    using assms(2) len by (simp add: wsa_collect_def Let_def ret_def)
  obtain w where "ext (Win (Enum_events d h)) (world u) = (r, w)"
    using assms(8) by (metis prod.collapse)
  then obtain v where v: "wsa_signalled ext R h u = (Inr (Wsa_events h (r_net r) (r_net_errors r), R), v)"
    using assms(6,7,9) by (auto simp: wsa_signalled_def bnd_run call_run ret_def)
  have kinds: "(\<exists>k \<in> event_kinds. and (r_net r) (fst k) \<noteq> 0 \<and> net_error (r_net_errors r) (snd k) \<noteq> 0)
      \<longleftrightarrow> \<not> what_happened (r_net r) (r_net_errors r)"
    using what_happened_iff by blast
  show ?thesis
    unfolding kinds using u v collect assms(7)
    by (simp add: wsa_get_interrupt_def wsa_report_def bnd_run ret_def)
qed

text \<open>A connection that failed: \<open>FD_CONNECT\<close> with \<open>WSAECONNREFUSED\<close>.\<close>

definition refused :: reply where
  "refused = (plain_reply 0)\<lparr>r_net := FD_CONNECT, r_net_errors := [0, 0, 0, 0, 10061]\<rparr>"

definition refused_world :: "unit ext" where
  "refused_world k w = (case k of Win (Enum_events d h) \<Rightarrow> (refused, w) | _ \<Rightarrow> event_world k w)"

theorem wsa_reports_witness:
  "\<exists>t. wsa_get_interrupt refused_world \<lparr>hInterruptEvent = 3, hExitEvent = 4, wait_map = [(75, 8)]\<rparr> 1 []
      event_state =
    (Inr (True, [(8, FD_CLOSE)], \<lparr>hInterruptEvent = 3, hExitEvent = 4, wait_map = []\<rparr>), t)"
proof -
  have "waits_for refused_world (\<lambda>h. h = 75)"
    using event_world_waits by (simp add: waits_for_def refused_world_def)
  moreover have "\<exists>k \<in> event_kinds. and (r_net refused) (fst k) \<noteq> 0 \<and> net_error (r_net_errors refused) (snd k) \<noteq> 0"
    by (simp add: event_kinds_def refused_def net_error_def fd_codes)
  ultimately show ?thesis
    using wsa_reports [of refused_world "\<lambda>h. h = 75" "\<lparr>hInterruptEvent = 3, hExitEvent = 4,
        wait_map = [(75, 8)]\<rparr>" 1 75 8 refused "[]" event_state]
    by (simp add: refused_world_def refused_def plain_reply_def)
qed

end
