(* ===== verification/Port_Props.thy ===== *)
theory Port_Props
  imports Iocp_Reactor Simulated
begin

section \<open>The two wrappers of a completion port\<close>

lemma obj_iov_live:
  assumes "fst (obj_iov x s) = Inr i"
  shows "obj_iov x s = (Inr i, s)" and "\<exists>p. p \<noteq> 0 \<and>
    (x = OverlapObj p \<and> overlap_heap s p = Some i \<or> x = AcceptObj p \<and> accept_heap s p = Some i
     \<or> x = RecvObj p \<and> (\<exists>q. recv_heap s p = Some q \<and> recv_iov q = i)
     \<or> x = SendObj p \<and> (\<exists>q. send_heap s p = Some q \<and> send_iov q = i))"
  using assms
  by (cases x; auto simp: bnd_run deref_def ret_def throw_def split: option.splits if_splits)+

text \<open>
  For an operation that completed successfully, \<open>cp_reactor\<close> and \<open>iocp_reactor\<close> agree: both
  report exactly the socket and the code of the operation, make the same call and leave the
  same bytes in the request's buffer.  \<open>cp_reactor\<close> answers the size; \<open>iocp_reactor\<close> names the
  request and stores the size in it.  (For a receive the operation's socket has to be still
  the one of its connection.)
\<close>

theorem transfers_agree:
  fixes s :: "('w, 'z) base_scheme"
  assumes "iocp_hcport R' = hcport R" and "ext (Win (Iocp_get (hcport R))) (world s) = (r, w)"
    and "rv r \<noteq> 0" and "r_done r = Some x" and "fst (obj_iov x s) = Inr i"
    and "\<forall>rr. x = RecvObj rr \<longrightarrow> iov_conn i \<noteq> 0
      \<and> (\<exists>c. conn_heap s (iov_conn i) = Some c \<and> sock c = iov_sock i)"
  shows "\<exists>t t' tr. get_transfer ext R [] s = (Inr (r_size r, [(iov_sock i, iov_code i)], r), t)
    \<and> iocp_get_transfer ext R' [] s = (Inr tr, t') \<and> tr_result tr = [(iov_sock i, iov_code i)]
    \<and> tr_send tr = (case x of SendObj sr \<Rightarrow> sr | _ \<Rightarrow> 0)
    \<and> tr_recv tr = (case x of RecvObj rr \<Rightarrow> rr | _ \<Rightarrow> 0)
    \<and> trace t = trace t' \<and> conn_heap t = conn_heap t'
    \<and> (\<forall>p. map_option recv_data (recv_heap t p) = map_option recv_data (recv_heap t' p))
    \<and> (\<forall>rr. x = RecvObj rr \<longrightarrow> map_option recv_size (recv_heap t' rr) = Some (r_size r))
    \<and> (\<forall>sr. x = SendObj sr \<longrightarrow> map_option sent_bytes (send_heap t' sr) = Some (r_size r))"
proof -
  obtain p where "p \<noteq> 0" and x: "x = OverlapObj p \<and> overlap_heap s p = Some i
     \<or> x = AcceptObj p \<and> accept_heap s p = Some i
     \<or> x = RecvObj p \<and> (\<exists>q. recv_heap s p = Some q \<and> recv_iov q = i)
     \<or> x = SendObj p \<and> (\<exists>q. send_heap s p = Some q \<and> send_iov q = i)"
    using obj_iov_live(2) [OF assms(5)] by blast
  from x show ?thesis
    using assms \<open>p \<noteq> 0\<close>
    by (elim disjE conjE exE)
      (auto simp: get_transfer_def iocp_get_transfer_def done_transfer_def run_basic)
qed

text \<open>Two bytes received on the socket 8 of the connection 2.\<close>

definition port_world :: "unit ext" where
  "port_world k w = (case k of Win (Iocp_get h) \<Rightarrow> completed (RecvObj 3) [5, 6] | _ \<Rightarrow> plain_reply 0, w)"

definition port_state :: "unit base" where
  "port_state = \<lparr>world = (), trace = [], conn_heap = [2 \<mapsto> new_conn_struct 8 win_callbacks],
     recv_heap = [3 \<mapsto> \<lparr>recv_iov = \<lparr>iov_sock = 8, iov_code = FD_READ, iov_conn = 2\<rparr>,
       recv_size = 0, recv_data = []\<rparr>],
     send_heap = (\<lambda>_. None), overlap_heap = (\<lambda>_. None), accept_heap = (\<lambda>_. None), last_addr = 3\<rparr>"

theorem transfers_agree_witness:
  "\<exists>t t' tr. get_transfer port_world \<lparr>hcport = 4, cp_threads = []\<rparr> [] port_state =
      (Inr (2, [(8, FD_READ)], completed (RecvObj 3) [5, 6]), t)
    \<and> iocp_get_transfer port_world \<lparr>iocp_hcport = 4, iocp_threads = [0]\<rparr> [] port_state = (Inr tr, t')
    \<and> tr_result tr = [(8, FD_READ)] \<and> tr_recv tr = 3
    \<and> map_option recv_size (recv_heap t' 3) = Some 2"
proof -
  let ?R = "\<lparr>hcport = 4, cp_threads = []\<rparr>" and ?R' = "\<lparr>iocp_hcport = 4, iocp_threads = [0]\<rparr>"
  let ?i = "\<lparr>iov_sock = 8, iov_code = FD_READ, iov_conn = 2\<rparr>"
  have "fst (obj_iov (RecvObj 3) port_state) = Inr ?i"
    by (simp add: port_state_def bnd_run deref_def ret_def)
  moreover have "\<forall>rr. RecvObj 3 = RecvObj rr \<longrightarrow> iov_conn ?i \<noteq> 0
      \<and> (\<exists>c. conn_heap port_state (iov_conn ?i) = Some c \<and> sock c = iov_sock ?i)"
    by (simp add: port_state_def new_conn_struct_def)
  moreover have "port_world (Win (Iocp_get (hcport ?R))) (world port_state) = (completed (RecvObj 3) [5, 6], ())"
    by (simp add: port_world_def)
  moreover have "rv (completed (RecvObj 3) [5, 6]) \<noteq> 0" "r_done (completed (RecvObj 3) [5, 6]) = Some (RecvObj 3)"
    "r_size (completed (RecvObj 3) [5, 6]) = 2"
    by (simp_all add: completed_def plain_reply_def)
  ultimately show ?thesis
    using transfers_agree [of ?R' ?R port_world port_state "completed (RecvObj 3) [5, 6]" "()" "RecvObj 3" ?i]
    by (simp split: prod.splits) blast
qed

end
