(* ===== verification/Spec2Isabelle.thy ===== *)
theory Spec2Isabelle
  imports Bwstop_Runs Messages Tcp_Findings Tcp_Delivery Tcp_Order Tcp_Limits Tcp_Lifecycle Tcp_Closing Tcp_Breaking Tcp_Lifetimes Port_Lifecycle Wakeup_Props
    Win_Waits Win_Stopping Win_Findings Biocp_Findings Wsa_Props Port_Props
begin

text \<open>
  A model of tcp_fsm, a callback-based TCP library in C++, and its correctness.

  The program.  A user makes a dispatcher (\<open>itcp_dispatcher.h\<close>) and gets callbacks for the
  connections it opens or accepts.  There are three dispatchers, each with one thread of its
  own that other threads talk to through a queue of internal messages
  (\<open>internal_messages.*\<close>): \<open>tcp_dispatcher.*\<close> for Linux over an epoll reactor
  (\<open>linux_reactor.cpp\<close>), \<open>win_tcp_dispatcher.*\<close> over a completion port (\<open>cp_reactor.*\<close>),
  and the older \<open>tcp_dispatcher_biocp.*\<close> over another completion port (\<open>iocp_reactor.cpp\<close>)
  with a second thread that waits for socket events (\<open>wsa_reactor.cpp\<close>).  Two more reactors,
  over kqueue (\<open>fbsd_reactor.cpp\<close>) and over select (\<open>multi_reactor.cpp\<close>), do not implement
  the interface of a reactor (\<open>imulti_reactor.h\<close>) and no dispatcher uses them.  The dispatchers share the
  objects of \<open>connection.h\<close> and \<open>overlappedplus.*\<close> and, the first two, the bandwidth limiter
  \<open>bwstop.*\<close>.

  The model.  \<open>Prelude\<close>: a program takes a state to an exception or a value, and a state;
  weakest preconditions and triples.  \<open>Externals\<close>: everything that is not in the repository
  (the operating system, the user's callbacks, \<open>refcounted_obj\<close>) is one parameter \<open>ext\<close>, a
  function from a call and the state of the outside world to an answer; all calls and answers
  are recorded in a trace.  \<open>Std_Map\<close>: \<open>std::map\<close>.  \<open>Doubles\<close>: double arithmetic with 53
  significant bits.  \<open>Connection\<close>: the objects, a heap of them, their constructors and
  destructors, null and dangling pointers as errors.  \<open>Messages\<close>, \<open>Bwstop\<close>,
  \<open>Linux_Reactor\<close>, \<open>Cp_Reactor\<close>, \<open>Iocp_Reactor\<close>, \<open>Wsa_Reactor\<close>, \<open>Fbsd_Reactor\<close> (functions
  prefixed \<open>kq_\<close>), \<open>Select_Reactor\<close> (prefixed \<open>select_\<close>), \<open>Tcp_Dispatcher\<close>,
  \<open>Win_Dispatcher\<close> (functions prefixed \<open>win_\<close>) and \<open>Biocp_Dispatcher\<close> (prefixed \<open>bi_\<close>)
  hold one definition per member function, under its name, with the members as a record.
  \<open>Pipes\<close>: the pipe a reactor is woken up through, as bytes, and what a reactor promises of it.

  Threads.  \<open>Tcp_System\<close>, \<open>Win_System\<close> and \<open>Biocp_System\<close> are step relations: the dispatcher
  thread handles one event, completion or message at a time (and the listening thread runs
  from one locked section or wait to the next), other threads call one function of the
  interface, in any order.  A function that blocks on a semaphore is split there: the part
  before the wait, and its return, which is possible when the semaphore is positive.  A
  semaphore is its count, or none when it is not initialised, which is an error to post.  The
  functions of the interface are atomic otherwise: what they share with the dispatcher thread
  are the message queue, whose operations are one step under its mutex, and the semaphores.
  Exceptions that leave a \<open>throw()\<close> function or a thread function end the process.

  The properties.  \<open>Contract\<close> is a locale with the promises of \<open>itcp_dispatcher.h\<close> about the
  order of callbacks; \<open>Frames\<close>, \<open>Protocol\<close> and \<open>Sends\<close> have the invariants from which they
  follow and the rules for functions that leave them alone, as locales that
  \<open>Reactor_Frames\<close>, \<open>Tcp_Frames\<close>, \<open>Win_Frames\<close>, \<open>Biocp_Frames\<close> interpret.  \<open>Tcp_Protocol\<close>,
  \<open>Tcp_Sends\<close>, \<open>Win_Protocol\<close>, \<open>Win_Sends\<close>, \<open>Biocp_Protocol\<close> and \<open>Biocp_Sends\<close> prove that
  every step keeps them; \<open>Tcp_Properties\<close>, \<open>Win_Properties\<close> and \<open>Biocp_Properties\<close> read the
  promises off.  \<open>Lifecycle\<close> has the life of a connection as an abstract machine, and
  \<open>Tcp_Lifecycle\<close> proves that the Linux dispatcher implements it step by step,
  \<open>Port_Lifecycle\<close> that the calls of the Windows dispatchers follow it.  \<open>Tcp_Types\<close>:
  the state of the Linux dispatcher is well formed in every reachable configuration.
  \<open>Closing\<close>, \<open>Tcp_Closing\<close>, \<open>Tcp_Breaking\<close>, \<open>Win_Waits\<close>: the functions that wait,
  \<open>close_conn_wait\<close> and \<open>break_send\<close>, return only after the callback they promise was called;
  \<open>Win_Stopping\<close>: no connection is accepted after \<open>stop_accepting\<close> of the Windows dispatcher.
  \<open>Closing\<close> holds the contract of a dispatcher that posts the semaphore of a closed connection
  only.  \<open>Tcp_Wakeups\<close>: there is a wake-up for every queued message; \<open>Tcp_Delivery\<close>: the next wait
  takes it.  \<open>Tcp_Order\<close>: requests keep the order of the calls of \<open>send\<close>.  \<open>Wakeup_Props\<close>: the epoll and
  the kqueue reactor lose no wake-up and keep their order, and where the kqueue and the
  select reactor lose sockets.  \<open>Tcp_Limits\<close>: the dispatcher and the limiter together keep
  within the limit, and which connection they starve.  \<open>Tcp_Stream\<close>: the bytes a request writes.  \<open>Bwstop_Props\<close>, \<open>Bwstop_Runs\<close>: the
  limiter's budgets, in terms of the traffic of the last second, and its invariant.
  \<open>Wsa_Props\<close>: the waits of the event reactor find the first signalled event.
  \<open>Port_Props\<close>: the two wrappers of a completion port agree.
  \<open>Tcp_Handlers\<close>, \<open>Win_Handlers\<close>: handlers branch by branch.  \<open>Tcp_Findings\<close>,
  \<open>Win_Findings\<close>, \<open>Biocp_Findings\<close>: where the code departs from its documentation;
  \<open>Tcp_Lifetimes\<close>: an event of a connection that is no more.
  \<open>Running\<close>, \<open>Simulated\<close>, \<open>Tcp_Demo\<close>, \<open>Win_Demo\<close>, \<open>Biocp_Demo\<close>: concrete outside worlds and
  runs computed inside the kernel, which show that the hypotheses can be met.

  Bounds.  Loops over containers are structural recursions.  The retry of \<open>epoll_wait\<close> after
  an interruption and the polling of \<open>wsa_reactor\<close> have fuel; the former ends with any fuel
  beyond the number of interruptions, the latter finds a signalled event with one unit for
  every 60 events.  The dispatcher threads' endless loops are the step relations.  Integers
  have their width: \<open>uint32_t\<close> counters wrap around.

  The kqueue and select reactors do not compile as they are: \<open>get_interrupt\<close> and \<open>interrupt\<close>
  have other signatures than the interface has, \<open>stop\<close>, \<open>del_event\<close>, \<open>add_thread\<close> and
  \<open>add_conn\<close> are missing, and \<open>socket_reactor\<close> uses two names, \<open>ready_socket\<close> and \<open>desc_set\<close>,
  that are declared nowhere; these are fields of the types that their uses require.

  Not modelled.  Log output and tracing.  The DLL entry
  point, precompiled headers and project files.  Memory exhaustion.  Data races inside one
  function of the interface with the dispatcher thread (\<open>set_bandwidth\<close> writes the limiter's
  limit, \<open>connect\<close> the members of a connection): a call is one step.
\<close>

end
